(* ===== verification/Cpp_Std.thy ===== *)
theory Cpp_Std
  imports MB_Prelude
begin

text \<open>
  The parts of the C++ standard library whose behaviour the code relies on: \<open>std::map\<close> as an
  association list in key order, and the string streams (\<open>std::getline\<close>, \<open>operator>>\<close> into a
  string, \<open>std::setw\<close> with \<open>std::left\<close>). A stream that reads from a string is the list of the
  characters not yet read: reading at the end of the input fails and stores nothing, so the flag
  that a previous read reached the end makes no further difference.
\<close>

section \<open>Ordered maps\<close>

text \<open>The interface the code uses: \<open>operator[]\<close> as a store, \<open>find\<close>, and iteration in key order.\<close>

locale ordered_dict =
  fixes empty :: "'m"
    and put :: "'k::linorder \<Rightarrow> 'v \<Rightarrow> 'm \<Rightarrow> 'm"
    and find :: "'m \<Rightarrow> 'k \<Rightarrow> 'v option"
    and items :: "'m \<Rightarrow> ('k \<times> 'v) list"
    and inv :: "'m \<Rightarrow> bool"
  assumes inv_empty: "inv empty"
    and inv_put: "inv m \<Longrightarrow> inv (put k v m)"
    and find_empty: "find empty k = None"
    and find_put: "inv m \<Longrightarrow> find (put k v m) k' = (if k' = k then Some v else find m k')"
    and items_sorted: "inv m \<Longrightarrow> sorted_wrt (<) (map fst (items m))"
    and find_items: "inv m \<Longrightarrow> find m k = map_of (items m) k"
begin

text \<open>Building a map by stores: from any list of pairs the last store of a key wins.\<close>

lemma inv_fold: "inv m \<Longrightarrow> inv (fold (\<lambda>(k, v). put k v) kvs m)"
  by (induction kvs arbitrary: m) (auto simp: inv_put)

lemma find_fold:
  "inv m \<Longrightarrow> find (fold (\<lambda>(k, v). put k v) kvs m) x =
     (case map_of (rev kvs) x of None \<Rightarrow> find m x | Some v \<Rightarrow> Some v)"
  by (induction kvs arbitrary: m)
     (auto simp: inv_put find_put map_add_def map_of_append split: option.splits)

text \<open>The iteration order is fixed by what the map holds, not by the order of the stores.\<close>

lemma items_determined:
  assumes "inv m" "inv m'" and "\<And>k. find m k = find m' k"
  shows "items m = items m'"
proof -
  have s: "sorted_wrt (<) (map fst (items m))" "sorted_wrt (<) (map fst (items m'))"
    using assms(1,2) items_sorted by auto
  then have d: "distinct (map fst (items m))" "distinct (map fst (items m'))"
    by (auto simp: strict_sorted_iff)
  have "map_of (items m) = map_of (items m')"
    using assms by (auto simp: find_items)
  then have st: "set (items m) = set (items m')"
    using d by (simp add: map_of_inject_set)
  moreover have "inj_on fst (set (items m) \<union> set (items m'))"
    using d st by (simp add: distinct_map)
  ultimately show ?thesis
    using s d by (intro map_sorted_distinct_set_unique [of fst]) (auto simp: strict_sorted_iff)
qed

lemma put_commutes:
  "inv m \<Longrightarrow> k \<noteq> l \<Longrightarrow> items (put k v (put l w m)) = items (put l w (put k v m))"
  by (rule items_determined) (auto simp: inv_put find_put)

end

fun map_put :: "'k::linorder \<Rightarrow> 'v \<Rightarrow> ('k \<times> 'v) list \<Rightarrow> ('k \<times> 'v) list" where
  "map_put k v [] = [(k, v)]"
| "map_put k v ((l, w) # m) =
     (if k < l then (k, v) # (l, w) # m
      else if k = l then (k, v) # m
      else (l, w) # map_put k v m)"

abbreviation map_find :: "('k \<times> 'v) list \<Rightarrow> 'k \<Rightarrow> 'v option" where
  "map_find m k \<equiv> map_of m k"

definition map_inv :: "('k::linorder \<times> 'v) list \<Rightarrow> bool" where
  "map_inv m \<longleftrightarrow> sorted_wrt (<) (map fst m)"

lemma keys_map_put: "fst ` set (map_put k v m) = insert k (fst ` set m)"
  by (induction k v m rule: map_put.induct) auto

lemma set_map_put_subset: "set (map_put k v m) \<subseteq> insert (k, v) (set m)"
  by (induction k v m rule: map_put.induct) auto

lemma map_inv_empty [simp]: "map_inv []"
  by (simp add: map_inv_def)

lemma map_inv_Cons:
  "map_inv ((k, v) # m) \<longleftrightarrow> (\<forall>l\<in>fst ` set m. k < l) \<and> map_inv m"
  by (auto simp: map_inv_def)

lemma map_inv_put [wf_intro]: "map_inv m \<Longrightarrow> map_inv (map_put k v m)"
  by (induction k v m rule: map_put.induct)
     (auto simp del: ball_simps simp: map_inv_Cons keys_map_put intro: less_trans)

lemma map_find_put:
  "map_inv m \<Longrightarrow> map_find (map_put k v m) k' = (if k' = k then Some v else map_find m k')"
proof (induction m)
  case Nil
  then show ?case by simp
next
  case (Cons p m)
  obtain l w where p: "p = (l, w)" by (cases p)
  from Cons.prems have "map_inv m" by (simp add: p map_inv_Cons)
  with Cons.IH show ?case by (auto simp: p)
qed

interpretation dict: ordered_dict "[]" map_put map_find "\<lambda>m. m" map_inv
  by unfold_locales (auto simp: map_inv_put map_find_put, simp add: map_inv_def)

lemma map_inv_distinct: "map_inv m \<Longrightarrow> distinct (map fst m)"
  by (auto simp: map_inv_def strict_sorted_iff)

lemma map_of_rev_items: "map_inv m \<Longrightarrow> map_of (rev m) = map_of m"
  using map_of_inject_set [of "rev m" m] by (simp add: map_inv_distinct flip: rev_map)

text \<open>Storing the items of a map one by one rebuilds it.\<close>

lemma fold_put_items: "map_inv m \<Longrightarrow> fold (\<lambda>(k, v). map_put k v) m [] = m"
  by (rule dict.items_determined)
     (auto simp: dict.inv_fold dict.find_fold map_of_rev_items split: option.splits)

section \<open>Streams\<close>

definition is_space :: "char \<Rightarrow> bool" where
  "is_space c \<longleftrightarrow> c \<in> {CHR '' '', TAB, LF, CHR 0x0B, CHR 0x0C, CR}"

text \<open>\<open>std::getline(in, line, d)\<close>: the line and the rest of the input, or failure at the end.\<close>

definition getline :: "char \<Rightarrow> string \<Rightarrow> (string \<times> string) option" where
  "getline d s =
     (if s = [] then None
      else Some (takeWhile (\<lambda>c. c \<noteq> d) s, drop 1 (dropWhile (\<lambda>c. c \<noteq> d) s)))"

lemma getline_shorter: "getline d s = Some (l, r) \<Longrightarrow> length r < length s"
  using length_dropWhile_le [of "\<lambda>c. c \<noteq> d" s]
  by (cases s) (auto simp: getline_def split: if_splits simp del: length_dropWhile_le
      intro: le_less_trans [OF diff_le_self] less_Suc_eq_le [THEN iffD2])

lemma getline_append [simp]: "d \<notin> set l \<Longrightarrow> getline d (l @ d # r) = Some (l, r)"
  by (simp add: getline_def)

lemma getline_whole: "d \<notin> set l \<Longrightarrow> l \<noteq> [] \<Longrightarrow> getline d l = Some (l, [])"
  by (simp add: getline_def)

lemma getline_line: "getline d s = Some (l, r) \<Longrightarrow> d \<notin> set l"
  by (auto simp: getline_def set_takeWhile_neq split: if_splits)

lemma getline_Nil [simp]: "getline d [] = None"
  by (simp add: getline_def)

lemma getline_None_iff: "getline d s = None \<longleftrightarrow> s = []"
  by (simp add: getline_def)

text \<open>\<open>in >> word\<close> for a string: leading white space is skipped, and no word leaves it empty.\<close>

definition extract_word :: "string \<Rightarrow> string \<times> string" where
  "extract_word s =
     (let t = dropWhile is_space s
      in (takeWhile (\<lambda>c. \<not> is_space c) t, dropWhile (\<lambda>c. \<not> is_space c) t))"

definition no_space :: "string \<Rightarrow> bool" where
  "no_space w \<longleftrightarrow> list_all (\<lambda>c. \<not> is_space c) w"

lemma no_space_extract_word: "extract_word s = (w, r) \<Longrightarrow> no_space w"
  by (auto simp: extract_word_def no_space_def Let_def list_all_iff dest: set_takeWhileD)

lemma extract_word_nil [simp]: "extract_word [] = ([], [])"
  by (simp add: extract_word_def)

lemma extract_word_space [simp]: "is_space c \<Longrightarrow> extract_word (c # s) = extract_word s"
  by (simp add: extract_word_def)

lemma extract_word_empty: "extract_word s = ([], r) \<Longrightarrow> r = []"
proof -
  assume a: "extract_word s = ([], r)"
  let ?t = "dropWhile is_space s"
  have "?t = []"
  proof (rule ccontr)
    assume "?t \<noteq> []"
    then have "\<not> is_space (hd ?t)" by (rule hd_dropWhile_not)
    with \<open>?t \<noteq> []\<close> have "takeWhile (\<lambda>c. \<not> is_space c) ?t \<noteq> []" by (cases ?t) auto
    with a show False by (simp add: extract_word_def Let_def)
  qed
  with a show "r = []" by (simp add: extract_word_def Let_def)
qed

lemma extract_word_cons_space:
  assumes "no_space w" "w \<noteq> []" "is_space c"
  shows "extract_word (w @ c # s) = (w, c # s)"
proof -
  have n: "\<forall>x\<in>set w. \<not> is_space x" using assms(1) by (simp add: no_space_def list_all_iff)
  with assms(2) have "dropWhile is_space (w @ c # s) = w @ c # s" by (cases w) auto
  moreover have "takeWhile (\<lambda>c. \<not> is_space c) (w @ c # s) = w"
    using n assms(3) by (induction w) auto
  moreover have "dropWhile (\<lambda>c. \<not> is_space c) (w @ c # s) = c # s"
    using n assms(3) by (induction w) auto
  ultimately show ?thesis by (simp add: extract_word_def Let_def)
qed

lemma extract_word_end:
  assumes "no_space w"
  shows "extract_word w = (w, [])"
proof -
  have n: "\<forall>x\<in>set w. \<not> is_space x" using assms by (simp add: no_space_def list_all_iff)
  then have "dropWhile is_space w = w" by (cases w) auto
  with n show ?thesis by (simp add: extract_word_def Let_def)
qed

text \<open>\<open>out << std::left << std::setw(w) << s\<close>: padded on the right, never cut.\<close>

definition pad_right :: "nat \<Rightarrow> string \<Rightarrow> string" where
  "pad_right w s = s @ replicate (w - length s) CHR '' ''"

lemma length_pad_right: "length (pad_right w s) = max w (length s)"
  by (simp add: pad_right_def)

text \<open>\<open>s.find(c)\<close> for one character: the position of the first one.\<close>

definition find_char :: "char \<Rightarrow> string \<Rightarrow> nat option" where
  "find_char c s = (let p = length (takeWhile (\<lambda>x. x \<noteq> c) s) in if p < length s then Some p else None)"

lemma find_char_append [simp]: "c \<notin> set a \<Longrightarrow> find_char c (a @ c # b) = Some (length a)"
  by (simp add: find_char_def Let_def)

lemma find_char_SomeD:
  assumes "find_char c s = Some p"
  shows "p < length s" "s ! p = c" "c \<notin> set (take p s)"
proof -
  let ?t = "takeWhile (\<lambda>x. x \<noteq> c) s"
  from assms have p: "p = length ?t" and l: "p < length s"
    by (auto simp: find_char_def Let_def split: if_splits)
  show "p < length s" by (rule l)
  show "s ! p = c" using nth_length_takeWhile [of "\<lambda>x. x \<noteq> c" s] l p by simp
  show "c \<notin> set (take p s)" using p by (simp add: takeWhile_eq_take [symmetric] set_takeWhile_neq)
qed

section \<open>Numbers\<close>

text \<open>\<open>std::clamp(v, lo, hi)\<close>, which is undefined when \<open>hi < lo\<close>.\<close>

definition clamp :: "nat \<Rightarrow> nat \<Rightarrow> nat \<Rightarrow> nat option" where
  "clamp v lo hi = (if hi < lo then None else Some (if v < lo then lo else if hi < v then hi else v))"

text \<open>\<open>static_cast<int>\<close> of a \<open>size_t\<close>: modulo \<open>2 ^ 32\<close>, as a signed number.\<close>

definition size_to_int :: "nat \<Rightarrow> int" where
  "size_to_int n = sint (of_nat n :: u32)"

lemma size_to_int_small: "n < 2 ^ 31 \<Longrightarrow> size_to_int n = int n"
  using sint_sbintrunc' [where bin = "int n" and 'a = 32]
  by (simp add: size_to_int_def signed_take_bit_int_eq_self)

text \<open>\<open>std::setw(w)\<close> with an \<open>int\<close>: a negative width pads nothing.\<close>

definition setw_left :: "int \<Rightarrow> string \<Rightarrow> string" where
  "setw_left w s = pad_right (nat w) s"

section \<open>Lines\<close>

text \<open>The lines of a text, as a terminal shows them.\<close>

fun split_lines :: "string \<Rightarrow> string list" where
  "split_lines [] = [[]]"
| "split_lines (c # cs) =
     (if c = LF then [] # split_lines cs
      else case split_lines cs of [] \<Rightarrow> [[c]] | l # ls \<Rightarrow> (c # l) # ls)"

lemma split_lines_nonempty [simp]: "split_lines s \<noteq> []"
  by (induction s) (auto split: list.splits)

lemma split_lines_one: "LF \<notin> set l \<Longrightarrow> split_lines l = [l]"
  by (induction l) auto

lemma split_lines_append: "LF \<notin> set l \<Longrightarrow> split_lines (l @ LF # s) = l # split_lines s"
  by (induction l) auto

end
