(* ===== verification/Config_Data.thy ===== *)
theory Config_Data
  imports MB_Prelude
begin

text \<open>
  \<open>common/config.h\<close> and \<open>logs/logger.h\<close>: the configuration every part of the program reads. The
  log levels are the enumerators of the logging library that the source names.
\<close>

datatype ServerRunningMode = Persistent | SingleRequest

datatype LoggerType = Console | File

datatype level_enum = trace | debug | info | warn | err | critical | off

abbreviation DEFAULT_HTTP_PORT :: u16 where "DEFAULT_HTTP_PORT \<equiv> 8080"
abbreviation DEFAULT_HTTPS_PORT :: u16 where "DEFAULT_HTTPS_PORT \<equiv> 8443"

record server_config =
  http_port :: u16
  https_port :: u16
  run_mode :: ServerRunningMode
  allow_https_over_http_port :: bool
  worker_threads :: u16

record tls_config =
  certificate :: string
  private_key :: string

record upstream_config =
  up_host :: string
  up_port :: u16
  ignore_certificate_verification :: bool

record logging_config =
  log_output :: LoggerType
  log_level :: level_enum

record throttling_config =
  throttling_enabled :: bool
  requests_per_second :: u32
  burst_size :: u32

record Config =
  config_path :: string
  cfg_server :: server_config
  cfg_tls :: tls_config
  cfg_upstream :: upstream_config
  cfg_logging :: logging_config
  cfg_throttling :: throttling_config

text \<open>The member initialisers.\<close>

definition default_config :: Config where
  "default_config =
     \<lparr>config_path = [],
      cfg_server = \<lparr>http_port = DEFAULT_HTTP_PORT, https_port = DEFAULT_HTTPS_PORT,
        run_mode = Persistent, allow_https_over_http_port = False, worker_threads = 3\<rparr>,
      cfg_tls = \<lparr>certificate = ''cert/server.crt'', private_key = ''cert/server.key''\<rparr>,
      cfg_upstream = \<lparr>up_host = ''api.binance.com'', up_port = 443,
        ignore_certificate_verification = False\<rparr>,
      cfg_logging = \<lparr>log_output = Console, log_level = info\<rparr>,
      cfg_throttling = \<lparr>throttling_enabled = False, requests_per_second = 20, burst_size = 40\<rparr>\<rparr>"

text \<open>Updates of one field of a nested structure, as \<open>cfg.server.http_port = p\<close> does.\<close>

abbreviation upd_server :: "(server_config \<Rightarrow> server_config) \<Rightarrow> Config \<Rightarrow> Config" where
  "upd_server f c \<equiv> c\<lparr>cfg_server := f (cfg_server c)\<rparr>"
abbreviation upd_tls :: "(tls_config \<Rightarrow> tls_config) \<Rightarrow> Config \<Rightarrow> Config" where
  "upd_tls f c \<equiv> c\<lparr>cfg_tls := f (cfg_tls c)\<rparr>"
abbreviation upd_upstream :: "(upstream_config \<Rightarrow> upstream_config) \<Rightarrow> Config \<Rightarrow> Config" where
  "upd_upstream f c \<equiv> c\<lparr>cfg_upstream := f (cfg_upstream c)\<rparr>"
abbreviation upd_logging :: "(logging_config \<Rightarrow> logging_config) \<Rightarrow> Config \<Rightarrow> Config" where
  "upd_logging f c \<equiv> c\<lparr>cfg_logging := f (cfg_logging c)\<rparr>"
abbreviation upd_throttling :: "(throttling_config \<Rightarrow> throttling_config) \<Rightarrow> Config \<Rightarrow> Config" where
  "upd_throttling f c \<equiv> c\<lparr>cfg_throttling := f (cfg_throttling c)\<rparr>"

text \<open>
  A step that stores into a configuration and may throw: what was stored before the exception stays
  stored. Steps run one after the other until one throws.
\<close>

type_synonym config_step = "Config \<Rightarrow> unit result \<times> Config"

fun in_order :: "config_step list \<Rightarrow> config_step" where
  "in_order [] cfg = (Inr (), cfg)"
| "in_order (m # ms) cfg =
     (case m cfg of (Inl e, cfg') \<Rightarrow> (Inl e, cfg') | (Inr _, cfg') \<Rightarrow> in_order ms cfg')"

lemma in_order_ok:
  "in_order (m # ms) c = (Inr (), c') \<longleftrightarrow> (\<exists>c1. m c = (Inr (), c1) \<and> in_order ms c1 = (Inr (), c'))"
  by (auto split: prod.splits sum.splits)

declare in_order.simps(2) [simp del]

text \<open>The names of the enumerators, as the startup table prints them.\<close>

fun run_mode_to_string :: "ServerRunningMode \<Rightarrow> string" where
  "run_mode_to_string Persistent = ''persist''"
| "run_mode_to_string SingleRequest = ''single-request''"

fun logger_type_to_string :: "LoggerType \<Rightarrow> string" where
  "logger_type_to_string Console = ''console''"
| "logger_type_to_string File = ''file''"

text \<open>
  What the JSON loader enforces of the values it stores: real ports and a host name.
\<close>

definition valid_config :: "Config \<Rightarrow> bool" where
  "valid_config c \<longleftrightarrow>
     http_port (cfg_server c) \<noteq> 0 \<and> https_port (cfg_server c) \<noteq> 0
     \<and> up_port (cfg_upstream c) \<noteq> 0 \<and> up_host (cfg_upstream c) \<noteq> []"

lemma valid_default_config: "valid_config default_config"
  by (simp add: valid_config_def default_config_def)

end
