(* ===== verification/Config_Json.thy ===== *)
theory Config_Json
  imports Config_Data
begin

text \<open>
  \<open>config/config_json.h\<close>/\<open>.cpp\<close>: reading the configuration from a JSON document. The JSON library
  is a parameter: \<open>parse\<close> is \<open>stream >> document\<close>, which yields a document or throws with a text.
  A document is what the library's value type can hold; an object lists its members in the order
  \<open>items()\<close> visits them; an integer is stored as 64 bits with a tag that says whether it was read
  as unsigned or as signed (negative).
\<close>

section \<open>Documents\<close>

datatype json =
    JNull
  | JBool bool
  | JUnsigned u64
  | JInteger u64
  | JFloat rat
  | JString string
  | JArray "json list"
  | JObject "(string \<times> json) list"

type_synonym members = "(string \<times> json) list"

text \<open>
  \<open>is_number_unsigned() || is_number_integer()\<close> holds of the two integer kinds, and \<open>get\<close> of a
  64-bit type then casts the stored bits.
\<close>

fun number_bits :: "json \<Rightarrow> u64 option" where
  "number_bits (JUnsigned w) = Some w"
| "number_bits (JInteger w) = Some w"
| "number_bits _ = None"

section \<open>Reading single values\<close>

definition min_port :: int where "min_port = 1"
definition max_port :: int where "max_port = 65535"

fun obtain_object :: "json \<Rightarrow> string \<Rightarrow> members result" where
  "obtain_object (JObject ms) name = Inr ms"
| "obtain_object _ name = Inl (Runtime_error (name @ '' expected be a JSON object''))"

fun validate_keys :: "members \<Rightarrow> string list \<Rightarrow> string \<Rightarrow> unit result" where
  "validate_keys [] allowed name = Inr ()"
| "validate_keys ((key, _) # ms) allowed name =
     (if key \<notin> set allowed
      then Inl (Runtime_error (''unknown configuration property: '' @ name @ ''.'' @ key))
      else validate_keys ms allowed name)"

definition read_port :: "json \<Rightarrow> string \<Rightarrow> u16 result" where
  "read_port v name =
     (case number_bits v of
        None \<Rightarrow> Inl (Runtime_error (name @ '' expected be an integer''))
      | Some w \<Rightarrow>
          (let port = sint w
           in if port < min_port \<or> port > max_port
              then Inl (Runtime_error (name @ '' expected be between '' @ to_dec_int min_port
                     @ '' and '' @ to_dec_int max_port))
              else Inr (word_of_int port)))"

fun read_string :: "json \<Rightarrow> string \<Rightarrow> bool \<Rightarrow> string result" where
  "read_string (JString s) name allow_empty =
     (if \<not> allow_empty \<and> s = [] then Inl (Runtime_error (name @ '' expected not be empty''))
      else Inr s)"
| "read_string _ name allow_empty = Inl (Runtime_error (name @ '' expected be a string''))"

fun read_bool :: "json \<Rightarrow> string \<Rightarrow> bool result" where
  "read_bool (JBool b) name = Inr b"
| "read_bool _ name = Inl (Runtime_error (name @ '' expected be a boolean''))"

abbreviation uint32_max :: nat where "uint32_max \<equiv> 4294967295"

definition uint32_range_error :: "string \<Rightarrow> exn" where
  "uint32_range_error name =
     Runtime_error (name @ '' expected be between 0 and '' @ to_dec uint32_max)"

fun read_uint32 :: "json \<Rightarrow> string \<Rightarrow> u32 result" where
  "read_uint32 (JUnsigned w) name =
     (if unat w \<le> uint32_max then Inr (ucast w) else Inl (uint32_range_error name))"
| "read_uint32 (JInteger w) name =
     (if 0 \<le> sint w \<and> unat w \<le> uint32_max then Inr (ucast w) else Inl (uint32_range_error name))"
| "read_uint32 _ name = Inl (Runtime_error (name @ '' expected be an integer''))"

definition quoted :: "string \<Rightarrow> string" where
  "quoted s = CHR 0x27 # s @ [CHR 0x27]"

definition read_run_mode :: "json \<Rightarrow> ServerRunningMode result" where
  "read_run_mode v =
     bindE (read_string v ''server.run_mode'' True) (\<lambda>mode.
       if mode = ''persist'' then Inr Persistent
       else if mode = ''single-request'' then Inr SingleRequest
       else Inl (Runtime_error (''server.run_mode expected be '' @ quoted ''persist'' @ '' or ''
              @ quoted ''single-request'')))"

definition read_log_output :: "json \<Rightarrow> LoggerType result" where
  "read_log_output v =
     bindE (read_string v ''logging.output'' True) (\<lambda>output.
       if output = ''console'' \<or> output = ''con'' then Inr Console
       else if output = ''file'' then Inr File
       else Inl (Runtime_error (''logging.output expected be '' @ quoted ''console'' @ '', ''
              @ quoted ''con'' @ '', or '' @ quoted ''file'')))"

definition read_log_level :: "json \<Rightarrow> level_enum result" where
  "read_log_level v =
     bindE (read_string v ''logging.level'' True) (\<lambda>level.
       if level = ''trace'' then Inr trace
       else if level = ''debug'' then Inr debug
       else if level = ''info'' then Inr info
       else if level = ''warning'' then Inr warn
       else if level = ''error'' then Inr err
       else if level = ''critical'' then Inr critical
       else if level = ''off'' then Inr off
       else Inl (Runtime_error (''logging.level expected be '' @ quoted ''trace'' @ '', ''
              @ quoted ''debug'' @ '', '' @ quoted ''info'' @ '', '' @ quoted ''warning'' @ '', ''
              @ quoted ''error'' @ '', '' @ quoted ''critical'' @ '', or '' @ quoted ''off'')))"

section \<open>Merging a document into a configuration\<close>

text \<open>
  \<open>if (it->contains(key)) config.field = read(it->at(key))\<close>. The merge stores into the
  configuration it was given as it goes; a reader that throws leaves the earlier stores in place.
\<close>

definition set_if :: "members \<Rightarrow> string \<Rightarrow> (json \<Rightarrow> 'a result) \<Rightarrow> ('a \<Rightarrow> Config \<Rightarrow> Config) \<Rightarrow> config_step" where
  "set_if ms key rd upd c =
     (case map_of ms key of
        None \<Rightarrow> (Inr (), c)
      | Some v \<Rightarrow> (case rd v of Inl e \<Rightarrow> (Inl e, c) | Inr x \<Rightarrow> (Inr (), upd x c)))"

text \<open>\<open>if (it = root.find(key); it != root.end()) { obtain_object; validate_keys; ... }\<close>\<close>

definition checked_object :: "json \<Rightarrow> string list \<Rightarrow> string \<Rightarrow> string \<Rightarrow> members result" where
  "checked_object v allowed name keys_name =
     bindE (obtain_object v name) (\<lambda>ms. bindE (validate_keys ms allowed keys_name) (\<lambda>_. Inr ms))"

definition section_if :: "members \<Rightarrow> string \<Rightarrow> string list \<Rightarrow> (members \<Rightarrow> config_step) \<Rightarrow> config_step" where
  "section_if rms key allowed body c =
     (case map_of rms key of
        None \<Rightarrow> (Inr (), c)
      | Some v \<Rightarrow> (case checked_object v allowed key key of Inl e \<Rightarrow> (Inl e, c) | Inr ms \<Rightarrow> body ms c))"

definition merge_server :: "members \<Rightarrow> config_step" where
  "merge_server ms =
     in_order
      [set_if ms ''http_port'' (\<lambda>v. read_port v ''server.http_port'')
         (\<lambda>x. upd_server (\<lambda>s. s\<lparr>http_port := x\<rparr>)),
       set_if ms ''https_port'' (\<lambda>v. read_port v ''server.https_port'')
         (\<lambda>x. upd_server (\<lambda>s. s\<lparr>https_port := x\<rparr>)),
       set_if ms ''run_mode'' read_run_mode
         (\<lambda>x. upd_server (\<lambda>s. s\<lparr>run_mode := x\<rparr>)),
       set_if ms ''allow_https_over_http_port'' (\<lambda>v. read_bool v ''server.allow_https_over_http_port'')
         (\<lambda>x. upd_server (\<lambda>s. s\<lparr>allow_https_over_http_port := x\<rparr>))]"

definition merge_tls :: "members \<Rightarrow> config_step" where
  "merge_tls ms =
     in_order
      [set_if ms ''certificate'' (\<lambda>v. read_string v ''tls.certificate'' True)
         (\<lambda>x. upd_tls (\<lambda>s. s\<lparr>certificate := x\<rparr>)),
       set_if ms ''private_key'' (\<lambda>v. read_string v ''tls.private_key'' True)
         (\<lambda>x. upd_tls (\<lambda>s. s\<lparr>private_key := x\<rparr>))]"

definition merge_upstream :: "members \<Rightarrow> config_step" where
  "merge_upstream ms =
     in_order
      [set_if ms ''host'' (\<lambda>v. read_string v ''upstream.host'' False)
         (\<lambda>x. upd_upstream (\<lambda>s. s\<lparr>up_host := x\<rparr>)),
       set_if ms ''port'' (\<lambda>v. read_port v ''upstream.port'')
         (\<lambda>x. upd_upstream (\<lambda>s. s\<lparr>up_port := x\<rparr>)),
       set_if ms ''ignore_certificate_verification'' (\<lambda>v. read_bool v ''upstream.ignore_certificate_verification'')
         (\<lambda>x. upd_upstream (\<lambda>s. s\<lparr>ignore_certificate_verification := x\<rparr>))]"

definition merge_logging :: "members \<Rightarrow> config_step" where
  "merge_logging ms =
     in_order
      [set_if ms ''output'' read_log_output
         (\<lambda>x. upd_logging (\<lambda>s. s\<lparr>log_output := x\<rparr>)),
       set_if ms ''level'' read_log_level
         (\<lambda>x. upd_logging (\<lambda>s. s\<lparr>log_level := x\<rparr>))]"

definition merge_throttling :: "members \<Rightarrow> config_step" where
  "merge_throttling ms =
     in_order
      [set_if ms ''enabled'' (\<lambda>v. read_bool v ''throttling.enabled'')
         (\<lambda>x. upd_throttling (\<lambda>s. s\<lparr>throttling_enabled := x\<rparr>)),
       set_if ms ''requests_per_second'' (\<lambda>v. read_uint32 v ''throttling.requests_per_second'')
         (\<lambda>x. upd_throttling (\<lambda>s. s\<lparr>requests_per_second := x\<rparr>)),
       set_if ms ''burst_size'' (\<lambda>v. read_uint32 v ''throttling.burst_size'')
         (\<lambda>x. upd_throttling (\<lambda>s. s\<lparr>burst_size := x\<rparr>))]"

definition root_keys :: "string list" where
  "root_keys = [''server'', ''tls'', ''upstream'', ''logging'', ''throttling'']"
definition server_keys :: "string list" where
  "server_keys = [''http_port'', ''https_port'', ''run_mode'', ''allow_https_over_http_port'']"
definition tls_keys :: "string list" where
  "tls_keys = [''certificate'', ''private_key'']"
definition upstream_keys :: "string list" where
  "upstream_keys = [''host'', ''port'', ''ignore_certificate_verification'']"
definition logging_keys :: "string list" where
  "logging_keys = [''output'', ''level'']"
definition throttling_keys :: "string list" where
  "throttling_keys = [''enabled'', ''requests_per_second'', ''burst_size'']"

definition merge_json_config :: "json \<Rightarrow> config_step" where
  "merge_json_config document c =
     (case checked_object document root_keys ''configuration root'' ''root'' of
        Inl e \<Rightarrow> (Inl e, c)
      | Inr ms \<Rightarrow>
          in_order
           [section_if ms ''server'' server_keys merge_server,
            section_if ms ''tls'' tls_keys merge_tls,
            section_if ms ''upstream'' upstream_keys merge_upstream,
            section_if ms ''logging'' logging_keys merge_logging,
            section_if ms ''throttling'' throttling_keys merge_throttling] c)"

section \<open>Loading\<close>

text \<open>
  The two loaders. \<open>fs\<close> is the file system: the contents of a file that can be opened for reading.
\<close>

datatype loader = LoadFromFile string | LoadFromString string string

fun assign_path :: "string \<Rightarrow> loader \<Rightarrow> loader" where
  "assign_path p (LoadFromFile _) = LoadFromFile p"
| "assign_path p (LoadFromString s _) = LoadFromString s p"

definition obtain_stream_from_file :: "(string \<Rightarrow> string option) \<Rightarrow> string \<Rightarrow> string result" where
  "obtain_stream_from_file fs path =
     (case fs path of None \<Rightarrow> Inl (Runtime_error ''cannot open file'') | Some s \<Rightarrow> Inr s)"

fun obtain_stream :: "(string \<Rightarrow> string option) \<Rightarrow> loader \<Rightarrow> string result" where
  "obtain_stream fs (LoadFromFile p) = obtain_stream_from_file fs p"
| "obtain_stream fs (LoadFromString s _) = Inr s"

fun loader_source :: "loader \<Rightarrow> string" where
  "loader_source (LoadFromFile p) = p"
| "loader_source (LoadFromString s _) = s"

definition load_failure :: "loader \<Rightarrow> exn \<Rightarrow> exn" where
  "load_failure ld e =
     Runtime_error (''failed to load configuration '' @ quoted (loader_source ld) @ '': '' @ what e)"

definition load_from_stream ::
  "(string \<Rightarrow> json result) \<Rightarrow> (string \<Rightarrow> string option) \<Rightarrow> loader \<Rightarrow> json result" where
  "load_from_stream parse fs ld =
     (case bindE (obtain_stream fs ld) parse of
        Inl e \<Rightarrow> Inl (load_failure ld e)
      | Inr document \<Rightarrow> Inr document)"

text \<open>
  The caller's \<open>config\<close> after the call, with the exception if one escapes. The merge works on a copy,
  which is moved back when it is complete.
\<close>

definition load_json_config ::
  "(string \<Rightarrow> json result) \<Rightarrow> (string \<Rightarrow> string option) \<Rightarrow> loader \<Rightarrow> config_step" where
  "load_json_config parse fs ld config =
     (case load_from_stream parse fs ld of
        Inl e \<Rightarrow> (Inl (load_failure ld e), config)
      | Inr document \<Rightarrow>
          (let merged_config = config;
               (outcome, merged_config) = merge_json_config document merged_config
           in case outcome of
                Inl e \<Rightarrow> (Inl (load_failure ld e), config)
              | Inr _ \<Rightarrow> (let config = merged_config in (Inr (), config))))"

section \<open>What the value readers accept\<close>

lemma sint_small_iff:
  fixes w :: u64
  assumes "k < 2 ^ 63"
  shows "0 \<le> sint w \<and> sint w \<le> k \<longleftrightarrow> uint w \<le> k"
    and "uint w \<le> k \<Longrightarrow> sint w = uint w"
proof -
  have m: "uint w = sint w mod 2 ^ 64" by (simp add: uint_sint take_bit_eq_mod)
  have l: "- (2 ^ 63) \<le> sint w" "sint w < 2 ^ 63"
    using sint_greater_eq [of w] sint_less [of w] by simp_all
  have "uint w = (if 0 \<le> sint w then sint w else sint w + 2 ^ 64)"
  proof (cases "0 \<le> sint w")
    case True
    with m l show ?thesis by simp
  next
    case False
    then have "sint w mod 2 ^ 64 = (sint w + 2 ^ 64) mod 2 ^ 64" by simp
    also have "\<dots> = sint w + 2 ^ 64" using False l by (intro mod_pos_pos_trivial) simp_all
    finally show ?thesis using False m by simp
  qed
  with l assms show "0 \<le> sint w \<and> sint w \<le> k \<longleftrightarrow> uint w \<le> k" "uint w \<le> k \<Longrightarrow> sint w = uint w"
    by (auto split: if_splits)
qed

lemma uint_port:
  "0 \<le> i \<Longrightarrow> i \<le> 65535 \<Longrightarrow> uint (word_of_int i :: u16) = i"
  by (simp add: uint_word_of_int)

lemma word_of_port_eq:
  "0 \<le> i \<Longrightarrow> i \<le> 65535 \<Longrightarrow> word_of_int i = (p :: u16) \<longleftrightarrow> uint p = i"
  using uint_port [of i] by (metis word_of_int_uint)

lemma read_port_JInteger:
  "read_port (JInteger w) name = Inr p \<longleftrightarrow> 1 \<le> sint w \<and> sint w \<le> 65535 \<and> uint p = sint w"
  by (auto simp: read_port_def min_port_def max_port_def Let_def word_of_port_eq
      simp del: of_int_sint)

lemma read_port_JUnsigned:
  "read_port (JUnsigned w) name = Inr p \<longleftrightarrow> 1 \<le> uint w \<and> uint w \<le> 65535 \<and> uint p = uint w"
proof -
  have "read_port (JUnsigned w) name = Inr p \<longleftrightarrow> 1 \<le> sint w \<and> sint w \<le> 65535 \<and> uint p = sint w"
    using read_port_JInteger [of w name p] by (simp add: read_port_def)
  also have "\<dots> \<longleftrightarrow> 1 \<le> uint w \<and> uint w \<le> 65535 \<and> uint p = uint w"
    using sint_small_iff [of 65535 w] by auto
  finally show ?thesis .
qed

lemma read_port_other: "number_bits v = None \<Longrightarrow> \<exists>e. read_port v name = Inl e"
  by (simp add: read_port_def)

lemma read_port_nonzero: "read_port v name = Inr p \<Longrightarrow> p \<noteq> 0"
  by (cases v) (auto simp: read_port_JUnsigned read_port_JInteger, auto simp: read_port_def)

lemma uint_ucast_u32: "uint (w :: u64) \<le> 4294967295 \<Longrightarrow> uint (ucast w :: u32) = uint w"
  by (simp add: unsigned_ucast_eq take_bit_int_eq_self_iff)

lemma unat_le_uint32_max: "unat (w :: u64) \<le> uint32_max \<longleftrightarrow> uint w \<le> 4294967295"
proof -
  have "uint w = int (unat w)" by simp
  then show ?thesis by linarith
qed

lemma ucast_u32_eq:
  "uint (w :: u64) \<le> 4294967295 \<Longrightarrow> ucast w = (n :: u32) \<longleftrightarrow> uint n = uint w"
  using uint_ucast_u32 [of w] by (metis word_uint_eqI)

lemma read_uint32_JUnsigned:
  "read_uint32 (JUnsigned w) name = Inr n \<longleftrightarrow> uint w \<le> 4294967295 \<and> uint n = uint w"
  by (simp add: unat_le_uint32_max ucast_u32_eq)

lemma read_uint32_JInteger:
  "read_uint32 (JInteger w) name = Inr n \<longleftrightarrow>
     0 \<le> sint w \<and> sint w \<le> 4294967295 \<and> uint n = sint w"
proof (cases "0 \<le> sint w \<and> sint w \<le> 4294967295")
  case True
  with sint_small_iff [of 4294967295 w] have "uint w \<le> 4294967295" "sint w = uint w" by simp_all
  then show ?thesis by (simp add: unat_le_uint32_max ucast_u32_eq)
next
  case False
  with sint_small_iff(1) [of 4294967295 w] show ?thesis by (auto simp: unat_le_uint32_max)
qed

section \<open>The merge as an overlay\<close>

text \<open>
  What the merge is meant to compute, without its control flow: a document is accepted when it is
  an object of known sections with known keys and readable values, and then every field with a key
  in the document takes the value read there and every other field is kept.
\<close>

definition readable :: "(json \<Rightarrow> 'a result) \<Rightarrow> json option \<Rightarrow> bool" where
  "readable rd v = (case v of None \<Rightarrow> True | Some j \<Rightarrow> \<not> isl (rd j))"

definition pick :: "(json \<Rightarrow> 'a result) \<Rightarrow> json option \<Rightarrow> 'a \<Rightarrow> 'a" where
  "pick rd v d = (case v of None \<Rightarrow> d | Some j \<Rightarrow> (case rd j of Inl _ \<Rightarrow> d | Inr x \<Rightarrow> x))"

lemma pick_simps [simp]:
  "pick rd None d = d"
  "rd j = Inr x \<Longrightarrow> pick rd (Some j) d = x"
  by (simp_all add: pick_def)

lemma pick_pick [simp]: "pick rd v (pick rd v d) = pick rd v d"
  by (simp add: pick_def split: option.splits sum.splits)

fun members_of :: "json \<Rightarrow> members" where
  "members_of (JObject ms) = ms"
| "members_of _ = []"

definition section_of :: "json \<Rightarrow> string \<Rightarrow> members" where
  "section_of doc key = (case map_of (members_of doc) key of None \<Rightarrow> [] | Some v \<Rightarrow> members_of v)"

fun is_object :: "json \<Rightarrow> bool" where
  "is_object (JObject ms) = True"
| "is_object _ = False"

definition known_keys :: "string list \<Rightarrow> members \<Rightarrow> bool" where
  "known_keys allowed ms \<longleftrightarrow> list_all (\<lambda>(k, _). k \<in> set allowed) ms"

definition overlay_server :: "members \<Rightarrow> server_config \<Rightarrow> server_config" where
  "overlay_server ms s =
     s\<lparr>http_port := pick (\<lambda>v. read_port v ''server.http_port'') (map_of ms ''http_port'') (http_port s),
       https_port := pick (\<lambda>v. read_port v ''server.https_port'') (map_of ms ''https_port'') (https_port s),
       run_mode := pick read_run_mode (map_of ms ''run_mode'') (run_mode s),
       allow_https_over_http_port :=
         pick (\<lambda>v. read_bool v ''server.allow_https_over_http_port'')
           (map_of ms ''allow_https_over_http_port'') (allow_https_over_http_port s)\<rparr>"

definition server_readable :: "members \<Rightarrow> bool" where
  "server_readable ms \<longleftrightarrow>
     readable (\<lambda>v. read_port v ''server.http_port'') (map_of ms ''http_port'')
     \<and> readable (\<lambda>v. read_port v ''server.https_port'') (map_of ms ''https_port'')
     \<and> readable read_run_mode (map_of ms ''run_mode'')
     \<and> readable (\<lambda>v. read_bool v ''server.allow_https_over_http_port'')
         (map_of ms ''allow_https_over_http_port'')"

definition overlay_tls :: "members \<Rightarrow> tls_config \<Rightarrow> tls_config" where
  "overlay_tls ms s =
     s\<lparr>certificate := pick (\<lambda>v. read_string v ''tls.certificate'' True) (map_of ms ''certificate'') (certificate s),
       private_key := pick (\<lambda>v. read_string v ''tls.private_key'' True) (map_of ms ''private_key'') (private_key s)\<rparr>"

definition tls_readable :: "members \<Rightarrow> bool" where
  "tls_readable ms \<longleftrightarrow>
     readable (\<lambda>v. read_string v ''tls.certificate'' True) (map_of ms ''certificate'')
     \<and> readable (\<lambda>v. read_string v ''tls.private_key'' True) (map_of ms ''private_key'')"

definition overlay_upstream :: "members \<Rightarrow> upstream_config \<Rightarrow> upstream_config" where
  "overlay_upstream ms s =
     s\<lparr>up_host := pick (\<lambda>v. read_string v ''upstream.host'' False) (map_of ms ''host'') (up_host s),
       up_port := pick (\<lambda>v. read_port v ''upstream.port'') (map_of ms ''port'') (up_port s),
       ignore_certificate_verification :=
         pick (\<lambda>v. read_bool v ''upstream.ignore_certificate_verification'')
           (map_of ms ''ignore_certificate_verification'') (ignore_certificate_verification s)\<rparr>"

definition upstream_readable :: "members \<Rightarrow> bool" where
  "upstream_readable ms \<longleftrightarrow>
     readable (\<lambda>v. read_string v ''upstream.host'' False) (map_of ms ''host'')
     \<and> readable (\<lambda>v. read_port v ''upstream.port'') (map_of ms ''port'')
     \<and> readable (\<lambda>v. read_bool v ''upstream.ignore_certificate_verification'')
         (map_of ms ''ignore_certificate_verification'')"

definition overlay_logging :: "members \<Rightarrow> logging_config \<Rightarrow> logging_config" where
  "overlay_logging ms s =
     s\<lparr>log_output := pick read_log_output (map_of ms ''output'') (log_output s),
       log_level := pick read_log_level (map_of ms ''level'') (log_level s)\<rparr>"

definition logging_readable :: "members \<Rightarrow> bool" where
  "logging_readable ms \<longleftrightarrow>
     readable read_log_output (map_of ms ''output'') \<and> readable read_log_level (map_of ms ''level'')"

definition overlay_throttling :: "members \<Rightarrow> throttling_config \<Rightarrow> throttling_config" where
  "overlay_throttling ms s =
     s\<lparr>throttling_enabled := pick (\<lambda>v. read_bool v ''throttling.enabled'') (map_of ms ''enabled'') (throttling_enabled s),
       requests_per_second := pick (\<lambda>v. read_uint32 v ''throttling.requests_per_second'')
         (map_of ms ''requests_per_second'') (requests_per_second s),
       burst_size := pick (\<lambda>v. read_uint32 v ''throttling.burst_size'') (map_of ms ''burst_size'') (burst_size s)\<rparr>"

definition throttling_readable :: "members \<Rightarrow> bool" where
  "throttling_readable ms \<longleftrightarrow>
     readable (\<lambda>v. read_bool v ''throttling.enabled'') (map_of ms ''enabled'')
     \<and> readable (\<lambda>v. read_uint32 v ''throttling.requests_per_second'') (map_of ms ''requests_per_second'')
     \<and> readable (\<lambda>v. read_uint32 v ''throttling.burst_size'') (map_of ms ''burst_size'')"

definition section_ok :: "json \<Rightarrow> string \<Rightarrow> string list \<Rightarrow> (members \<Rightarrow> bool) \<Rightarrow> bool" where
  "section_ok doc key allowed ok \<longleftrightarrow>
     (case map_of (members_of doc) key of None \<Rightarrow> True | Some v \<Rightarrow> is_object v)
     \<and> known_keys allowed (section_of doc key) \<and> ok (section_of doc key)"

definition document_accepted :: "json \<Rightarrow> bool" where
  "document_accepted doc \<longleftrightarrow>
     is_object doc \<and> known_keys root_keys (members_of doc)
     \<and> section_ok doc ''server'' server_keys server_readable
     \<and> section_ok doc ''tls'' tls_keys tls_readable
     \<and> section_ok doc ''upstream'' upstream_keys upstream_readable
     \<and> section_ok doc ''logging'' logging_keys logging_readable
     \<and> section_ok doc ''throttling'' throttling_keys throttling_readable"

definition overlay :: "json \<Rightarrow> Config \<Rightarrow> Config" where
  "overlay doc c =
     c\<lparr>cfg_server := overlay_server (section_of doc ''server'') (cfg_server c),
       cfg_tls := overlay_tls (section_of doc ''tls'') (cfg_tls c),
       cfg_upstream := overlay_upstream (section_of doc ''upstream'') (cfg_upstream c),
       cfg_logging := overlay_logging (section_of doc ''logging'') (cfg_logging c),
       cfg_throttling := overlay_throttling (section_of doc ''throttling'') (cfg_throttling c)\<rparr>"

definition allowed_keys :: "string \<Rightarrow> string list" where
  "allowed_keys sec =
     (if sec = ''server'' then server_keys else if sec = ''tls'' then tls_keys
      else if sec = ''upstream'' then upstream_keys else if sec = ''logging'' then logging_keys
      else throttling_keys)"

lemma known_keys_iff: "known_keys allowed ms \<longleftrightarrow> fst ` set ms \<subseteq> set allowed"
  by (auto simp: known_keys_def list_all_iff)

lemma set_if_iff:
  assumes "\<And>c. upd (get c) c = c"
  shows "set_if ms key rd upd c = (Inr (), c') \<longleftrightarrow>
    readable rd (map_of ms key) \<and> c' = upd (pick rd (map_of ms key) (get c)) c"
  using assms
  by (cases "map_of ms key") (auto simp: set_if_def readable_def pick_def split: sum.splits)

lemma validate_keys_iff: "validate_keys ms allowed name = Inr () \<longleftrightarrow> known_keys allowed ms"
  by (induction ms allowed name rule: validate_keys.induct) (auto simp: known_keys_def)

lemma obtain_object_iff: "obtain_object j name = Inr ms \<longleftrightarrow> j = JObject ms"
  by (cases j) auto

lemma checked_object_iff:
  "checked_object j allowed n k = Inr ms \<longleftrightarrow> j = JObject ms \<and> known_keys allowed ms"
  by (auto simp: checked_object_def bindE_eq_Inr obtain_object_iff validate_keys_iff)

lemma merge_server_iff:
  "merge_server ms c = (Inr (), c') \<longleftrightarrow>
     server_readable ms \<and> c' = c\<lparr>cfg_server := overlay_server ms (cfg_server c)\<rparr>"
  by (auto simp: merge_server_def in_order_ok server_readable_def overlay_server_def
      set_if_iff [where get = "\<lambda>c. http_port (cfg_server c)"]
      set_if_iff [where get = "\<lambda>c. https_port (cfg_server c)"]
      set_if_iff [where get = "\<lambda>c. run_mode (cfg_server c)"]
      set_if_iff [where get = "\<lambda>c. allow_https_over_http_port (cfg_server c)"])

lemma merge_tls_iff:
  "merge_tls ms c = (Inr (), c') \<longleftrightarrow> tls_readable ms \<and> c' = c\<lparr>cfg_tls := overlay_tls ms (cfg_tls c)\<rparr>"
  by (auto simp: merge_tls_def in_order_ok tls_readable_def overlay_tls_def
      set_if_iff [where get = "\<lambda>c. certificate (cfg_tls c)"]
      set_if_iff [where get = "\<lambda>c. private_key (cfg_tls c)"])

lemma merge_upstream_iff:
  "merge_upstream ms c = (Inr (), c') \<longleftrightarrow>
     upstream_readable ms \<and> c' = c\<lparr>cfg_upstream := overlay_upstream ms (cfg_upstream c)\<rparr>"
  by (auto simp: merge_upstream_def in_order_ok upstream_readable_def overlay_upstream_def
      set_if_iff [where get = "\<lambda>c. up_host (cfg_upstream c)"]
      set_if_iff [where get = "\<lambda>c. up_port (cfg_upstream c)"]
      set_if_iff [where get = "\<lambda>c. ignore_certificate_verification (cfg_upstream c)"])

lemma merge_logging_iff:
  "merge_logging ms c = (Inr (), c') \<longleftrightarrow>
     logging_readable ms \<and> c' = c\<lparr>cfg_logging := overlay_logging ms (cfg_logging c)\<rparr>"
  by (auto simp: merge_logging_def in_order_ok logging_readable_def overlay_logging_def
      set_if_iff [where get = "\<lambda>c. log_output (cfg_logging c)"]
      set_if_iff [where get = "\<lambda>c. log_level (cfg_logging c)"])

lemma merge_throttling_iff:
  "merge_throttling ms c = (Inr (), c') \<longleftrightarrow>
     throttling_readable ms \<and> c' = c\<lparr>cfg_throttling := overlay_throttling ms (cfg_throttling c)\<rparr>"
  by (auto simp: merge_throttling_def in_order_ok throttling_readable_def overlay_throttling_def
      set_if_iff [where get = "\<lambda>c. throttling_enabled (cfg_throttling c)"]
      set_if_iff [where get = "\<lambda>c. requests_per_second (cfg_throttling c)"]
      set_if_iff [where get = "\<lambda>c. burst_size (cfg_throttling c)"])

lemma section_if_iff:
  assumes body: "\<And>ms c c'. body ms c = (Inr (), c') \<longleftrightarrow> ok ms \<and> c' = put ms c"
    and empty: "ok []" "\<And>c. put [] c = c"
  shows "section_if ms key allowed body c = (Inr (), c') \<longleftrightarrow>
    section_ok (JObject ms) key allowed ok \<and> c' = put (section_of (JObject ms) key) c"
proof (cases "map_of ms key")
  case None
  with empty show ?thesis by (auto simp: section_if_def section_ok_def section_of_def known_keys_def)
next
  case (Some v)
  show ?thesis
  proof (cases "checked_object v allowed key key")
    case (Inl e)
    then have "\<not> (is_object v \<and> known_keys allowed (members_of v))"
      using checked_object_iff [of v allowed key key "members_of v"] by (cases v) auto
    with Some Inl show ?thesis by (auto simp: section_if_def section_ok_def section_of_def)
  next
    case (Inr ms')
    then have "v = JObject ms'" "known_keys allowed ms'" by (simp_all add: checked_object_iff)
    with Some Inr show ?thesis by (simp add: section_if_def section_ok_def section_of_def body)
  qed
qed

lemma overlay_nothing [simp]:
  "overlay_server [] s = s" "overlay_tls [] t = t" "overlay_upstream [] u = u"
  "overlay_logging [] l = l" "overlay_throttling [] h = h"
  "server_readable []" "tls_readable []" "upstream_readable []" "logging_readable []"
  "throttling_readable []"
  by (simp_all add: overlay_server_def overlay_tls_def overlay_upstream_def overlay_logging_def
      overlay_throttling_def server_readable_def tls_readable_def upstream_readable_def
      logging_readable_def throttling_readable_def readable_def)

lemmas section_iffs =
  section_if_iff [of merge_server server_readable, OF merge_server_iff]
  section_if_iff [of merge_tls tls_readable, OF merge_tls_iff]
  section_if_iff [of merge_upstream upstream_readable, OF merge_upstream_iff]
  section_if_iff [of merge_logging logging_readable, OF merge_logging_iff]
  section_if_iff [of merge_throttling throttling_readable, OF merge_throttling_iff]

lemma merge_json_config_iff:
  "merge_json_config doc c = (Inr (), c') \<longleftrightarrow> document_accepted doc \<and> c' = overlay doc c"
proof (cases "checked_object doc root_keys ''configuration root'' ''root''")
  case (Inl e)
  then have "\<not> document_accepted doc"
    using checked_object_iff [of doc root_keys "''configuration root''" "''root''"]
    by (cases doc) (auto simp: document_accepted_def)
  with Inl show ?thesis by (simp add: merge_json_config_def)
next
  case (Inr ms)
  then have "doc = JObject ms" "known_keys root_keys ms" by (simp_all add: checked_object_iff)
  with Inr show ?thesis
    by (auto simp: merge_json_config_def in_order_ok section_iffs document_accepted_def overlay_def)
qed

lemma section_ok_keys: "section_ok doc sec allowed ok \<Longrightarrow> fst ` set (section_of doc sec) \<subseteq> set allowed"
  by (simp add: section_ok_def known_keys_iff)

lemma accepted_keys:
  assumes "document_accepted doc"
  shows "fst ` set (members_of doc) \<subseteq> set root_keys"
    and "sec \<in> set root_keys \<Longrightarrow> fst ` set (section_of doc sec) \<subseteq> set (allowed_keys sec)"
proof -
  show "fst ` set (members_of doc) \<subseteq> set root_keys"
    using assms by (simp add: document_accepted_def known_keys_iff)
  have "fst ` set (section_of doc sec) \<subseteq> set (allowed_keys sec)"
    if "sec = ''server'' \<or> sec = ''tls'' \<or> sec = ''upstream'' \<or> sec = ''logging'' \<or> sec = ''throttling''"
    using that assms unfolding document_accepted_def
    by (elim disjE conjE) (simp_all only: section_ok_keys allowed_keys_def if_True if_False refl
        list.inject char.inject list.distinct simp_thms)
  then show "sec \<in> set root_keys \<Longrightarrow> fst ` set (section_of doc sec) \<subseteq> set (allowed_keys sec)"
    by (simp add: root_keys_def)
qed

section \<open>Writing a configuration as a document\<close>

text \<open>The document with every key, as the README shows it for the defaults.\<close>

fun level_to_json_name :: "level_enum \<Rightarrow> string" where
  "level_to_json_name trace = ''trace''"
| "level_to_json_name debug = ''debug''"
| "level_to_json_name info = ''info''"
| "level_to_json_name warn = ''warning''"
| "level_to_json_name err = ''error''"
| "level_to_json_name critical = ''critical''"
| "level_to_json_name off = ''off''"

definition config_to_json :: "Config \<Rightarrow> json" where
  "config_to_json c = JObject [
     (''logging'', JObject [
        (''level'', JString (level_to_json_name (log_level (cfg_logging c)))),
        (''output'', JString (logger_type_to_string (log_output (cfg_logging c))))]),
     (''server'', JObject [
        (''allow_https_over_http_port'', JBool (allow_https_over_http_port (cfg_server c))),
        (''http_port'', JUnsigned (ucast (http_port (cfg_server c)))),
        (''https_port'', JUnsigned (ucast (https_port (cfg_server c)))),
        (''run_mode'', JString (run_mode_to_string (run_mode (cfg_server c))))]),
     (''throttling'', JObject [
        (''burst_size'', JUnsigned (ucast (burst_size (cfg_throttling c)))),
        (''enabled'', JBool (throttling_enabled (cfg_throttling c))),
        (''requests_per_second'', JUnsigned (ucast (requests_per_second (cfg_throttling c))))]),
     (''tls'', JObject [
        (''certificate'', JString (certificate (cfg_tls c))),
        (''private_key'', JString (private_key (cfg_tls c)))]),
     (''upstream'', JObject [
        (''host'', JString (up_host (cfg_upstream c))),
        (''ignore_certificate_verification'', JBool (ignore_certificate_verification (cfg_upstream c))),
        (''port'', JUnsigned (ucast (up_port (cfg_upstream c))))])]"

lemma read_port_ucast: "p \<noteq> 0 \<Longrightarrow> read_port (JUnsigned (ucast (p :: u16))) name = Inr p"
proof -
  assume "p \<noteq> 0"
  then have "1 \<le> uint p" using uint_ge_0 [of p] uint_0_iff [of p] by linarith
  moreover have "uint p \<le> 65535" using uint_bounded [of p] by simp
  moreover have "uint (ucast p :: u64) = uint p"
    by (simp add: unsigned_ucast_eq take_bit_int_eq_self_iff uint_bounded [of p, THEN order_less_trans])
  ultimately show ?thesis by (simp add: read_port_JUnsigned)
qed

lemma read_uint32_ucast: "read_uint32 (JUnsigned (ucast (n :: u32))) name = Inr n"
proof -
  have "uint n \<le> 4294967295" using uint_bounded [of n] by simp
  moreover have "uint (ucast n :: u64) = uint n"
    by (simp add: unsigned_ucast_eq take_bit_int_eq_self_iff uint_bounded [of n, THEN order_less_trans])
  ultimately show ?thesis by (simp add: read_uint32_JUnsigned del: read_uint32.simps)
qed

lemma read_names [simp]:
  "read_run_mode (JString (run_mode_to_string m)) = Inr m"
  "read_log_output (JString (logger_type_to_string t)) = Inr t"
  "read_log_level (JString (level_to_json_name l)) = Inr l"
    apply (cases m; simp add: read_run_mode_def)
   apply (cases t; simp add: read_log_output_def)
  apply (cases l; simp add: read_log_level_def)
  done

lemma config_to_json_accepted:
  "valid_config c \<Longrightarrow> document_accepted (config_to_json c)"
  by (simp add: document_accepted_def config_to_json_def section_ok_def section_of_def known_keys_def
      root_keys_def server_keys_def tls_keys_def upstream_keys_def logging_keys_def throttling_keys_def
      server_readable_def tls_readable_def upstream_readable_def logging_readable_def
      throttling_readable_def readable_def valid_config_def read_port_ucast read_uint32_ucast
      del: read_uint32.simps)

lemma overlay_config_to_json:
  assumes "valid_config c"
  shows "overlay (config_to_json c) c0 =
    c\<lparr>config_path := config_path c0,
      cfg_server := (cfg_server c)\<lparr>worker_threads := worker_threads (cfg_server c0)\<rparr>\<rparr>"
  using assms
  by (simp add: overlay_def config_to_json_def section_of_def overlay_server_def overlay_tls_def
      overlay_upstream_def overlay_logging_def overlay_throttling_def valid_config_def
      read_port_ucast read_uint32_ucast del: read_uint32.simps)

lemma read_nonempty: "read_string v n False = Inr s \<Longrightarrow> s \<noteq> []"
  by (cases v) (auto split: if_splits)

lemma overlay_valid: "valid_config c \<Longrightarrow> valid_config (overlay doc c)"
  by (auto simp: valid_config_def overlay_def overlay_server_def overlay_upstream_def pick_def
      split: option.splits sum.splits dest: read_port_nonzero read_nonempty)

lemma overlay_overlay: "overlay doc (overlay doc c) = overlay doc c"
  by (simp add: overlay_def overlay_server_def overlay_tls_def overlay_upstream_def
      overlay_logging_def overlay_throttling_def)

text \<open>A document whose first port is stored before the second one is found to be out of range.\<close>

lemma partial_merge:
  "\<exists>e c'. merge_json_config
      (JObject [(''server'', JObject [(''http_port'', JUnsigned 9000), (''https_port'', JUnsigned 0)])])
      default_config = (Inl e, c') \<and> c' \<noteq> default_config"
proof -
  let ?ms = "[(''http_port'', JUnsigned 9000), (''https_port'', JUnsigned 0)]"
  have o: "checked_object (JObject [(''server'', JObject ?ms)]) root_keys n k = Inr [(''server'', JObject ?ms)]"
    "checked_object (JObject ?ms) server_keys n k = Inr ?ms" for n k
    by (simp_all add: checked_object_iff known_keys_def root_keys_def server_keys_def)
  have r: "read_port (JUnsigned 9000) n = Inr 9000" "\<exists>e. read_port (JUnsigned 0) n = Inl e" for n
    by (simp_all add: read_port_def min_port_def max_port_def)
  then obtain e where "read_port (JUnsigned 0) ''server.https_port'' = Inl e" by blast
  with o r(1) show ?thesis
    by (simp add: merge_json_config_def merge_server_def section_if_def set_if_def in_order.simps
        default_config_def)
qed

section \<open>Properties\<close>

text \<open>
  C13. The integer readers are exact. The port reader accepts an integer if and only if its value is
  between 1 and 65535, and returns that value; in particular the cast of an unsigned 64-bit value to
  \<open>int64_t\<close>, which wraps, never lets a large value through, and the cast to 16 bits loses nothing.
  The reader of 32-bit values accepts exactly those from 0 to \<open>2 ^ 32 - 1\<close>, unchanged.
\<close>

theorem integer_readers_exact:
  "(read_port (JUnsigned w) name = Inr p \<longleftrightarrow> 1 \<le> uint w \<and> uint w \<le> 65535 \<and> uint p = uint w)
   \<and> (read_port (JInteger w) name = Inr p \<longleftrightarrow> 1 \<le> sint w \<and> sint w \<le> 65535 \<and> uint p = sint w)
   \<and> (read_uint32 (JUnsigned w) name = Inr n \<longleftrightarrow> uint w < 2 ^ 32 \<and> uint n = uint w)
   \<and> (read_uint32 (JInteger w) name = Inr n \<longleftrightarrow> 0 \<le> sint w \<and> sint w < 2 ^ 32 \<and> uint n = sint w)"
  using read_port_JUnsigned [of w name p] read_port_JInteger [of w name p]
    read_uint32_JUnsigned [of w name n] read_uint32_JInteger [of w name n] by auto

text \<open>
  C8. Merging a document does what a declarative overlay says, and succeeds exactly for the
  documents that consist of known sections with known keys and readable values: every key that is
  present sets its field, every other field (and all of \<open>worker_threads\<close> and \<open>config_path\<close>, which
  have no key) is kept. Whether a document is accepted does not depend on the configuration.
\<close>

theorem merge_refines_overlay:
  "merge_json_config doc c = (Inr (), c') \<longleftrightarrow> document_accepted doc \<and> c' = overlay doc c"
  by (rule merge_json_config_iff)

text \<open>
  C20. Writing a valid configuration as a document with every key and merging that document into
  any configuration gives the written configuration back, except for the two fields that have no
  key.
\<close>

theorem json_config_roundtrip:
  assumes "valid_config c"
  shows "merge_json_config (config_to_json c) c0 =
    (Inr (), c\<lparr>config_path := config_path c0,
           cfg_server := (cfg_server c)\<lparr>worker_threads := worker_threads (cfg_server c0)\<rparr>\<rparr>)"
  by (simp add: merge_json_config_iff config_to_json_accepted overlay_config_to_json assms)

theorem json_config_roundtrip_witness:
  "merge_json_config (config_to_json default_config)
     (default_config\<lparr>config_path := ''x.json'', cfg_upstream := (cfg_upstream default_config)\<lparr>up_port := 1\<rparr>\<rparr>) =
    (Inr (), default_config\<lparr>config_path := ''x.json'',
           cfg_server := (cfg_server default_config)\<lparr>worker_threads := 3\<rparr>\<rparr>)"
  using json_config_roundtrip [OF valid_default_config,
      of "default_config\<lparr>config_path := ''x.json'', cfg_upstream := (cfg_upstream default_config)\<lparr>up_port := 1\<rparr>\<rparr>"]
  by (simp add: default_config_def)

text \<open>
  C30. Merging keeps a configuration usable and settles it: from a valid configuration (non-zero
  ports, a host name) only valid ones are reached, and merging the same document a second time
  changes nothing.
\<close>

theorem merge_keeps_valid_and_settles:
  assumes "merge_json_config doc c = (Inr (), c')"
  shows "(valid_config c \<longrightarrow> valid_config c') \<and> merge_json_config doc c' = (Inr (), c')"
  using assms by (auto simp: merge_json_config_iff overlay_valid overlay_overlay)

theorem merge_keeps_valid_and_settles_witness:
  "valid_config default_config \<and> merge_json_config (JObject []) default_config = (Inr (), default_config)"
  using merge_keeps_valid_and_settles [of "JObject []" default_config default_config] valid_default_config
  by (simp add: merge_json_config_def section_if_def checked_object_def in_order.simps)

text \<open>
  C31. A misspelt key never goes unnoticed: a document whose root, or one of whose sections, has a
  member outside the documented keys is refused, whatever else it holds.
\<close>

theorem unknown_key_refused:
  assumes "key \<in> fst ` set (members_of doc) \<and> key \<notin> set root_keys
    \<or> sec \<in> set root_keys \<and> key \<in> fst ` set (section_of doc sec) \<and> key \<notin> set (allowed_keys sec)"
  shows "\<exists>e c'. merge_json_config doc c = (Inl e, c')"
proof -
  have "\<not> document_accepted doc" using assms accepted_keys [of doc] by blast
  then show ?thesis
    using merge_json_config_iff [of doc c "snd (merge_json_config doc c)"]
    by (cases "merge_json_config doc c"; cases "fst (merge_json_config doc c)") auto
qed

theorem unknown_key_refused_witness:
  "\<exists>e c'. merge_json_config (JObject [(''server'', JObject [(''worker_threads'', JUnsigned 8)])])
         default_config = (Inl e, c')"
  by (rule unknown_key_refused [where key = "''worker_threads''" and sec = "''server''"])
     (simp add: server_keys_def root_keys_def allowed_keys_def section_of_def)

text \<open>
  C21. Loading is all or nothing. Either the file (or string) was read, the text parsed and the
  document was accepted, and the configuration is the overlay; or an exception escapes, the
  caller's configuration is untouched and the exception names the source. This is the work of the
  copy: the merge alone is not atomic, it can throw after it has stored. \<open>parse\<close> is the JSON library,
  \<open>fs\<close> the file system.
\<close>

theorem load_json_config_atomic:
  "(fst (load_json_config parse fs ld c) = Inr () \<longleftrightarrow>
      (\<exists>str doc. obtain_stream fs ld = Inr str \<and> parse str = Inr doc \<and> document_accepted doc))
   \<and> ((\<exists>str doc. obtain_stream fs ld = Inr str \<and> parse str = Inr doc
         \<and> load_json_config parse fs ld c = (Inr (), overlay doc c))
      \<or> (\<exists>e. load_json_config parse fs ld c = (Inl (load_failure ld e), c)))
   \<and> (\<exists>doc e c'. merge_json_config doc default_config = (Inl e, c') \<and> c' \<noteq> default_config)"
proof -
  have partial: "\<exists>doc e c'. merge_json_config doc default_config = (Inl e, c') \<and> c' \<noteq> default_config"
    using partial_merge by blast
  show ?thesis
  proof (cases "bindE (obtain_stream fs ld) parse")
    case (Inl e)
    with partial show ?thesis
      by (auto simp: load_json_config_def load_from_stream_def bindE_eq_Inl)
  next
    case (Inr doc)
    then obtain str where t: "obtain_stream fs ld = Inr str" "parse str = Inr doc"
      by (auto simp: bindE_eq_Inr)
    obtain r c1 where m: "merge_json_config doc c = (r, c1)" by fastforce
    then show ?thesis
      using Inr t partial merge_json_config_iff [of doc c c1] merge_json_config_iff [of doc c "overlay doc c"]
      by (cases r) (auto simp: load_json_config_def load_from_stream_def Let_def)
  qed
qed

end
