(* ===== verification/App_Args.thy ===== *)
theory App_Args
  imports Config_Json
begin

text \<open>
  \<open>common/app.h\<close>: the command line and how it is combined with the JSON configuration. The option
  parser (cxxopts) and the logging library's \<open>from_str\<close> are parameters: a parse either throws or
  yields a result that says how often an option was given and what its value reads as.
\<close>

section \<open>Parsed options\<close>

record parsed_args =
  pa_count :: "string \<Rightarrow> nat"
  pa_u16 :: "string \<Rightarrow> u16 result"
  pa_u32 :: "string \<Rightarrow> u32 result"
  pa_bool :: "string \<Rightarrow> bool result"
  pa_string :: "string \<Rightarrow> string result"

text \<open>
  \<open>options.parse(argc, argv)\<close>: the result, and what it stored in the variable \<open>--config\<close> is bound to.
\<close>

record option_parser =
  op_parse :: "string list \<Rightarrow> parsed_args result"
  op_bound_config :: "string list \<Rightarrow> string option"
  op_help :: string

section \<open>Merging the options\<close>

definition arg_if :: "parsed_args \<Rightarrow> string \<Rightarrow> (string \<Rightarrow> 'a result) \<Rightarrow> ('a \<Rightarrow> Config \<Rightarrow> Config) \<Rightarrow> config_step" where
  "arg_if args key get upd cfg =
     (if pa_count args key = 0 then (Inr (), cfg)
      else case get key of Inl e \<Rightarrow> (Inl e, cfg) | Inr x \<Rightarrow> (Inr (), upd x cfg))"

definition set_log_output :: "string \<Rightarrow> Config \<Rightarrow> Config" where
  "set_log_output log_type =
     upd_logging (\<lambda>l.
       if log_type = ''con'' \<or> log_type = ''console'' then l\<lparr>log_output := Console\<rparr>
       else if log_type = ''file'' then l\<lparr>log_output := File\<rparr> else l)"

definition set_run_mode :: "string \<Rightarrow> Config \<Rightarrow> Config" where
  "set_run_mode running_mode =
     upd_server (\<lambda>s.
       if running_mode = ''single-request'' then s\<lparr>run_mode := SingleRequest\<rparr>
       else if running_mode = ''persist'' then s\<lparr>run_mode := Persistent\<rparr> else s)"

definition merge_parsed_arguments :: "(string \<Rightarrow> level_enum) \<Rightarrow> parsed_args \<Rightarrow> config_step" where
  "merge_parsed_arguments level_from_str args =
     in_order
      [arg_if args ''http-port'' (pa_u16 args) (\<lambda>x. upd_server (\<lambda>s. s\<lparr>http_port := x\<rparr>)),
       arg_if args ''https-port'' (pa_u16 args) (\<lambda>x. upd_server (\<lambda>s. s\<lparr>https_port := x\<rparr>)),
       arg_if args ''cert-path'' (pa_string args) (\<lambda>x. upd_tls (\<lambda>t. t\<lparr>certificate := x\<rparr>)),
       arg_if args ''private-key'' (pa_string args) (\<lambda>x. upd_tls (\<lambda>t. t\<lparr>private_key := x\<rparr>)),
       arg_if args ''ignore-cert-verification'' (pa_bool args)
         (\<lambda>x. upd_upstream (\<lambda>u. u\<lparr>ignore_certificate_verification := x\<rparr>)),
       arg_if args ''upstream-host'' (pa_string args) (\<lambda>x. upd_upstream (\<lambda>u. u\<lparr>up_host := x\<rparr>)),
       arg_if args ''upstream-port'' (pa_u16 args) (\<lambda>x. upd_upstream (\<lambda>u. u\<lparr>up_port := x\<rparr>)),
       arg_if args ''allow-https-over-http-port'' (pa_bool args)
         (\<lambda>x. upd_server (\<lambda>s. s\<lparr>allow_https_over_http_port := x\<rparr>)),
       arg_if args ''throttling-enabled'' (pa_bool args)
         (\<lambda>x. upd_throttling (\<lambda>t. t\<lparr>throttling_enabled := x\<rparr>)),
       arg_if args ''throttling-requests-per-second'' (pa_u32 args)
         (\<lambda>x. upd_throttling (\<lambda>t. t\<lparr>requests_per_second := x\<rparr>)),
       arg_if args ''throttling-burst-size'' (pa_u32 args) (\<lambda>x. upd_throttling (\<lambda>t. t\<lparr>burst_size := x\<rparr>)),
       arg_if args ''log-level'' (pa_string args) (\<lambda>x. upd_logging (\<lambda>l. l\<lparr>log_level := level_from_str x\<rparr>)),
       arg_if args ''log-output'' (pa_string args) set_log_output,
       arg_if args ''run-mode'' (pa_string args) set_run_mode]"

section \<open>Processing the command line\<close>

text \<open>
  The outcome of \<open>process_arguments\<close>: the pair it returns or the exception that escapes, the
  configuration, and what was written to standard output. \<open>show_usage\<close> is the text it prints.
\<close>

record processed =
  pr_result :: "(int \<times> bool) result"
  pr_config :: Config
  pr_stdout :: "string list"

definition same_ports_text :: string where
  "same_ports_text = ''http-port and https-port must be different'' @ [LF]"

definition parse_error_text :: "string \<Rightarrow> string" where
  "parse_error_text w = ''command line arguments parsing error: '' @ w @ [LF]"

text \<open>\<open>catch (const cxxopts::exceptions::exception&)\<close>; any other exception escapes.\<close>

fun catch_cxxopts :: "exn \<Rightarrow> Config \<Rightarrow> processed" where
  "catch_cxxopts (Cxxopts_error w) cfg =
     \<lparr>pr_result = Inr (1, False), pr_config = cfg, pr_stdout = [parse_error_text w]\<rparr>"
| "catch_cxxopts e cfg = \<lparr>pr_result = Inl e, pr_config = cfg, pr_stdout = []\<rparr>"

record libraries =
  lib_parser :: option_parser
  lib_level_from_str :: "string \<Rightarrow> level_enum"
  lib_json :: "string \<Rightarrow> json result"
  lib_files :: "string \<Rightarrow> string option"
  lib_usage :: "string \<Rightarrow> string"

text \<open>After the parse, when no help was asked for.\<close>

definition process_options :: "libraries \<Rightarrow> parsed_args \<Rightarrow> loader \<Rightarrow> config_step" where
  "process_options lib args cfg_loader =
     in_order
      [\<lambda>cfg. if pa_count args ''config'' = 0 then (Inr (), cfg)
             else load_json_config (lib_json lib) (lib_files lib) (assign_path (config_path cfg) cfg_loader) cfg,
       merge_parsed_arguments (lib_level_from_str lib) args]"

definition process_arguments :: "libraries \<Rightarrow> string list \<Rightarrow> loader \<Rightarrow> Config \<Rightarrow> processed" where
  "process_arguments lib argv cfg_loader cfg =
     (let cfg = (case op_bound_config (lib_parser lib) argv of None \<Rightarrow> cfg | Some p \<Rightarrow> cfg\<lparr>config_path := p\<rparr>)
      in case op_parse (lib_parser lib) argv of
           Inl e \<Rightarrow> catch_cxxopts e cfg
         | Inr args \<Rightarrow>
             (if pa_count args ''help'' \<noteq> 0
              then \<lparr>pr_result = Inr (0, True), pr_config = cfg,
                    pr_stdout = [lib_usage lib (op_help (lib_parser lib))]\<rparr>
              else case process_options lib args cfg_loader cfg of
                     (Inl e, cfg) \<Rightarrow> catch_cxxopts e cfg
                   | (Inr _, cfg) \<Rightarrow>
                       (if http_port (cfg_server cfg) = https_port (cfg_server cfg)
                        then \<lparr>pr_result = Inr (1, False), pr_config = cfg, pr_stdout = [same_ports_text]\<rparr>
                        else \<lparr>pr_result = Inr (0, False), pr_config = cfg, pr_stdout = []\<rparr>)))"

text \<open>The overload without a loader: \<open>LoadFromFile cfg_loader("")\<close>.\<close>

definition process_arguments_from_file :: "libraries \<Rightarrow> string list \<Rightarrow> Config \<Rightarrow> processed" where
  "process_arguments_from_file lib argv cfg = process_arguments lib argv (LoadFromFile []) cfg"

section \<open>What the merge does\<close>

text \<open>
  What cxxopts promises of the values of options that were given, by the type each is declared
  with: they have been converted when the command line was parsed.
\<close>

definition u16_options :: "string list" where
  "u16_options = [''http-port'', ''https-port'', ''upstream-port'']"
definition u32_options :: "string list" where
  "u32_options = [''throttling-requests-per-second'', ''throttling-burst-size'']"
definition bool_options :: "string list" where
  "bool_options = [''ignore-cert-verification'', ''allow-https-over-http-port'', ''throttling-enabled'']"
definition string_options :: "string list" where
  "string_options = [''log-output'', ''run-mode'', ''log-level'', ''cert-path'', ''private-key'',
     ''upstream-host'', ''config'']"

definition converted :: "parsed_args \<Rightarrow> bool" where
  "converted args \<longleftrightarrow>
     (\<forall>k \<in> set u16_options. pa_count args k \<noteq> 0 \<longrightarrow> (\<exists>x. pa_u16 args k = Inr x))
     \<and> (\<forall>k \<in> set u32_options. pa_count args k \<noteq> 0 \<longrightarrow> (\<exists>x. pa_u32 args k = Inr x))
     \<and> (\<forall>k \<in> set bool_options. pa_count args k \<noteq> 0 \<longrightarrow> (\<exists>x. pa_bool args k = Inr x))
     \<and> (\<forall>k \<in> set string_options. pa_count args k \<noteq> 0 \<longrightarrow> (\<exists>x. pa_string args k = Inr x))"

text \<open>The value of an option, and what a setting becomes by it.\<close>

definition arg_of :: "parsed_args \<Rightarrow> (string \<Rightarrow> 'a result) \<Rightarrow> string \<Rightarrow> 'a option" where
  "arg_of args get key =
     (if pa_count args key = 0 then None else case get key of Inl _ \<Rightarrow> None | Inr x \<Rightarrow> Some x)"

definition given :: "parsed_args \<Rightarrow> (string \<Rightarrow> 'a result) \<Rightarrow> string \<Rightarrow> 'a \<Rightarrow> 'a" where
  "given args get key old = (case arg_of args get key of None \<Rightarrow> old | Some x \<Rightarrow> x)"

fun log_output_of :: "string \<Rightarrow> LoggerType \<Rightarrow> LoggerType" where
  "log_output_of l old = (if l = ''con'' \<or> l = ''console'' then Console else if l = ''file'' then File else old)"

fun run_mode_of :: "string \<Rightarrow> ServerRunningMode \<Rightarrow> ServerRunningMode" where
  "run_mode_of m old =
     (if m = ''single-request'' then SingleRequest else if m = ''persist'' then Persistent else old)"

fun named :: "('a \<Rightarrow> 'b) \<Rightarrow> 'a option \<Rightarrow> 'b \<Rightarrow> 'b" where
  "named f None old = old"
| "named f (Some x) old = f x"

fun renamed :: "('a \<Rightarrow> 'b \<Rightarrow> 'b) \<Rightarrow> 'a option \<Rightarrow> 'b \<Rightarrow> 'b" where
  "renamed f None old = old"
| "renamed f (Some x) old = f x old"

definition overridden :: "(string \<Rightarrow> level_enum) \<Rightarrow> parsed_args \<Rightarrow> Config \<Rightarrow> Config" where
  "overridden level_from_str args cfg =
     (let sv = cfg_server cfg; tl = cfg_tls cfg; up = cfg_upstream cfg; lg = cfg_logging cfg;
          th = cfg_throttling cfg; str = arg_of args (pa_string args)
      in cfg
        \<lparr>cfg_server := sv
           \<lparr>http_port := given args (pa_u16 args) ''http-port'' (http_port sv),
            https_port := given args (pa_u16 args) ''https-port'' (https_port sv),
            run_mode := renamed run_mode_of (str ''run-mode'') (run_mode sv),
            allow_https_over_http_port :=
              given args (pa_bool args) ''allow-https-over-http-port'' (allow_https_over_http_port sv)\<rparr>,
         cfg_tls := tl
           \<lparr>certificate := given args (pa_string args) ''cert-path'' (certificate tl),
            private_key := given args (pa_string args) ''private-key'' (private_key tl)\<rparr>,
         cfg_upstream := up
           \<lparr>up_host := given args (pa_string args) ''upstream-host'' (up_host up),
            up_port := given args (pa_u16 args) ''upstream-port'' (up_port up),
            ignore_certificate_verification :=
              given args (pa_bool args) ''ignore-cert-verification'' (ignore_certificate_verification up)\<rparr>,
         cfg_logging := lg
           \<lparr>log_level := named level_from_str (str ''log-level'') (log_level lg),
            log_output := renamed log_output_of (str ''log-output'') (log_output lg)\<rparr>,
         cfg_throttling := th
           \<lparr>throttling_enabled := given args (pa_bool args) ''throttling-enabled'' (throttling_enabled th),
            requests_per_second :=
              given args (pa_u32 args) ''throttling-requests-per-second'' (requests_per_second th),
            burst_size := given args (pa_u32 args) ''throttling-burst-size'' (burst_size th)\<rparr>\<rparr>)"

lemma arg_if_converted:
  "pa_count args k \<noteq> 0 \<longrightarrow> (\<exists>x. get k = Inr x) \<Longrightarrow>
     arg_if args k get upd cfg = (Inr (), case arg_of args get k of None \<Rightarrow> cfg | Some x \<Rightarrow> upd x cfg)"
  by (auto simp: arg_if_def arg_of_def)

text \<open>An option that was given writes its field with its value, or the old one.\<close>

lemma arg_if_u16:
  assumes "pa_count args k \<noteq> 0 \<longrightarrow> (\<exists>x. get k = Inr x)"
  shows
  "arg_if args k get (\<lambda>v. upd_server (\<lambda>s. s\<lparr>http_port := v\<rparr>)) c =
     (Inr (), upd_server (\<lambda>s. s\<lparr>http_port := given args get k (http_port s)\<rparr>) c)"
  "arg_if args k get (\<lambda>v. upd_server (\<lambda>s. s\<lparr>https_port := v\<rparr>)) c =
     (Inr (), upd_server (\<lambda>s. s\<lparr>https_port := given args get k (https_port s)\<rparr>) c)"
  "arg_if args k get (\<lambda>v. upd_upstream (\<lambda>s. s\<lparr>up_port := v\<rparr>)) c =
     (Inr (), upd_upstream (\<lambda>s. s\<lparr>up_port := given args get k (up_port s)\<rparr>) c)"
  by (simp_all add: arg_if_converted [of args k get, OF assms] given_def split: option.splits)

lemma arg_if_u32:
  assumes "pa_count args k \<noteq> 0 \<longrightarrow> (\<exists>x. get k = Inr x)"
  shows
  "arg_if args k get (\<lambda>v. upd_throttling (\<lambda>s. s\<lparr>requests_per_second := v\<rparr>)) c =
     (Inr (), upd_throttling (\<lambda>s. s\<lparr>requests_per_second := given args get k (requests_per_second s)\<rparr>) c)"
  "arg_if args k get (\<lambda>v. upd_throttling (\<lambda>s. s\<lparr>burst_size := v\<rparr>)) c =
     (Inr (), upd_throttling (\<lambda>s. s\<lparr>burst_size := given args get k (burst_size s)\<rparr>) c)"
  by (simp_all add: arg_if_converted [of args k get, OF assms] given_def split: option.splits)

lemma arg_if_bool:
  assumes "pa_count args k \<noteq> 0 \<longrightarrow> (\<exists>x. get k = Inr x)"
  shows
  "arg_if args k get (\<lambda>v. upd_upstream (\<lambda>s. s\<lparr>ignore_certificate_verification := v\<rparr>)) c =
     (Inr (), upd_upstream (\<lambda>s. s\<lparr>ignore_certificate_verification := given args get k (ignore_certificate_verification s)\<rparr>) c)"
  "arg_if args k get (\<lambda>v. upd_server (\<lambda>s. s\<lparr>allow_https_over_http_port := v\<rparr>)) c =
     (Inr (), upd_server (\<lambda>s. s\<lparr>allow_https_over_http_port := given args get k (allow_https_over_http_port s)\<rparr>) c)"
  "arg_if args k get (\<lambda>v. upd_throttling (\<lambda>s. s\<lparr>throttling_enabled := v\<rparr>)) c =
     (Inr (), upd_throttling (\<lambda>s. s\<lparr>throttling_enabled := given args get k (throttling_enabled s)\<rparr>) c)"
  by (simp_all add: arg_if_converted [of args k get, OF assms] given_def split: option.splits)

lemma arg_if_string:
  assumes "pa_count args k \<noteq> 0 \<longrightarrow> (\<exists>x. get k = Inr x)"
  shows
  "arg_if args k get (\<lambda>v. upd_tls (\<lambda>s. s\<lparr>certificate := v\<rparr>)) c =
     (Inr (), upd_tls (\<lambda>s. s\<lparr>certificate := given args get k (certificate s)\<rparr>) c)"
  "arg_if args k get (\<lambda>v. upd_tls (\<lambda>s. s\<lparr>private_key := v\<rparr>)) c =
     (Inr (), upd_tls (\<lambda>s. s\<lparr>private_key := given args get k (private_key s)\<rparr>) c)"
  "arg_if args k get (\<lambda>v. upd_upstream (\<lambda>s. s\<lparr>up_host := v\<rparr>)) c =
     (Inr (), upd_upstream (\<lambda>s. s\<lparr>up_host := given args get k (up_host s)\<rparr>) c)"
  by (simp_all add: arg_if_converted [of args k get, OF assms] given_def split: option.splits)

lemma arg_if_named:
  assumes "pa_count args k \<noteq> 0 \<longrightarrow> (\<exists>x. get k = Inr x)"
  shows
  "arg_if args k get (\<lambda>v. upd_logging (\<lambda>s. s\<lparr>log_level := f v\<rparr>)) c =
     (Inr (), upd_logging (\<lambda>s. s\<lparr>log_level := named f (arg_of args get k) (log_level s)\<rparr>) c)"
  "arg_if args k get set_log_output c =
     (Inr (), upd_logging (\<lambda>s. s\<lparr>log_output := renamed log_output_of (arg_of args get k) (log_output s)\<rparr>) c)"
  "arg_if args k get set_run_mode c =
     (Inr (), upd_server (\<lambda>s. s\<lparr>run_mode := renamed run_mode_of (arg_of args get k) (run_mode s)\<rparr>) c)"
  by (simp_all add: arg_if_converted [of args k get, OF assms] set_log_output_def set_run_mode_def split: option.splits)

lemma merge_overrides:
  assumes "converted args"
  shows "merge_parsed_arguments level_from_str args cfg = (Inr (), overridden level_from_str args cfg)"
proof -
  have c: "k \<in> set u16_options \<Longrightarrow> pa_count args k \<noteq> 0 \<longrightarrow> (\<exists>x. pa_u16 args k = Inr x)"
    "k \<in> set u32_options \<Longrightarrow> pa_count args k \<noteq> 0 \<longrightarrow> (\<exists>x. pa_u32 args k = Inr x)"
    "k \<in> set bool_options \<Longrightarrow> pa_count args k \<noteq> 0 \<longrightarrow> (\<exists>x. pa_bool args k = Inr x)"
    "k \<in> set string_options \<Longrightarrow> pa_count args k \<noteq> 0 \<longrightarrow> (\<exists>x. pa_string args k = Inr x)" for k
    using assms by (auto simp: converted_def)
  show ?thesis
    by (cases cfg)
      (simp add: merge_parsed_arguments_def arg_if_u16 arg_if_u32 arg_if_bool arg_if_string arg_if_named c
        in_order.simps u16_options_def u32_options_def bool_options_def string_options_def overridden_def Let_def)
qed

section \<open>What the processing settles\<close>

text \<open>The configuration after the parse, which stores the path that \<open>--config\<close> is bound to.\<close>

abbreviation after_parse :: "libraries \<Rightarrow> string list \<Rightarrow> Config \<Rightarrow> Config" where
  "after_parse lib argv cfg \<equiv>
     (case op_bound_config (lib_parser lib) argv of None \<Rightarrow> cfg | Some p \<Rightarrow> cfg\<lparr>config_path := p\<rparr>)"

definition help_requested :: "libraries \<Rightarrow> string list \<Rightarrow> bool" where
  "help_requested lib argv \<longleftrightarrow>
     (case op_parse (lib_parser lib) argv of Inl _ \<Rightarrow> False | Inr args \<Rightarrow> pa_count args ''help'' \<noteq> 0)"

lemma after_parse_path: "\<exists>p. after_parse lib argv cfg = cfg\<lparr>config_path := p\<rparr>"
  by (cases "op_bound_config (lib_parser lib) argv") (auto intro: exI [of _ "config_path cfg"])

definition reported :: "processed \<Rightarrow> bool" where
  "reported r \<longleftrightarrow>
     (\<exists>w. pr_stdout r = [parse_error_text w])
     \<or> pr_stdout r = [same_ports_text]
        \<and> http_port (cfg_server (pr_config r)) = https_port (cfg_server (pr_config r))"

lemma catch_cxxopts_outcome:
  "pr_result (catch_cxxopts e c) = Inr (1, False) \<and> reported (catch_cxxopts e c)
   \<or> (\<exists>w. pr_result (catch_cxxopts e c) = Inl (Runtime_error w) \<and> pr_stdout (catch_cxxopts e c) = [])"
  by (cases e) (auto simp: reported_def)

lemma process_arguments_help:
  "help_requested lib argv \<Longrightarrow>
     process_arguments lib argv ld cfg =
       \<lparr>pr_result = Inr (0, True), pr_config = after_parse lib argv cfg,
        pr_stdout = [lib_usage lib (op_help (lib_parser lib))]\<rparr>"
  by (auto simp: help_requested_def process_arguments_def Let_def split: sum.splits)

lemma process_arguments_no_help:
  assumes "\<not> help_requested lib argv"
  shows "pr_result (process_arguments lib argv ld cfg) = Inr (0, False)
      \<and> pr_stdout (process_arguments lib argv ld cfg) = []
      \<and> http_port (cfg_server (pr_config (process_arguments lib argv ld cfg)))
          \<noteq> https_port (cfg_server (pr_config (process_arguments lib argv ld cfg)))
   \<or> pr_result (process_arguments lib argv ld cfg) = Inr (1, False)
      \<and> reported (process_arguments lib argv ld cfg)
   \<or> (\<exists>w. pr_result (process_arguments lib argv ld cfg) = Inl (Runtime_error w)
      \<and> pr_stdout (process_arguments lib argv ld cfg) = [])"
proof (cases "op_parse (lib_parser lib) argv")
  case (Inl e)
  then have "process_arguments lib argv ld cfg = catch_cxxopts e (after_parse lib argv cfg)"
    by (simp add: process_arguments_def Let_def)
  with catch_cxxopts_outcome [of e "after_parse lib argv cfg"] show ?thesis by simp
next
  case (Inr args)
  with assms have n: "pa_count args ''help'' = 0" by (simp add: help_requested_def)
  obtain r c where o: "process_options lib args ld (after_parse lib argv cfg) = (r, c)" by fastforce
  show ?thesis
  proof (cases r)
    case (Inl e)
    with Inr n o have "process_arguments lib argv ld cfg = catch_cxxopts e c"
      by (simp add: process_arguments_def Let_def)
    with catch_cxxopts_outcome [of e c] show ?thesis by simp
  next
    case (Inr u)
    with \<open>op_parse _ _ = Inr args\<close> n o show ?thesis
      by (simp add: process_arguments_def reported_def Let_def)
  qed
qed

lemma process_options_overrides:
  assumes "converted args"
    and "pa_count args ''config'' \<noteq> 0 \<longrightarrow> lib_files lib (config_path cfg) = Some str
          \<and> lib_json lib str = Inr doc \<and> document_accepted doc"
  shows "process_options lib args (LoadFromFile p) cfg =
    (Inr (), overridden (lib_level_from_str lib) args
       (if pa_count args ''config'' = 0 then cfg else overlay doc cfg))"
proof (cases "pa_count args ''config'' = 0")
  case True
  with assms(1) show ?thesis by (simp add: process_options_def in_order.simps merge_overrides)
next
  case False
  then have "load_json_config (lib_json lib) (lib_files lib) (LoadFromFile (config_path cfg)) cfg =
      (Inr (), overlay doc cfg)"
    using assms(2) merge_json_config_iff [of doc cfg "overlay doc cfg"]
    by (simp add: load_json_config_def load_from_stream_def obtain_stream_from_file_def)
  with False assms(1) show ?thesis by (simp add: process_options_def in_order.simps merge_overrides)
qed

text \<open>Options for the examples: a configuration file and one port.\<close>

definition example_args :: parsed_args where
  "example_args =
     \<lparr>pa_count = (\<lambda>k. if k = ''config'' \<or> k = ''http-port'' then 1 else 0), pa_u16 = (\<lambda>_. Inr 9000),
      pa_u32 = (\<lambda>_. Inr 0), pa_bool = (\<lambda>_. Inr True), pa_string = (\<lambda>_. Inr ''c.json'')\<rparr>"

definition example_document :: json where
  "example_document =
     JObject [(''server'', JObject [(''http_port'', JUnsigned 7000), (''https_port'', JUnsigned 7001)])]"

definition example_libraries :: libraries where
  "example_libraries =
     \<lparr>lib_parser = \<lparr>op_parse = (\<lambda>_. Inr example_args), op_bound_config = (\<lambda>_. Some ''c.json''), op_help = []\<rparr>,
      lib_level_from_str = (\<lambda>_. off), lib_json = (\<lambda>_. Inr example_document),
      lib_files = (\<lambda>_. Some []), lib_usage = (\<lambda>h. h)\<rparr>"

lemma example_converted: "converted example_args"
  by (auto simp: converted_def example_args_def)

lemma example_accepted: "document_accepted example_document"
  by code_simp

section \<open>Properties\<close>

text \<open>
  C28. The command line overrides exactly what it names: when the option parser has converted the
  values it was given, merging never throws, sets the field of every option that was given and
  keeps all others; an unknown name for the log output or the run mode leaves that field as it was.
\<close>

theorem arguments_override:
  assumes "converted args"
  shows "merge_parsed_arguments level_from_str args cfg = (Inr (), overridden level_from_str args cfg)"
  by (rule merge_overrides [OF assms])

theorem arguments_override_witness:
  "merge_parsed_arguments (\<lambda>_. off) example_args default_config =
     (Inr (), overridden (\<lambda>_. off) example_args default_config)"
  by (rule arguments_override [OF example_converted])

text \<open>
  C9. Precedence: the effective configuration is the defaults, overlaid with the JSON document that
  \<open>--config\<close> names, overridden by the command line, in this order whatever the order of the
  arguments; if the two ports then differ the program goes on, otherwise it says so and ends with 1.
\<close>

theorem configuration_precedence:
  assumes "op_parse (lib_parser lib) argv = Inr args" "converted args" "pa_count args ''help'' = 0"
    and "pa_count args ''config'' \<noteq> 0" "op_bound_config (lib_parser lib) argv = Some path"
    and "lib_files lib path = Some str" "lib_json lib str = Inr doc" "document_accepted doc"
  shows "let effective = overridden (lib_level_from_str lib) args (overlay doc (cfg\<lparr>config_path := path\<rparr>));
      outcome = process_arguments_from_file lib argv cfg
    in pr_config outcome = effective
      \<and> pr_result outcome =
          Inr (if http_port (cfg_server effective) = https_port (cfg_server effective) then 1 else 0, False)
      \<and> (pr_stdout outcome = [] \<longleftrightarrow> http_port (cfg_server effective) \<noteq> https_port (cfg_server effective))"
  using process_options_overrides [of args lib "cfg\<lparr>config_path := path\<rparr>" str doc "[]"] assms
  by (simp add: process_arguments_from_file_def process_arguments_def Let_def)

theorem configuration_precedence_witness:
  "let effective = overridden (\<lambda>_. off) example_args
        (overlay example_document (default_config\<lparr>config_path := ''c.json''\<rparr>));
      outcome = process_arguments_from_file example_libraries [] default_config
    in pr_config outcome = effective
      \<and> pr_result outcome =
          Inr (if http_port (cfg_server effective) = https_port (cfg_server effective) then 1 else 0, False)
      \<and> (pr_stdout outcome = [] \<longleftrightarrow> http_port (cfg_server effective) \<noteq> https_port (cfg_server effective))"
  using configuration_precedence [of example_libraries "[]" example_args "''c.json''" "[]" example_document
      default_config] example_converted example_accepted
  by (simp add: example_libraries_def example_args_def)

text \<open>
  C29. Processing the command line has four outcomes and no other. Exactly when the parse succeeded
  and help was asked for, the result is (0, usage requested), the usage text is what was printed and
  nothing but the path of the configuration file may have been stored. Otherwise the program is to
  go on, silently, with two different ports (0); or an error of the option parser, or the equality of
  the ports, was reported (1); or a \<open>std::runtime_error\<close> escapes and nothing was printed. An
  error of the option parser never escapes.
\<close>

theorem process_arguments_outcomes:
  "let r = process_arguments lib argv ld cfg
   in if help_requested lib argv
      then pr_result r = Inr (0, True) \<and> (\<exists>p. pr_config r = cfg\<lparr>config_path := p\<rparr>)
        \<and> pr_stdout r = [lib_usage lib (op_help (lib_parser lib))]
      else (pr_result r = Inr (0, False) \<and> pr_stdout r = []
              \<and> http_port (cfg_server (pr_config r)) \<noteq> https_port (cfg_server (pr_config r)))
        \<or> (pr_result r = Inr (1, False) \<and> reported r)
        \<or> (\<exists>w. pr_result r = Inl (Runtime_error w) \<and> pr_stdout r = [])"
proof (cases "help_requested lib argv")
  case True
  then show ?thesis
    using process_arguments_help [OF True, of ld cfg] after_parse_path [where lib = lib and argv = argv and cfg = cfg] by simp
next
  case False
  then show ?thesis
    unfolding Let_def if_not_P [OF False] by (rule process_arguments_no_help)
qed

end
