(* ===== verification/Startup_Table.thy ===== *)
theory Startup_Table
  imports Config_Data Cpp_Std
begin

text \<open>
  \<open>startup-table.cpp\<close>: the table of settings that is logged when the server starts. The logging
  library's names of the levels are a parameter.
\<close>

section \<open>Cells\<close>

definition bool_to_string :: "bool \<Rightarrow> string" where
  "bool_to_string b = (if b then ''true'' else ''false'')"

definition endpoint :: "string \<Rightarrow> u16 \<Rightarrow> string" where
  "endpoint host port = host @ '':'' @ to_dec (unat port)"

type_synonym row = "string \<times> string"

definition table_rows :: "(level_enum \<Rightarrow> string) \<Rightarrow> string \<Rightarrow> Config \<Rightarrow> row list" where
  "table_rows level_name version cfg =
     [(''Version'', version),
      (''HTTP listener'', endpoint ''localhost'' (http_port (cfg_server cfg))),
      (''HTTPS listener'', endpoint ''localhost'' (https_port (cfg_server cfg))),
      (''Upstream'', endpoint (up_host (cfg_upstream cfg)) (up_port (cfg_upstream cfg))),
      (''Run mode'', run_mode_to_string (run_mode (cfg_server cfg))),
      (''Log output'', logger_type_to_string (log_output (cfg_logging cfg))),
      (''Log level'', level_name (log_level (cfg_logging cfg))),
      (''TLS certificate'', certificate (cfg_tls cfg)),
      (''TLS private key'', private_key (cfg_tls cfg)),
      (''Ignore upstream cert'', bool_to_string (ignore_certificate_verification (cfg_upstream cfg))),
      (''Allow HTTPS over HTTP port'', bool_to_string (allow_https_over_http_port (cfg_server cfg))),
      (''Throttling enabled'', bool_to_string (throttling_enabled (cfg_throttling cfg)))]
     @ (if throttling_enabled (cfg_throttling cfg)
        then [(''Throttling requests/second'', to_dec (unat (requests_per_second (cfg_throttling cfg)))),
              (''Throttling burst size'', to_dec (unat (burst_size (cfg_throttling cfg))))]
        else [])"

section \<open>Layout\<close>

text \<open>The loop that widens both columns to the longest cell.\<close>

fun widths :: "row list \<Rightarrow> nat \<times> nat \<Rightarrow> nat \<times> nat" where
  "widths [] w = w"
| "widths ((key, v) # rows) (key_width, value_width) =
     widths rows (max key_width (length key), max value_width (length v))"

definition table_line :: "nat \<Rightarrow> nat \<Rightarrow> string" where
  "table_line key_width value_width =
     ''+'' @ replicate (key_width + 2) CHR ''-'' @ ''+'' @ replicate (value_width + 2) CHR ''-'' @ ''+''"

text \<open>\<open>size_t\<close> subtraction, which wraps below 0.\<close>

definition size_minus :: "nat \<Rightarrow> nat \<Rightarrow> nat" where
  "size_minus a b = (if b \<le> a then a - b else a + 2 ^ 64 - b)"

definition title_line :: "string \<Rightarrow> nat \<Rightarrow> nat \<Rightarrow> string" where
  "title_line title key_width value_width =
     (let inner_width = key_width + value_width + 5;
          left_title_padding = size_minus inner_width (length title) div 2;
          right_title_padding = size_minus (size_minus inner_width (length title)) left_title_padding
      in ''|'' @ replicate left_title_padding CHR '' '' @ title @ replicate right_title_padding CHR '' '' @ ''|'')"

fun row_line :: "nat \<Rightarrow> nat \<Rightarrow> row \<Rightarrow> string" where
  "row_line key_width value_width (key, v) =
     ''| '' @ setw_left (size_to_int key_width) key @ '' | ''
       @ setw_left (size_to_int value_width) v @ '' |''"

definition make_startup_table :: "(level_enum \<Rightarrow> string) \<Rightarrow> string \<Rightarrow> string \<Rightarrow> Config \<Rightarrow> string" where
  "make_startup_table level_name app_name version cfg =
     (let rows = table_rows level_name version cfg;
          (key_width, value_width) = widths rows (0, 0);
          title = '' '' @ app_name @ '' startup '';
          value_width = max value_width (length title + 2);
          line = table_line key_width value_width
      in line @ [LF] @ title_line title key_width value_width @ [LF] @ line @ [LF]
         @ concat (map (\<lambda>r. row_line key_width value_width r @ [LF]) rows)
         @ line)"

section \<open>The table is a rectangle\<close>

lemma widths_bound:
  "widths rows (k, v) = (k', v') \<Longrightarrow>
     k \<le> k' \<and> v \<le> v' \<and> (\<forall>(a, b) \<in> set rows. length a \<le> k' \<and> length b \<le> v')"
  by (induction rows "(k, v)" arbitrary: k v rule: widths.induct) fastforce+

lemma length_table_line: "length (table_line k v) = k + v + 7"
  by (simp add: table_line_def)

lemma length_title_line:
  "length t + 2 \<le> v \<Longrightarrow> length (title_line t k v) = k + v + 7"
  by (simp add: title_line_def size_minus_def Let_def)

lemma length_row_line:
  "length (fst r) \<le> k \<Longrightarrow> length (snd r) \<le> v \<Longrightarrow> k < 2 ^ 31 \<Longrightarrow> v < 2 ^ 31 \<Longrightarrow>
     length (row_line k v r) = k + v + 7"
  by (cases r) (simp add: setw_left_def size_to_int_small length_pad_right)

text \<open>What the cells and the program's name have to be: no line feeds, shorter than \<open>2 ^ 31\<close>.\<close>

definition cell_ok :: "string \<Rightarrow> bool" where
  "cell_ok s \<longleftrightarrow> LF \<notin> set s \<and> length s < 2 ^ 31 - 12"

definition printable :: "(level_enum \<Rightarrow> string) \<Rightarrow> string \<Rightarrow> string \<Rightarrow> Config \<Rightarrow> bool" where
  "printable level_name app_name version cfg \<longleftrightarrow>
     cell_ok app_name \<and> cell_ok version \<and> cell_ok (level_name (log_level (cfg_logging cfg)))
     \<and> cell_ok (endpoint (up_host (cfg_upstream cfg)) (up_port (cfg_upstream cfg)))
     \<and> cell_ok (certificate (cfg_tls cfg)) \<and> cell_ok (private_key (cfg_tls cfg))"

lemma length_to_dec: "n < 10 ^ k \<Longrightarrow> 0 < k \<Longrightarrow> length (to_dec n) \<le> k"
proof (induction k arbitrary: n)
  case (Suc k)
  show ?case
  proof (cases "n < 10")
    case True
    then show ?thesis by (simp add: to_dec.simps [of n])
  next
    case False
    with Suc.prems(1) have "n div 10 < 10 ^ k" by (simp add: less_mult_imp_div_less)
    moreover from this False have "0 < k" by (cases k) auto
    ultimately have "length (to_dec (n div 10)) \<le> k" by (rule Suc.IH)
    with False show ?thesis by (simp add: to_dec.simps [of n])
  qed
qed simp

lemma cell_ok_word: "cell_ok (to_dec (unat (w :: u32)))" and cell_ok_port: "length (to_dec (unat (v :: u16))) \<le> 5"
proof -
  have "unat w < 2 ^ 32" using unsigned_less [of w, where 'a = nat] by simp
  then have "length (to_dec (unat w)) \<le> 10" by (intro length_to_dec) simp_all
  then show "cell_ok (to_dec (unat w))" by (simp add: cell_ok_def not_digit_not_in_to_dec is_digit_char_def)
  have "unat v < 2 ^ 16" using unsigned_less [of v, where 'a = nat] by simp
  then show "length (to_dec (unat v)) \<le> 5" by (intro length_to_dec) simp_all
qed

lemma cell_ok_localhost: "cell_ok (endpoint ''localhost'' port)"
  using cell_ok_port [of port] by (simp add: cell_ok_def endpoint_def not_digit_not_in_to_dec is_digit_char_def)

lemma cell_ok_run_mode: "cell_ok (run_mode_to_string m)"
  by (cases m) (simp_all add: cell_ok_def)

lemma cell_ok_logger_type: "cell_ok (logger_type_to_string t)"
  by (cases t) (simp_all add: cell_ok_def)

lemma cell_ok_bool: "cell_ok (bool_to_string b)"
  by (simp add: cell_ok_def bool_to_string_def)

lemmas cell_ok_cells = cell_ok_localhost cell_ok_run_mode cell_ok_logger_type cell_ok_bool cell_ok_word

lemma rows_printable:
  assumes "printable level_name app_name version cfg"
  shows "\<forall>(k, v) \<in> set (table_rows level_name version cfg). cell_ok k \<and> cell_ok v"
proof -
  have lit: "cell_ok s" if "LF \<notin> set s" "length s < 100" for s using that by (simp add: cell_ok_def)
  show ?thesis
    using assms by (auto simp: table_rows_def printable_def cell_ok_cells lit split: if_splits)
qed

lemma widths_small:
  "k < m \<Longrightarrow> v < m \<Longrightarrow> \<forall>(a, b) \<in> set rows. length a < m \<and> length b < m \<Longrightarrow>
     fst (widths rows (k, v)) < m \<and> snd (widths rows (k, v)) < m"
  by (induction rows "(k, v)" arbitrary: k v rule: widths.induct) auto

lemma split_lines_rows:
  "\<forall>r \<in> set rows. LF \<notin> set (f r) \<Longrightarrow> LF \<notin> set line \<Longrightarrow>
     split_lines (concat (map (\<lambda>r. f r @ [LF]) rows) @ line) = map f rows @ [line]"
  by (induction rows) (simp_all add: split_lines_one split_lines_append)

lemma LF_free:
  "LF \<notin> set (table_line k v)"
  "LF \<notin> set t \<Longrightarrow> LF \<notin> set (title_line t k v)"
  "LF \<notin> set (fst r) \<Longrightarrow> LF \<notin> set (snd r) \<Longrightarrow> LF \<notin> set (row_line k v r)"
  by (simp_all add: table_line_def title_line_def Let_def)
    (cases r; simp add: setw_left_def pad_right_def)

text \<open>
  C39. The table is a rectangle: when the names, the path names, the host and the version have no
  line feed and are shorter than \<open>2 ^ 31\<close> (the column widths go through an \<open>int\<close>), all its lines are
  equally long, there are four more than there are settings, and after the title the settings
  follow in order, each key and each value whole in a column of its own.
\<close>

theorem startup_table_rectangular:
  assumes "printable level_name app_name version cfg"
  shows "\<exists>kw vw. let ls = split_lines (make_startup_table level_name app_name version cfg);
      rows = table_rows level_name version cfg
    in length ls = length rows + 4 \<and> list_all (\<lambda>l. length l = kw + vw + 7) ls
      \<and> drop 3 (butlast ls) = map (\<lambda>(k, v). ''| '' @ pad_right kw k @ '' | '' @ pad_right vw v @ '' |'') rows"
proof -
  let ?rows = "table_rows level_name version cfg"
  let ?title = "'' '' @ app_name @ '' startup ''"
  obtain k v where w: "widths ?rows (0, 0) = (k, v)" by fastforce
  define vw where "vw = max v (length ?title + 2)"
  have ok: "\<forall>(a, b) \<in> set ?rows. cell_ok a \<and> cell_ok b" by (rule rows_printable [OF assms])
  from ok have "\<forall>(a, b) \<in> set ?rows. length a < 2 ^ 31 \<and> length b < 2 ^ 31"
    by (fastforce simp: cell_ok_def)
  with widths_small [of 0 "2 ^ 31" 0 ?rows] w have small: "k < 2 ^ 31" "v < 2 ^ 31" by simp_all
  have app: "LF \<notin> set app_name" "length app_name < 2 ^ 31 - 12"
    using assms by (simp_all add: printable_def cell_ok_def)
  then have vw: "vw < 2 ^ 31" "v \<le> vw" "length ?title + 2 \<le> vw" using small by (simp_all add: vw_def)
  have row: "row_line k vw r = (case r of (a, b) \<Rightarrow> ''| '' @ pad_right k a @ '' | '' @ pad_right vw b @ '' |'')" for r
    using small vw by (cases r) (simp add: setw_left_def size_to_int_small)
  have len: "\<forall>r \<in> set ?rows. length (row_line k vw r) = k + vw + 7"
    using widths_bound [OF w] small vw by (fastforce intro: length_row_line)
  have lf: "\<forall>r \<in> set ?rows. LF \<notin> set (row_line k vw r)"
    using ok by (intro ballI LF_free(3)) (auto simp: cell_ok_def)
  have "make_startup_table level_name app_name version cfg =
      table_line k vw @ [LF] @ title_line ?title k vw @ [LF] @ table_line k vw @ [LF]
        @ concat (map (\<lambda>r. row_line k vw r @ [LF]) ?rows) @ table_line k vw"
    by (simp only: make_startup_table_def w Let_def prod.case vw_def)
  then have "split_lines (make_startup_table level_name app_name version cfg) =
      [table_line k vw, title_line ?title k vw, table_line k vw] @ map (row_line k vw) ?rows @ [table_line k vw]"
    using split_lines_rows [of ?rows "row_line k vw" "table_line k vw", OF lf] app
      LF_free(2) [of ?title k vw]
    by (simp add: split_lines_append LF_free)
  with len length_title_line [OF vw(3), of k] have
      "let ls = split_lines (make_startup_table level_name app_name version cfg)
       in length ls = length ?rows + 4 \<and> list_all (\<lambda>l. length l = k + vw + 7) ls
         \<and> drop 3 (butlast ls) = map (\<lambda>(a, b). ''| '' @ pad_right k a @ '' | '' @ pad_right vw b @ '' |'') ?rows"
    by (simp add: length_table_line list_all_iff butlast_append row Let_def)
  then show ?thesis unfolding Let_def by blast
qed

theorem startup_table_rectangular_witness:
  "\<exists>kw vw. let ls = split_lines (make_startup_table (\<lambda>_. ''info'') ''market-bridge'' ''1.0'' default_config);
      rows = table_rows (\<lambda>_. ''info'') ''1.0'' default_config
    in length ls = length rows + 4 \<and> list_all (\<lambda>l. length l = kw + vw + 7) ls
      \<and> drop 3 (butlast ls) = map (\<lambda>(k, v). ''| '' @ pad_right kw k @ '' | '' @ pad_right vw v @ '' |'') rows"
proof (rule startup_table_rectangular)
  have "cell_ok s" if "LF \<notin> set s" "length s < 100" for s using that by (simp add: cell_ok_def)
  moreover have "length (to_dec 443) \<le> 5" using cell_ok_port [of 443] by simp
  ultimately show "printable (\<lambda>_. ''info'') ''market-bridge'' ''1.0'' default_config"
    by (simp add: printable_def default_config_def endpoint_def not_digit_not_in_to_dec is_digit_char_def)
qed

end
