(* ===== verification/Http_Helper.thy ===== *)
theory Http_Helper
  imports Cpp_Std
begin

text \<open>
  \<open>utils/http-helper.h\<close>: the request and response structures, their text form, the request
  parser and the builder of the proxy's own responses.
\<close>

section \<open>Data\<close>

datatype HTTPResponseCodes =
    OK | Created | NoContent | BadRequest | Unauthorized | Forbidden | NotFound
  | RequestTimeout | TooManyRequests | BadGateway

fun code_value :: "HTTPResponseCodes \<Rightarrow> int" where
  "code_value OK = 200"
| "code_value Created = 201"
| "code_value NoContent = 204"
| "code_value BadRequest = 400"
| "code_value Unauthorized = 401"
| "code_value Forbidden = 403"
| "code_value NotFound = 404"
| "code_value RequestTimeout = 408"
| "code_value TooManyRequests = 429"
| "code_value BadGateway = 502"

datatype HTTPResponseConnection = Close | KeepAlive

datatype HTTPResponseContentType = TextPlain | ApplicationJson

definition http_request_headers_delimiter :: string where
  "http_request_headers_delimiter = crlf @ crlf"

definition is_http_status_ok :: "int \<Rightarrow> bool" where
  "is_http_status_ok status \<longleftrightarrow> code_value OK = status"

type_synonym headers = "(string \<times> string) list"

record UrlEntry =
  original :: string
  created_at :: u64
  hits :: u64

record HttpRequest =
  rq_method :: string
  rq_target :: string
  rq_version :: string
  rq_headers :: headers
  rq_body :: string

record HttpResponse =
  rs_status_code :: int
  rs_reason :: string
  rs_headers :: headers
  rs_body :: string

text \<open>The member initialisers: what \<open>HttpRequest req;\<close> and \<open>HttpResponse response;\<close> hold.\<close>

definition new_request :: HttpRequest where
  "new_request = \<lparr>rq_method = [], rq_target = [], rq_version = [], rq_headers = [], rq_body = []\<rparr>"

definition new_response :: HttpResponse where
  "new_response = \<lparr>rs_status_code = code_value OK, rs_reason = ''OK'', rs_headers = [], rs_body = []\<rparr>"

section \<open>Text form\<close>

definition header_line :: "string \<times> string \<Rightarrow> string" where
  "header_line kv = fst kv @ '': '' @ snd kv @ crlf"

definition header_lines :: "headers \<Rightarrow> string" where
  "header_lines hs = concat (map header_line hs)"

definition request_to_string :: "HttpRequest \<Rightarrow> string" where
  "request_to_string r =
     rq_method r @ '' '' @ rq_target r @ '' '' @ rq_version r @ crlf
     @ header_lines (rq_headers r) @ crlf @ rq_body r"

definition response_to_string :: "HttpResponse \<Rightarrow> string" where
  "response_to_string r =
     ''HTTP/1.1 '' @ to_dec_int (rs_status_code r) @ '' '' @ rs_reason r @ crlf
     @ header_lines (rs_headers r)
     @ (if map_find (rs_headers r) ''Content-Length'' = None
        then ''Content-Length: '' @ to_dec (length (rs_body r)) @ crlf else [])
     @ crlf @ rs_body r"

section \<open>The request parser\<close>

definition strip_cr :: "string \<Rightarrow> string" where
  "strip_cr line = (if line \<noteq> [] \<and> last line = CR then butlast line else line)"

definition is_blank :: "char \<Rightarrow> bool" where
  "is_blank c \<longleftrightarrow> c = CHR '' '' \<or> c = TAB"

definition add_header :: "string \<Rightarrow> headers \<Rightarrow> headers" where
  "add_header line hs =
     (case find_char CHR '':'' line of
        None \<Rightarrow> hs
      | Some pos \<Rightarrow> map_put (take pos line) (dropWhile is_blank (drop (pos + 1) line)) hs)"

function parse_headers :: "string \<Rightarrow> headers \<Rightarrow> headers \<times> string" where
  "parse_headers s hs =
     (case getline LF s of
        None \<Rightarrow> (hs, [])
      | Some (raw, rest) \<Rightarrow>
          (let line = strip_cr raw
           in if line = [] then (hs, rest) else parse_headers rest (add_header line hs)))"
  by pat_completeness auto
termination
  by (relation "measure (length \<circ> fst)") (auto dest: getline_shorter)

declare parse_headers.simps [simp del]

definition parse_request_line :: "string \<Rightarrow> HttpRequest \<Rightarrow> HttpRequest" where
  "parse_request_line line req =
     (let (m, r1) = extract_word line; (t, r2) = extract_word r1; (v, r3) = extract_word r2
      in req\<lparr>rq_method := m, rq_target := t, rq_version := v\<rparr>)"

definition parse_request :: "string \<Rightarrow> HttpRequest" where
  "parse_request raw =
     (case getline LF raw of
        None \<Rightarrow> new_request
      | Some (line, rest) \<Rightarrow>
          (let req = parse_request_line (strip_cr line) new_request;
               (hs, rest') = parse_headers rest (rq_headers req);
               body = (case getline NUL rest' of None \<Rightarrow> [] | Some (b, _) \<Rightarrow> b)
           in req\<lparr>rq_headers := hs, rq_body := body\<rparr>))"

section \<open>The proxy's own responses\<close>

definition generate_http_response ::
  "HTTPResponseCodes \<Rightarrow> string \<Rightarrow> string \<Rightarrow> HTTPResponseContentType \<Rightarrow> HTTPResponseConnection
     \<Rightarrow> HttpResponse" where
  "generate_http_response status_code reason body content_type connection =
     (let response = new_response\<lparr>rs_status_code := code_value status_code, rs_reason := reason\<rparr>;
          response =
            (if body \<noteq> [] then
               response\<lparr>rs_body := body,
                 rs_headers :=
                   map_put ''Content-Length'' (to_dec (length body))
                     (map_put ''Content-Type''
                        (if content_type = ApplicationJson then ''application/json'' else ''text/plain'')
                        (rs_headers response))\<rparr>
             else
               response\<lparr>rs_body := [],
                 rs_headers := map_put ''Content-Length'' ''0'' (rs_headers response)\<rparr>)
      in if connection = Close
         then response\<lparr>rs_headers := map_put ''Connection'' ''close'' (rs_headers response)\<rparr>
         else response)"

section \<open>Well-formed requests\<close>

text \<open>
  What the parser produces and the printer can represent: white-space free tokens, filled from
  the left; header names without colon, no line feed in a header, no blank before a value; a body
  without NUL, since the parser reads the body with \<open>getline(..., '\0')\<close>.
\<close>

definition wf_header :: "string \<times> string \<Rightarrow> bool" where
  "wf_header kv \<longleftrightarrow>
     CHR '':'' \<notin> set (fst kv) \<and> LF \<notin> set (fst kv) \<and> LF \<notin> set (snd kv)
     \<and> (snd kv = [] \<or> \<not> is_blank (hd (snd kv)))"

definition wf_headers :: "headers \<Rightarrow> bool" where
  "wf_headers hs \<longleftrightarrow> map_inv hs \<and> list_all wf_header hs"

definition wf_tokens :: "HttpRequest \<Rightarrow> bool" where
  "wf_tokens r \<longleftrightarrow>
     no_space (rq_method r) \<and> no_space (rq_target r) \<and> no_space (rq_version r)
     \<and> (rq_method r = [] \<longrightarrow> rq_target r = []) \<and> (rq_target r = [] \<longrightarrow> rq_version r = [])"

definition wf_request :: "HttpRequest \<Rightarrow> bool" where
  "wf_request r \<longleftrightarrow> wf_tokens r \<and> wf_headers (rq_headers r) \<and> NUL \<notin> set (rq_body r)"

lemma wf_headers_Nil [simp]: "wf_headers []"
  by (simp add: wf_headers_def)

lemma wf_headers_put [wf_intro]: "wf_headers hs \<Longrightarrow> wf_header (k, v) \<Longrightarrow> wf_headers (map_put k v hs)"
  using set_map_put_subset [of k v hs] by (auto simp: wf_headers_def list_all_iff map_inv_put)

lemma no_space_LF [simp]: "no_space w \<Longrightarrow> LF \<notin> set w"
  by (auto simp: no_space_def list_all_iff is_space_def)

subsection \<open>The parser keeps it\<close>

lemma strip_cr_snoc [simp]: "strip_cr (l @ [CR]) = l"
  by (simp add: strip_cr_def)

lemma set_strip_cr: "set (strip_cr l) \<subseteq> set l"
  by (auto simp: strip_cr_def dest: in_set_butlastD)

lemma wf_headers_add_header [wf_intro]:
  assumes "wf_headers hs" "LF \<notin> set line"
  shows "wf_headers (add_header line hs)"
proof (cases "find_char CHR '':'' line")
  case None
  with assms show ?thesis by (simp add: add_header_def)
next
  case (Some pos)
  note f = find_char_SomeD [OF Some]
  let ?v = "dropWhile is_blank (drop (pos + 1) line)"
  have "wf_header (take pos line, ?v)"
    using f assms(2) hd_dropWhile_not [of is_blank "drop (pos + 1) line"]
    by (auto simp: wf_header_def dest: in_set_takeD in_set_dropD set_dropWhileD)
  with assms(1) Some show ?thesis by (simp add: add_header_def wf_headers_put)
qed

lemma wf_headers_parse_headers:
  "wf_headers hs \<Longrightarrow> wf_headers (fst (parse_headers s hs))"
proof (induction s hs rule: parse_headers.induct)
  case (1 s hs)
  show ?case
  proof (cases "getline LF s")
    case None
    with 1 show ?thesis by (simp add: parse_headers.simps [of s])
  next
    case (Some lr)
    obtain raw rest where lr: "lr = (raw, rest)" by (cases lr)
    with Some have g: "getline LF s = Some (raw, rest)" by simp
    then have "LF \<notin> set (strip_cr raw)" using getline_line [OF g] set_strip_cr by blast
    with "1.prems" "1.IH" [OF g refl refl] g show ?thesis
      by (auto simp: parse_headers.simps [of s] Let_def intro: wf_headers_add_header)
  qed
qed

lemma wf_tokens_parse_request_line:
  "wf_tokens (parse_request_line line req)"
  by (auto simp: parse_request_line_def wf_tokens_def Let_def split: prod.splits
      dest: no_space_extract_word extract_word_empty)

lemma parse_request_line_headers [simp]:
  "rq_headers (parse_request_line line req) = rq_headers req"
  "rq_body (parse_request_line line req) = rq_body req"
  by (simp_all add: parse_request_line_def Let_def split: prod.splits)

lemma wf_parse_request: "wf_request (parse_request raw)"
proof (cases "getline LF raw")
  case None
  then show ?thesis
    by (simp add: parse_request_def wf_request_def wf_tokens_def new_request_def no_space_def)
next
  case (Some lr)
  obtain line rest where lr: "lr = (line, rest)" by (cases lr)
  let ?req = "parse_request_line (strip_cr line) new_request"
  have "wf_tokens (?req\<lparr>rq_headers := h, rq_body := b\<rparr>)" for h b
    using wf_tokens_parse_request_line [of "strip_cr line" new_request] by (simp add: wf_tokens_def)
  moreover have "wf_headers (fst (parse_headers rest []))"
    by (simp add: wf_headers_parse_headers)
  ultimately show ?thesis
    using Some lr
    by (auto simp: parse_request_def wf_request_def Let_def new_request_def
        split: prod.splits option.splits dest: getline_line dest!: getline_line [OF sym])
qed

subsection \<open>The parser inverts the printer\<close>

lemma add_header_line: "wf_header (k, v) \<Longrightarrow> add_header (k @ '': '' @ v) hs = map_put k v hs"
  by (auto simp: add_header_def wf_header_def is_blank_def dropWhile_hd_id)

lemma parse_headers_line:
  assumes "wf_header (k, v)"
  shows "parse_headers (header_line (k, v) @ s) hs = parse_headers s (map_put k v hs)"
proof -
  have e: "header_line (k, v) @ s = (k @ '': '' @ v @ [CR]) @ LF # s"
    by (simp add: header_line_def)
  have "getline LF (header_line (k, v) @ s) = Some (k @ '': '' @ v @ [CR], s)"
    unfolding e using assms by (intro getline_append) (simp add: wf_header_def)
  moreover have "strip_cr (k @ '': '' @ v @ [CR]) = k @ '': '' @ v"
    using strip_cr_snoc [of "k @ '': '' @ v"] by simp
  ultimately show ?thesis
    using assms by (simp add: parse_headers.simps [of "header_line (k, v) @ s"] add_header_line
        del: append.simps)
qed

lemma parse_headers_end: "parse_headers (crlf @ body) hs = (hs, body)"
  using getline_append [of LF "[CR]" body]
  by (simp add: parse_headers.simps [of "CR # LF # body"] strip_cr_def)

lemma parse_headers_lines:
  "list_all wf_header kvs \<Longrightarrow>
     parse_headers (header_lines kvs @ crlf @ body) hs = (fold (\<lambda>(k, v). map_put k v) kvs hs, body)"
proof (induction kvs arbitrary: hs)
  case Nil
  then show ?case using parse_headers_end [of body] by (simp add: header_lines_def)
next
  case (Cons kv kvs)
  then show ?case
    by (cases kv) (simp add: header_lines_def parse_headers_line)
qed

lemma parse_headers_print:
  "wf_headers hs \<Longrightarrow> parse_headers (header_lines hs @ crlf @ body) [] = (hs, body)"
  by (simp add: wf_headers_def parse_headers_lines fold_put_items del: append_Cons)

lemma parse_request_line_print:
  assumes "wf_tokens r"
  shows "parse_request_line (rq_method r @ '' '' @ rq_target r @ '' '' @ rq_version r) req =
    req\<lparr>rq_method := rq_method r, rq_target := rq_target r, rq_version := rq_version r\<rparr>"
proof -
  have sp: "is_space CHR '' ''" by (simp add: is_space_def)
  note w = extract_word_cons_space [OF _ _ sp]
  show ?thesis
  proof (cases "rq_method r = []")
    case True
    with assms sp show ?thesis by (simp add: wf_tokens_def parse_request_line_def)
  next
    case False
    with assms sp show ?thesis
      by (cases "rq_target r = []")
         (auto simp: wf_tokens_def parse_request_line_def w extract_word_end)
  qed
qed

lemma parse_request_print:
  assumes "wf_request r"
  shows "parse_request (request_to_string r) = r"
proof -
  let ?l = "rq_method r @ '' '' @ rq_target r @ '' '' @ rq_version r"
  let ?tail = "header_lines (rq_headers r) @ crlf @ rq_body r"
  have t: "wf_tokens r" and h: "wf_headers (rq_headers r)" and b: "NUL \<notin> set (rq_body r)"
    using assms by (simp_all add: wf_request_def)
  have e: "request_to_string r = (?l @ [CR]) @ LF # ?tail"
    by (simp add: request_to_string_def)
  have g: "getline LF (request_to_string r) = Some (?l @ [CR], ?tail)"
    unfolding e using t by (intro getline_append) (auto simp: wf_tokens_def)
  have "(case getline NUL (rq_body r) of None \<Rightarrow> [] | Some (x, _) \<Rightarrow> x) = rq_body r"
    using b by (cases "rq_body r = []") (simp_all add: getline_whole getline_def)
  then show ?thesis
    using g parse_headers_print [OF h, of "rq_body r"] parse_request_line_print [OF t, of new_request]
      strip_cr_snoc [of ?l]
    by (simp add: parse_request_def Let_def new_request_def del: strip_cr_snoc)
qed

section \<open>Responses on the wire\<close>

text \<open>
  How a client splits a response: the status line, then the header lines, then the body. The
  header lines have the same syntax as those of a request.
\<close>

definition split_response :: "string \<Rightarrow> (string \<times> headers \<times> string) option" where
  "split_response s =
     (case getline LF s of None \<Rightarrow> None
      | Some (status_line, rest) \<Rightarrow> Some (strip_cr status_line, parse_headers rest []))"

definition status_line :: "int \<Rightarrow> string \<Rightarrow> string" where
  "status_line c reason = ''HTTP/1.1 '' @ to_dec_int c @ '' '' @ reason"

definition wire_headers :: "HttpResponse \<Rightarrow> headers" where
  "wire_headers r =
     (if map_find (rs_headers r) ''Content-Length'' = None
      then map_put ''Content-Length'' (to_dec (length (rs_body r))) (rs_headers r)
      else rs_headers r)"

lemma LF_not_in_to_dec [simp]: "LF \<notin> set (to_dec n)" "LF \<notin> set (to_dec_int i)"
  by (auto simp: to_dec_int_def not_digit_not_in_to_dec is_digit_char_def)

lemma wf_header_dec [simp]: "CHR '':'' \<notin> set k \<Longrightarrow> LF \<notin> set k \<Longrightarrow> wf_header (k, to_dec n)"
proof -
  have "is_digit_char (hd (to_dec n))" by (rule to_dec_digits [of _ n]) simp
  then show "CHR '':'' \<notin> set k \<Longrightarrow> LF \<notin> set k \<Longrightarrow> wf_header (k, to_dec n)"
    by (auto simp: wf_header_def is_blank_def is_digit_char_def)
qed

lemma split_response_to_string:
  assumes "wf_headers (rs_headers r)" "LF \<notin> set (rs_reason r)"
  shows "split_response (response_to_string r) =
    Some (status_line (rs_status_code r) (rs_reason r), wire_headers r, rs_body r)"
proof -
  let ?st = "status_line (rs_status_code r) (rs_reason r)"
  let ?cl = "(''Content-Length'', to_dec (length (rs_body r)))"
  let ?hs = "rs_headers r @ (if map_find (rs_headers r) ''Content-Length'' = None then [?cl] else [])"
  have e: "response_to_string r = (?st @ [CR]) @ LF # header_lines ?hs @ crlf @ rs_body r"
    by (simp add: response_to_string_def status_line_def header_lines_def header_line_def)
  have "getline LF (response_to_string r) = Some (?st @ [CR], header_lines ?hs @ crlf @ rs_body r)"
    unfolding e using assms(2) by (intro getline_append) (simp add: status_line_def)
  moreover have "list_all wf_header ?hs"
    using assms(1) by (simp add: wf_headers_def)
  then have "parse_headers (header_lines ?hs @ crlf @ rs_body r) [] = (wire_headers r, rs_body r)"
    using assms(1)
    by (simp add: parse_headers_lines fold_put_items wf_headers_def wire_headers_def del: append_Cons)
  ultimately show ?thesis by (simp add: split_response_def)
qed

lemma wf_generated: "wf_headers (rs_headers (generate_http_response c reason body ct conn))"
  by (cases ct; cases conn; cases "body = []")
     (simp_all add: generate_http_response_def new_response_def Let_def wf_headers_def map_inv_Cons,
      simp_all add: wf_header_def is_blank_def)

section \<open>Properties\<close>

text \<open>
  C19. Printing and parsing are inverse on what the parser can produce: a request whose tokens are
  free of white space, whose headers are well-formed and whose body has no NUL is read back from
  its printed form unchanged.
\<close>

theorem request_roundtrip:
  assumes "wf_request r"
  shows "parse_request (request_to_string r) = r"
  using assms by (rule parse_request_print)

theorem request_roundtrip_witness:
  "parse_request (request_to_string
     \<lparr>rq_method = ''POST'', rq_target = ''/q?x=1'', rq_version = ''HTTP/1.1'',
      rq_headers = [(''A'', ''1: 2''), (''Host'', [])], rq_body = ''{ }'' @ crlf\<rparr>) =
   \<lparr>rq_method = ''POST'', rq_target = ''/q?x=1'', rq_version = ''HTTP/1.1'',
      rq_headers = [(''A'', ''1: 2''), (''Host'', [])], rq_body = ''{ }'' @ crlf\<rparr>"
  by (rule request_roundtrip) code_simp

text \<open>
  C7. The parser is total and normalises: from any bytes whatever it produces a well-formed
  request, and printing that request and parsing it again changes nothing.
\<close>

theorem parse_request_normalises:
  "wf_request (parse_request raw)
   \<and> parse_request (request_to_string (parse_request raw)) = parse_request raw"
  using wf_parse_request parse_request_print by blast

text \<open>
  C32. A generated response is framed correctly: a client that splits it at the first line and the
  first empty line finds the status line with the code's number, a \<open>Content-Length\<close> that is exactly
  the length of what follows, \<open>Connection: close\<close> exactly when asked for, and the body unchanged.
\<close>

theorem generated_response_framed:
  assumes "LF \<notin> set reason"
  shows "\<exists>hs. split_response (response_to_string (generate_http_response c reason body ct conn)) =
      Some (status_line (code_value c) reason, hs, body)
    \<and> map_find hs ''Content-Length'' = Some (to_dec (length body))
    \<and> dec_value (to_dec (length body)) = length body
    \<and> (map_find hs ''Connection'' = Some ''close'' \<longleftrightarrow> conn = Close)"
proof -
  have "to_dec 0 = ''0''" by code_simp
  then show ?thesis
    using split_response_to_string [OF wf_generated, of c reason body ct conn] assms
    by (cases conn) (simp_all add: generate_http_response_def new_response_def wire_headers_def Let_def)
qed

theorem generated_response_framed_witness:
  "\<exists>hs. split_response (response_to_string
        (generate_http_response RequestTimeout ''Request Timeout'' ''a'' ApplicationJson Close)) =
      Some (status_line (code_value RequestTimeout) ''Request Timeout'', hs, ''a'')
    \<and> map_find hs ''Content-Length'' = Some (to_dec (length ''a''))
    \<and> dec_value (to_dec (length ''a'')) = length ''a''
    \<and> (map_find hs ''Connection'' = Some ''close'' \<longleftrightarrow> Close = Close)"
  by (rule generated_response_framed) simp

end
