(* ===== verification/Double.thy ===== *)
theory Double
  imports MB_Prelude "HOL-Library.Log_Nat"
begin

text \<open>
  IEEE 754 double precision as the token bucket uses it. A finite double is a rational number
  \<open>m * 2 ^ e\<close> with \<open>\<bar>m\<bar> < 2 ^ 53\<close>; an operation computes the exact result and rounds it to the
  nearest double, ties to the even significand. The exponent range is left unbounded: the bucket's
  operands are 0 or lie between \<open>2 powi -60\<close> and \<open>2 ^ 70\<close>, far from overflow and underflow.
\<close>

section \<open>Rounding to an integer, ties to even\<close>

definition round_even :: "rat \<Rightarrow> int" where
  "round_even y =
     (let f = \<lfloor>y\<rfloor>; d = y - of_int f
      in if d < 1 / 2 then f else if 1 / 2 < d then f + 1 else if even f then f else f + 1)"

lemma round_even_of_int [simp]: "round_even (of_int i) = i"
  by (simp add: round_even_def)

lemma round_even_floor: "\<lfloor>y\<rfloor> \<le> round_even y" "round_even y \<le> \<lfloor>y\<rfloor> + 1"
  by (simp_all add: round_even_def Let_def)

lemma round_even_error: "\<bar>of_int (round_even y) - y\<bar> \<le> 1 / 2"
  by (auto simp: round_even_def Let_def abs_if) linarith+

lemma round_even_mono:
  assumes "x \<le> y"
  shows "round_even x \<le> round_even y"
proof (cases "\<lfloor>x\<rfloor> = \<lfloor>y\<rfloor>")
  case True
  with assms show ?thesis by (auto simp: round_even_def Let_def)
next
  case False
  with floor_mono [OF assms] have "\<lfloor>x\<rfloor> + 1 \<le> \<lfloor>y\<rfloor>" by linarith
  then show ?thesis using round_even_floor [of x] round_even_floor [of y] by linarith
qed

section \<open>The binary exponent\<close>

text \<open>The exponent \<open>e\<close> with \<open>2 powi e \<le> x < 2 powi (e + 1)\<close>, for \<open>0 < x\<close>.\<close>

definition ilog2 :: "rat \<Rightarrow> int" where
  "ilog2 x =
     (let (a, b) = quotient_of x; k = int (floorlog 2 (nat a)) - int (floorlog 2 (nat b))
      in if 2 powi k \<le> x then k else k - 1)"

lemma ilog2_bounds:
  assumes "0 < x"
  shows "2 powi (ilog2 x) \<le> x" "x < 2 powi (ilog2 x + 1)"
proof -
  obtain a b where q: "quotient_of x = (a, b)" by fastforce
  have b: "0 < b" and x: "x = of_int a / of_int b"
    using q quotient_of_denom_pos quotient_of_div by auto
  with assms have a: "0 < a" by (simp add: zero_less_divide_iff)
  let ?la = "floorlog 2 (nat a)" and ?lb = "floorlog 2 (nat b)"
  have fa: "2 ^ (?la - 1) \<le> nat a" "nat a < 2 ^ ?la" and fb: "2 ^ (?lb - 1) \<le> nat b" "nat b < 2 ^ ?lb"
    using floorlog_bounds [of "nat a" 2] floorlog_bounds [of "nat b" 2] a b by auto
  have p: "0 < ?la" "0 < ?lb" using a b by (simp_all add: floorlog_def)
  have ra: "(2::rat) powi (int ?la - 1) \<le> of_int a" "of_int a < (2::rat) powi int ?la"
    and rb: "(2::rat) powi (int ?lb - 1) \<le> of_int b" "of_int b < (2::rat) powi int ?lb"
  proof -
    have c: "(of_nat (nat a) :: rat) = of_int a" "(of_nat (nat b) :: rat) = of_int b"
      using a b by simp_all
    have e: "(2::rat) powi (int n - 1) = of_nat (2 ^ (n - 1))" if "0 < n" for n
      using that by (simp add: power_int_def nat_diff_distrib)
    have e': "(2::rat) powi (int n) = of_nat (2 ^ n)" for n
      by (simp add: power_int_def)
    show "(2::rat) powi (int ?la - 1) \<le> of_int a" "(2::rat) powi (int ?lb - 1) \<le> of_int b"
      unfolding e [OF p(1)] e [OF p(2)] c [symmetric] using fa(1) fb(1) by (simp_all only: of_nat_le_iff)
    show "of_int a < (2::rat) powi int ?la" "of_int b < (2::rat) powi int ?lb"
      unfolding e' c [symmetric] using fa(2) fb(2) by (simp_all only: of_nat_less_iff)
  qed
  let ?k = "int ?la - int ?lb"
  have bp: "(0::rat) < of_int b" using b by simp
  have "(2::rat) powi (?k - 1) * of_int b \<le> 2 powi (?k - 1) * 2 powi int ?lb"
    using rb(2) by (intro mult_left_mono) auto
  also have "\<dots> = 2 powi (int ?la - 1)"
    using power_int_add [of "2::rat" "?k - 1" "int ?lb"] by simp
  also have "\<dots> \<le> of_int a" by (rule ra)
  finally have lo: "2 powi (?k - 1) \<le> x" using bp by (simp add: x field_simps)
  have "of_int a < (2::rat) powi int ?la" by (rule ra)
  also have "\<dots> = 2 powi (?k + 1) * 2 powi (int ?lb - 1)" by (simp flip: power_int_add)
  also have "\<dots> \<le> 2 powi (?k + 1) * of_int b" using rb(1) by (intro mult_left_mono) auto
  finally have hi: "x < 2 powi (?k + 1)" using bp by (simp add: x field_simps)
  have i: "ilog2 x = (if 2 powi ?k \<le> x then ?k else ?k - 1)"
    by (simp add: ilog2_def q)
  show "2 powi (ilog2 x) \<le> x" "x < 2 powi (ilog2 x + 1)"
    using lo hi by (auto simp: i)
qed

lemma powi2_less_iff: "(2::rat) powi i < 2 powi j \<longleftrightarrow> i < j"
  using power_int_strict_increasing [of i j "2::rat"] power_int_increasing [of j i "2::rat"]
  by (meson linorder_not_le one_less_numeral_iff order_le_less rel_simps(9) semiring_norm(76) leD)

lemma powi2_le_iff: "(2::rat) powi i \<le> 2 powi j \<longleftrightarrow> i \<le> j"
  using powi2_less_iff [of j i] by (simp add: not_less flip: linorder_not_less)

lemma ilog2_unique:
  assumes "2 powi e \<le> x" "x < 2 powi (e + 1)"
  shows "ilog2 x = e"
proof -
  have "0 < x" using assms(1) by (rule less_le_trans [rotated]) simp
  note b = ilog2_bounds [OF this]
  have "(2::rat) powi e < 2 powi (ilog2 x + 1)" "(2::rat) powi (ilog2 x) < 2 powi (e + 1)"
    using assms b by linarith+
  then show ?thesis by (simp add: powi2_less_iff)
qed

lemma ilog2_mono: "0 < x \<Longrightarrow> x \<le> y \<Longrightarrow> ilog2 x \<le> ilog2 y"
proof -
  assume "0 < x" "x \<le> y"
  then have "(2::rat) powi (ilog2 x) < 2 powi (ilog2 y + 1)"
    using ilog2_bounds [of x] ilog2_bounds [of y] by linarith
  then show ?thesis by (simp add: powi2_less_iff)
qed

section \<open>Rounding to a double\<close>

definition rnd64_pos :: "rat \<Rightarrow> rat" where
  "rnd64_pos x = (let e = ilog2 x - 52 in of_int (round_even (x / 2 powi e)) * 2 powi e)"

definition rnd64 :: "rat \<Rightarrow> rat" where
  "rnd64 x = (if x = 0 then 0 else if 0 < x then rnd64_pos x else - rnd64_pos (- x))"

definition is_double :: "rat \<Rightarrow> bool" where
  "is_double x \<longleftrightarrow> (\<exists>m e. x = of_int m * 2 powi e \<and> \<bar>m\<bar> < 2 ^ 53)"

text \<open>Unit roundoff.\<close>

definition ulp_half :: rat where
  "ulp_half = 1 / 2 ^ 53"

lemma rnd64_pos_scale:
  assumes "0 < x"
  shows "2 ^ 52 \<le> x / 2 powi (ilog2 x - 52)" "x / 2 powi (ilog2 x - 52) < 2 ^ 53"
proof -
  have p: "(0::rat) < 2 powi (ilog2 x - 52)" by simp
  have "(2::rat) ^ 52 * 2 powi (ilog2 x - 52) = 2 powi (ilog2 x)"
    using power_int_add [of "2::rat" 52 "ilog2 x - 52"] by simp
  with ilog2_bounds(1) [OF assms] p show "2 ^ 52 \<le> x / 2 powi (ilog2 x - 52)"
    by (simp add: le_divide_eq)
  have "(2::rat) ^ 53 * 2 powi (ilog2 x - 52) = 2 powi (ilog2 x + 1)"
    using power_int_add [of "2::rat" 53 "ilog2 x - 52"] by (simp add: add.commute)
  with ilog2_bounds(2) [OF assms] p show "x / 2 powi (ilog2 x - 52) < 2 ^ 53"
    by (simp add: divide_less_eq)
qed

lemma rnd64_pos_bounds:
  assumes "0 < x"
  shows "2 powi (ilog2 x) \<le> rnd64_pos x" "rnd64_pos x \<le> 2 powi (ilog2 x + 1)"
proof -
  let ?e = "ilog2 x - 52" and ?y = "x / 2 powi (ilog2 x - 52)"
  have l: "(2::int) ^ 52 \<le> round_even ?y"
    using round_even_mono [OF rnd64_pos_scale(1) [OF assms]] round_even_of_int [of "2 ^ 52"] by simp
  have u: "round_even ?y \<le> 2 ^ 53"
    using round_even_mono [OF less_imp_le [OF rnd64_pos_scale(2) [OF assms]]]
      round_even_of_int [of "2 ^ 53"] by simp
  have "(2::rat) powi (ilog2 x) = 2 ^ 52 * 2 powi ?e"
    using power_int_add [of "2::rat" 52 ?e] by simp
  also have "\<dots> \<le> of_int (round_even ?y) * 2 powi ?e"
    using of_int_le_iff [where 'a = rat, THEN iffD2, OF l] by (intro mult_right_mono) simp_all
  finally show "2 powi (ilog2 x) \<le> rnd64_pos x" by (simp add: rnd64_pos_def Let_def)
  have "of_int (round_even ?y) * 2 powi ?e \<le> (2::rat) ^ 53 * 2 powi ?e"
    using of_int_le_iff [where 'a = rat, THEN iffD2, OF u] by (intro mult_right_mono) simp_all
  also have "\<dots> = 2 powi (ilog2 x + 1)"
    using power_int_add [of "2::rat" 53 ?e] by (simp add: add.commute)
  finally show "rnd64_pos x \<le> 2 powi (ilog2 x + 1)" by (simp add: rnd64_pos_def Let_def)
qed

lemma rnd64_pos_mono:
  assumes "0 < x" "x \<le> y"
  shows "rnd64_pos x \<le> rnd64_pos y"
proof (cases "ilog2 x = ilog2 y")
  case True
  have "x / 2 powi (ilog2 y - 52) \<le> y / 2 powi (ilog2 y - 52)"
    using assms by (intro divide_right_mono) simp_all
  then have "round_even (x / 2 powi (ilog2 y - 52)) \<le> round_even (y / 2 powi (ilog2 y - 52))"
    by (rule round_even_mono)
  then show ?thesis unfolding rnd64_pos_def Let_def True by (intro mult_right_mono) simp_all
next
  case False
  with ilog2_mono [OF assms] have "(2::rat) powi (ilog2 x + 1) \<le> 2 powi (ilog2 y)"
    by (simp add: powi2_le_iff)
  with rnd64_pos_bounds(2) [of x] rnd64_pos_bounds(1) [of y] assms show ?thesis by linarith
qed

lemma rnd64_pos_error:
  assumes "0 < x"
  shows "\<bar>rnd64_pos x - x\<bar> \<le> x * ulp_half"
proof -
  let ?u = "(2::rat) powi (ilog2 x - 52)"
  have p: "0 < ?u" by simp
  have "rnd64_pos x - x = (of_int (round_even (x / ?u)) - x / ?u) * ?u"
    by (simp add: rnd64_pos_def Let_def left_diff_distrib)
  then have "\<bar>rnd64_pos x - x\<bar> = \<bar>of_int (round_even (x / ?u)) - x / ?u\<bar> * ?u"
    using p by (simp add: abs_mult)
  also have "\<dots> \<le> 1 / 2 * ?u"
    using p by (intro mult_right_mono round_even_error) simp
  also have "\<dots> \<le> x * ulp_half"
  proof -
    have "2 ^ 52 * ?u \<le> x" using rnd64_pos_scale(1) [OF assms] p by (simp add: le_divide_eq)
    then show ?thesis by (simp add: ulp_half_def)
  qed
  finally show ?thesis .
qed

lemma rnd64_pos_exact:
  assumes "0 < x" "x = of_int m * 2 powi e" "\<bar>m\<bar> < 2 ^ 53"
  shows "rnd64_pos x = x"
proof -
  have "0 < (of_int m :: rat) * 2 powi e" using assms(1,2) by simp
  moreover have "0 < (2::rat) powi e" by simp
  ultimately have m: "0 < m" by (simp add: zero_less_mult_iff)
  have "2 powi (ilog2 x) \<le> x" by (rule ilog2_bounds) fact
  also have "x < 2 ^ 53 * 2 powi e"
  proof -
    have "(of_int m :: rat) < of_int (2 ^ 53)" using assms(3) m by (simp only: of_int_less_iff)
    then show ?thesis unfolding assms(2) by (intro mult_strict_right_mono) simp_all
  qed
  also have "\<dots> = 2 powi (e + 53)"
    using power_int_add [of "2::rat" 53 e] by (simp add: add.commute)
  finally have "ilog2 x < e + 53" by (simp add: powi2_less_iff)
  define d where "d = nat (e - (ilog2 x - 52))"
  have e: "e = int d + (ilog2 x - 52)" using \<open>ilog2 x < e + 53\<close> by (simp add: d_def)
  have "(2::rat) powi e = 2 ^ d * 2 powi (ilog2 x - 52)"
    using power_int_add [of "2::rat" "int d" "ilog2 x - 52"] e by simp
  then have "(of_int (m * 2 ^ d) :: rat) * 2 powi (ilog2 x - 52) = of_int m * 2 powi e" by simp
  also have "\<dots> = x" by (rule assms(2) [symmetric])
  finally have x: "of_int (m * 2 ^ d) * 2 powi (ilog2 x - 52) = x" .
  have "x / 2 powi (ilog2 x - 52) = of_int (m * 2 ^ d)" by (subst (1) x [symmetric]) simp
  then have "round_even (x / 2 powi (ilog2 x - 52)) = m * 2 ^ d" by (simp only: round_even_of_int)
  with x show ?thesis unfolding rnd64_pos_def Let_def by (simp only:)
qed

section \<open>The laws of rounding\<close>

text \<open>What the users of the arithmetic need to know of it.\<close>

locale rounding =
  fixes rnd :: "rat \<Rightarrow> rat" and u :: rat
  assumes rnd_mono: "x \<le> y \<Longrightarrow> rnd x \<le> rnd y"
    and rnd_error: "\<bar>rnd x - x\<bar> \<le> \<bar>x\<bar> * u"
    and rnd_of_nat: "n < 2 ^ 53 \<Longrightarrow> rnd (of_nat n) = of_nat n"
    and u_nonneg: "0 \<le> u"
begin

lemma rnd_zero [simp]: "rnd 0 = 0"
  using rnd_of_nat [of 0] by simp

lemma rnd_one: "rnd 1 = 1"
  using rnd_of_nat [of 1] by simp

lemma rnd_nonneg: "0 \<le> x \<Longrightarrow> 0 \<le> rnd x"
  using rnd_mono [of 0 x] by simp

lemma rnd_upper: "0 \<le> x \<Longrightarrow> rnd x \<le> x * (1 + u)"
  using rnd_error [of x] by (simp add: algebra_simps abs_le_iff)

lemma rnd_le_of_nat: "x \<le> of_nat n \<Longrightarrow> n < 2 ^ 53 \<Longrightarrow> rnd x \<le> of_nat n"
  using rnd_mono [of x "of_nat n"] by (simp add: rnd_of_nat)

lemma rnd_ge_of_nat: "of_nat n \<le> x \<Longrightarrow> n < 2 ^ 53 \<Longrightarrow> of_nat n \<le> rnd x"
  using rnd_mono [of "of_nat n" x] by (simp add: rnd_of_nat)

end

lemma rnd64_is_double: "is_double x \<Longrightarrow> rnd64 x = x"
proof -
  assume "is_double x"
  then obtain m e where x: "x = of_int m * 2 powi e" "\<bar>m\<bar> < 2 ^ 53" by (auto simp: is_double_def)
  show ?thesis
  proof (cases "x < 0")
    case True
    with x rnd64_pos_exact [of "- x" "- m" e] show ?thesis by (simp add: rnd64_def)
  next
    case False
    with x rnd64_pos_exact [of x m e] show ?thesis by (auto simp: rnd64_def)
  qed
qed

lemma is_double_of_nat: "n < 2 ^ 53 \<Longrightarrow> is_double (of_nat n)"
  unfolding is_double_def by (rule exI [of _ "int n"], rule exI [of _ 0]) simp

lemma rnd64_pos_positive: "0 < x \<Longrightarrow> 0 < rnd64_pos x"
  using rnd64_pos_bounds(1) [of x] by (rule less_le_trans [rotated]) simp_all

lemma rnd64_mono: "x \<le> y \<Longrightarrow> rnd64 x \<le> rnd64 y"
  using rnd64_pos_mono [of x y] rnd64_pos_mono [of "- y" "- x"] rnd64_pos_positive [of y]
    rnd64_pos_positive [of "- x"]
  by (cases "0 < x"; cases "0 < y"; cases "x = 0"; cases "y = 0") (simp_all add: rnd64_def)

lemma rnd64_error: "\<bar>rnd64 x - x\<bar> \<le> \<bar>x\<bar> * ulp_half"
  using rnd64_pos_error [of x] rnd64_pos_error [of "- x"]
  by (cases "x = 0"; cases "0 < x") (simp_all add: rnd64_def abs_minus_commute)

interpretation ieee: rounding rnd64 ulp_half
  by unfold_locales
     (simp_all only: rnd64_mono rnd64_error rnd64_is_double is_double_of_nat, simp add: ulp_half_def)

end
