(* ===== verification/Rate_Limiter.thy ===== *)
theory Rate_Limiter
  imports Double
begin

text \<open>
  \<open>common/rate-limiter.h\<close>, \<open>tocken-bucket.h\<close>/\<open>.cpp\<close> and the limiter that admits everything
  (\<open>Server::init_rate_limiter\<close>). A point of the steady clock is an integer number of nanoseconds
  (\<open>steady_clock::time_point\<close> of libstdc++); \<open>allow\<close> and \<open>reset\<close> take the reading they make.
  Each operation runs under the bucket's mutex, so calls from several threads are a sequence.
\<close>

section \<open>The interface\<close>

type_synonym time = int

text \<open>A sequence of calls of \<open>allow\<close> at the given clock readings: the answers and the last state.\<close>

fun limiter_run :: "(time \<Rightarrow> 's \<Rightarrow> bool \<times> 's) \<Rightarrow> time list \<Rightarrow> 's \<Rightarrow> bool list \<times> 's" where
  "limiter_run allow [] s = ([], s)"
| "limiter_run allow (t # ts) s =
     (let (ok, s') = allow t s; (oks, s'') = limiter_run allow ts s' in (ok # oks, s''))"

lemma limiter_run_Cons:
  "fst (limiter_run allow (t # ts) s) = fst (allow t s) # fst (limiter_run allow ts (snd (allow t s)))"
  "snd (limiter_run allow (t # ts) s) = snd (limiter_run allow ts (snd (allow t s)))"
  by (simp_all add: Let_def split: prod.splits)

lemma length_limiter_run [simp]: "length (fst (limiter_run allow ts s)) = length ts"
  by (induction ts arbitrary: s) (simp_all add: limiter_run_Cons del: limiter_run.simps(2))

abbreviation admitted :: "bool list \<Rightarrow> nat" where
  "admitted oks \<equiv> length (filter (\<lambda>b. b) oks)"

text \<open>
  What a provider promises: an invariant kept by both operations as long as the clock does not
  run backwards, the clock reading it remembers, and a bound on what one call can admit in terms
  of a credit that only the passing of time (and rounding) can raise.
\<close>

locale limiter_contract =
  fixes allow :: "time \<Rightarrow> 's \<Rightarrow> bool \<times> 's"
    and reset :: "time \<Rightarrow> 's \<Rightarrow> 's"
    and inv :: "'s \<Rightarrow> bool"
    and clock :: "'s \<Rightarrow> time"
  assumes inv_allow: "inv s \<Longrightarrow> clock s \<le> now \<Longrightarrow> inv (snd (allow now s))"
    and inv_reset: "inv s \<Longrightarrow> clock s \<le> now \<Longrightarrow> inv (reset now s)"
    and clock_allow: "inv s \<Longrightarrow> clock s \<le> now \<Longrightarrow> clock (snd (allow now s)) \<le> now"
    and clock_reset: "inv s \<Longrightarrow> clock s \<le> now \<Longrightarrow> clock (reset now s) \<le> now"
begin

lemma inv_run:
  "inv s \<Longrightarrow> sorted (clock s # ts) \<Longrightarrow> inv (snd (limiter_run allow ts s))"
proof (induction ts arbitrary: s)
  case Nil
  then show ?case by simp
next
  case (Cons t ts)
  then have t: "clock s \<le> t" by simp
  with Cons.prems have "sorted (clock (snd (allow t s)) # ts)"
    using clock_allow [of s t] by (auto intro: order_trans)
  with Cons.IH inv_allow [OF Cons.prems(1) t]
  have "inv (snd (limiter_run allow ts (snd (allow t s))))" by blast
  then show ?case by (simp add: limiter_run_Cons del: limiter_run.simps(2))
qed

end

locale budgeted_limiter = limiter_contract +
  fixes credit :: "'s \<Rightarrow> rat" and income :: "'s \<Rightarrow> rat" and slack :: "'s \<Rightarrow> rat"
  assumes credit_nonneg: "inv s \<Longrightarrow> 0 \<le> credit s"
    and spend: "inv s \<Longrightarrow> clock s \<le> now \<Longrightarrow>
      credit (snd (allow now s)) + (if fst (allow now s) then 1 else 0)
        \<le> credit s + of_int (now - clock s) * income s + slack s"
    and clock_is_now: "inv s \<Longrightarrow> clock s \<le> now \<Longrightarrow> clock (snd (allow now s)) = now"
    and income_allow: "income (snd (allow now s)) = income s"
    and slack_allow: "slack (snd (allow now s)) = slack s"
begin

text \<open>Over a whole run the admissions are paid from the first credit and the income.\<close>

lemma run_budget:
  "inv s \<Longrightarrow> sorted (clock s # ts) \<Longrightarrow>
     credit (snd (limiter_run allow ts s)) + of_nat (admitted (fst (limiter_run allow ts s)))
       \<le> credit s + of_int (last (clock s # ts) - clock s) * income s + of_nat (length ts) * slack s"
proof (induction ts arbitrary: s)
  case Nil
  then show ?case by simp
next
  case (Cons t ts)
  obtain ok s' where a: "allow t s = (ok, s')" by fastforce
  obtain oks s'' where r: "limiter_run allow ts s' = (oks, s'')" by fastforce
  have t: "clock s \<le> t" using Cons.prems by simp
  have s': "inv s'" "clock s' = t" "income s' = income s" "slack s' = slack s"
    using inv_allow [OF Cons.prems(1) t] clock_is_now [OF Cons.prems(1) t] income_allow [of t s]
      slack_allow [of t s] a by simp_all
  have so: "sorted (clock s' # ts)" using Cons.prems(2) s'(2) by simp
  have "credit s'' + of_nat (admitted oks)
      \<le> credit s' + of_int (last (t # ts) - t) * income s + of_nat (length ts) * slack s"
    using Cons.IH [OF s'(1) so] r s' by simp
  moreover have "credit s' + (if ok then 1 else 0) \<le> credit s + of_int (t - clock s) * income s + slack s"
    using spend [OF Cons.prems(1) t] a by simp
  moreover have "last (clock s # t # ts) = last (t # ts)" by simp
  ultimately show ?case
    using a r by (cases ok) (simp_all add: algebra_simps)
qed

lemma admitted_bound:
  assumes "inv s" "sorted (clock s # ts)"
  shows "of_nat (admitted (fst (limiter_run allow ts s)))
    \<le> credit s + of_int (last (clock s # ts) - clock s) * income s + of_nat (length ts) * slack s"
proof -
  have "0 \<le> credit (snd (limiter_run allow ts s))"
    by (rule credit_nonneg, rule inv_run) fact+
  with run_budget [OF assms] show ?thesis by linarith
qed

end

section \<open>The token bucket\<close>

record token_bucket =
  tb_rate :: rat
  tb_capacity :: rat
  tb_tokens :: rat
  tb_last_refill :: time

definition TokenBucket :: "rat \<Rightarrow> rat \<Rightarrow> time \<Rightarrow> token_bucket" where
  "TokenBucket rate capacity now =
     \<lparr>tb_rate = rate, tb_capacity = capacity, tb_tokens = capacity, tb_last_refill = now\<rparr>"

text \<open>\<open>duration<double>(now - last_refill_).count()\<close>: nanoseconds to seconds.\<close>

definition elapsed_seconds :: "time \<Rightarrow> time \<Rightarrow> rat" where
  "elapsed_seconds now prev = rnd64 (rnd64 (of_int (now - prev)) / 1000000000)"

definition tb_refill :: "time \<Rightarrow> token_bucket \<Rightarrow> token_bucket" where
  "tb_refill now b =
     (let elapsed = elapsed_seconds now (tb_last_refill b)
      in b\<lparr>tb_tokens := min (tb_capacity b) (rnd64 (tb_tokens b + rnd64 (elapsed * tb_rate b))),
           tb_last_refill := now\<rparr>)"

definition tb_allow :: "time \<Rightarrow> token_bucket \<Rightarrow> bool \<times> token_bucket" where
  "tb_allow now b =
     (let b = tb_refill now b;
          allow = 1 \<le> tb_tokens b
      in (allow, if allow then b\<lparr>tb_tokens := rnd64 (tb_tokens b - 1)\<rparr> else b))"

definition tb_reset :: "time \<Rightarrow> token_bucket \<Rightarrow> token_bucket" where
  "tb_reset now b = b\<lparr>tb_tokens := tb_capacity b, tb_last_refill := now\<rparr>"

text \<open>
  The server builds the bucket from two 32-bit configuration values, so the rate and the capacity
  are naturals below \<open>2 ^ 32\<close>.
\<close>

definition tb_inv :: "token_bucket \<Rightarrow> bool" where
  "tb_inv b \<longleftrightarrow>
     (\<exists>r<2 ^ 32. tb_rate b = of_nat r) \<and> (\<exists>c<2 ^ 32. tb_capacity b = of_nat c)
     \<and> 0 \<le> tb_tokens b \<and> tb_tokens b \<le> tb_capacity b"

section \<open>The limiter without a limit\<close>

definition unlimited_allow :: bool where
  "unlimited_allow = True"

section \<open>Virtual dispatch\<close>

datatype limiter = UnlimitedRateLimiter | TokenBucketLimiter token_bucket

text \<open>\<open>reset\<close> of the base class does nothing, and the unlimited limiter does not override it.\<close>

fun rl_allow :: "time \<Rightarrow> limiter \<Rightarrow> bool \<times> limiter" where
  "rl_allow now UnlimitedRateLimiter = (unlimited_allow, UnlimitedRateLimiter)"
| "rl_allow now (TokenBucketLimiter b) = (let (ok, b') = tb_allow now b in (ok, TokenBucketLimiter b'))"

fun rl_reset :: "time \<Rightarrow> limiter \<Rightarrow> limiter" where
  "rl_reset now UnlimitedRateLimiter = UnlimitedRateLimiter"
| "rl_reset now (TokenBucketLimiter b) = TokenBucketLimiter (tb_reset now b)"

section \<open>The bucket meets the interface\<close>

lemma elapsed_nonneg: "prev \<le> now \<Longrightarrow> 0 \<le> elapsed_seconds now prev"
  by (simp add: elapsed_seconds_def ieee.rnd_nonneg)

lemma elapsed_same [simp]: "elapsed_seconds t t = 0"
  by (simp add: elapsed_seconds_def)

lemma elapsed_upper:
  assumes "prev \<le> now"
  shows "elapsed_seconds now prev \<le> of_int (now - prev) / 1000000000 * (1 + ulp_half) ^ 2"
proof -
  let ?d = "of_int (now - prev) :: rat"
  have d: "0 \<le> ?d" using assms by simp
  have "elapsed_seconds now prev \<le> rnd64 ?d / 1000000000 * (1 + ulp_half)"
    unfolding elapsed_seconds_def using d by (intro ieee.rnd_upper) (simp add: ieee.rnd_nonneg)
  also have "\<dots> \<le> (?d * (1 + ulp_half)) / 1000000000 * (1 + ulp_half)"
    using ieee.rnd_upper [OF d] ieee.u_nonneg by (intro mult_right_mono divide_right_mono) simp_all
  finally show ?thesis by (simp add: power2_eq_square)
qed

lemma elapsed_a_second:
  assumes "prev + 1000000000 \<le> now"
  shows "1 \<le> elapsed_seconds now prev"
proof -
  have "of_nat 1000000000 \<le> rnd64 (of_int (now - prev))"
  proof (rule ieee.rnd_ge_of_nat)
    have "(of_int 1000000000 :: rat) \<le> of_int (now - prev)"
      using assms by (simp only: of_int_le_iff)
    then show "of_nat 1000000000 \<le> (of_int (now - prev) :: rat)" by simp
  qed simp
  then have "of_nat 1 \<le> rnd64 (of_int (now - prev)) / 1000000000" by simp
  then have "of_nat 1 \<le> elapsed_seconds now prev"
    unfolding elapsed_seconds_def by (rule ieee.rnd_ge_of_nat) simp
  then show ?thesis by simp
qed

lemma tb_refill_fields [simp]:
  "tb_rate (tb_refill now b) = tb_rate b"
  "tb_capacity (tb_refill now b) = tb_capacity b"
  "tb_last_refill (tb_refill now b) = now"
  by (simp_all add: tb_refill_def Let_def)

lemma tb_allow_fields [simp]:
  "tb_rate (snd (tb_allow now b)) = tb_rate b"
  "tb_capacity (snd (tb_allow now b)) = tb_capacity b"
  "tb_last_refill (snd (tb_allow now b)) = now"
  by (simp_all add: tb_allow_def Let_def)

lemma tb_allow_fst: "fst (tb_allow now b) \<longleftrightarrow> 1 \<le> tb_tokens (tb_refill now b)"
  by (simp add: tb_allow_def Let_def)

lemma tb_allow_tokens:
  "tb_tokens (snd (tb_allow now b)) =
    (if 1 \<le> tb_tokens (tb_refill now b) then rnd64 (tb_tokens (tb_refill now b) - 1)
     else tb_tokens (tb_refill now b))"
  by (simp add: tb_allow_def Let_def)

lemma tb_refill_capped: "tb_tokens (tb_refill now b) \<le> tb_capacity b"
  by (simp add: tb_refill_def Let_def)

lemma tb_inv_rate_nonneg: "tb_inv b \<Longrightarrow> 0 \<le> tb_rate b"
  by (auto simp: tb_inv_def)

text \<open>Refilling never takes tokens away: a whole number of tokens below the cap survives it.\<close>

lemma tb_refill_keeps:
  assumes "tb_inv b" "tb_last_refill b \<le> now" "of_nat k \<le> tb_tokens b"
  shows "of_nat k \<le> tb_tokens (tb_refill now b)"
proof -
  obtain c where c: "c < 2 ^ 32" "tb_capacity b = of_nat c" using assms(1) by (auto simp: tb_inv_def)
  have k: "(of_nat k :: rat) \<le> of_nat c" using assms c by (simp add: tb_inv_def)
  have "0 \<le> rnd64 (elapsed_seconds now (tb_last_refill b) * tb_rate b)"
    using elapsed_nonneg [OF assms(2)] tb_inv_rate_nonneg [OF assms(1)] by (simp add: ieee.rnd_nonneg)
  with assms(3) have "of_nat k \<le> tb_tokens b + rnd64 (elapsed_seconds now (tb_last_refill b) * tb_rate b)"
    by simp
  then have "of_nat k \<le> rnd64 (tb_tokens b + rnd64 (elapsed_seconds now (tb_last_refill b) * tb_rate b))"
    using k c by (intro ieee.rnd_ge_of_nat) simp_all
  with k c show ?thesis by (simp add: tb_refill_def Let_def)
qed

lemma tb_refill_inv [wf_intro]:
  "tb_inv b \<Longrightarrow> tb_last_refill b \<le> now \<Longrightarrow> tb_inv (tb_refill now b)"
  using tb_refill_keeps [of b now 0] tb_refill_capped [of now b] by (simp add: tb_inv_def)

lemma tb_allow_inv [wf_intro]:
  assumes "tb_inv b" "tb_last_refill b \<le> now"
  shows "tb_inv (snd (tb_allow now b))"
proof -
  let ?t = "tb_tokens (tb_refill now b)"
  have i: "tb_inv (tb_refill now b)" by (rule tb_refill_inv) fact+
  then obtain c where c: "c < 2 ^ 32" "tb_capacity b = of_nat c" by (auto simp: tb_inv_def)
  have "0 \<le> rnd64 (?t - 1)" "rnd64 (?t - 1) \<le> tb_capacity b" if "1 \<le> ?t"
    using that c tb_refill_capped [of now b] by (auto intro!: ieee.rnd_nonneg ieee.rnd_le_of_nat)
  with i show ?thesis by (auto simp: tb_inv_def tb_allow_tokens)
qed

lemma tb_reset_inv [wf_intro]: "tb_inv b \<Longrightarrow> tb_inv (tb_reset now b)"
  by (auto simp: tb_inv_def tb_reset_def)

lemma TokenBucket_inv [wf_intro]:
  "r < 2 ^ 32 \<Longrightarrow> c < 2 ^ 32 \<Longrightarrow> tb_inv (TokenBucket (of_nat r) (of_nat c) now)"
  by (auto simp: tb_inv_def TokenBucket_def)

text \<open>Income per nanosecond, and the rounding slack of one call.\<close>

definition tb_income :: "token_bucket \<Rightarrow> rat" where
  "tb_income b = tb_rate b / 1000000000 * (1 + ulp_half) ^ 4"

definition tb_slack :: "token_bucket \<Rightarrow> rat" where
  "tb_slack b = 2 * tb_capacity b * ulp_half"

lemma tb_refill_spend:
  assumes i: "tb_inv b" and t: "tb_last_refill b \<le> now"
  shows "tb_tokens (tb_refill now b)
    \<le> tb_tokens b + of_int (now - tb_last_refill b) * tb_income b + tb_capacity b * ulp_half"
proof -
  let ?u = ulp_half and ?dt = "of_int (now - tb_last_refill b) :: rat"
  let ?e = "elapsed_seconds now (tb_last_refill b)"
  let ?p = "rnd64 (?e * tb_rate b)"
  have u: "0 \<le> ?u" by (rule ieee.u_nonneg)
  have r: "0 \<le> tb_rate b" by (rule tb_inv_rate_nonneg) fact
  have e: "0 \<le> ?e" by (rule elapsed_nonneg) fact
  have "?p \<le> ?e * tb_rate b * (1 + ?u)" using e r by (intro ieee.rnd_upper) simp
  also have "\<dots> \<le> ?dt / 1000000000 * (1 + ?u) ^ 2 * tb_rate b * (1 + ?u)"
    using elapsed_upper [OF t] r u by (intro mult_right_mono) simp_all
  finally have "?p * (1 + ?u) \<le> ?dt / 1000000000 * (1 + ?u) ^ 2 * tb_rate b * (1 + ?u) * (1 + ?u)"
    using u by (intro mult_right_mono) simp_all
  also have "\<dots> = ?dt * tb_income b"
    by (simp add: tb_income_def power2_eq_square power4_eq_xxxx)
  finally have p: "?p * (1 + ?u) \<le> ?dt * tb_income b" .
  have "0 \<le> tb_tokens b" "tb_tokens b * ?u \<le> tb_capacity b * ?u"
    using i u by (auto simp: tb_inv_def intro: mult_right_mono)
  moreover have "rnd64 (tb_tokens b + ?p) \<le> (tb_tokens b + ?p) * (1 + ?u)"
    using i e r by (intro ieee.rnd_upper add_nonneg_nonneg ieee.rnd_nonneg) (simp_all add: tb_inv_def)
  ultimately have "rnd64 (tb_tokens b + ?p) \<le> tb_tokens b + ?dt * tb_income b + tb_capacity b * ?u"
    using p by (simp add: algebra_simps)
  then show ?thesis by (simp add: tb_refill_def Let_def min.coboundedI2)
qed

lemma tb_allow_spend:
  assumes i: "tb_inv b" and t: "tb_last_refill b \<le> now"
  shows "tb_tokens (snd (tb_allow now b)) + (if fst (tb_allow now b) then 1 else 0)
    \<le> tb_tokens b + of_int (now - tb_last_refill b) * tb_income b + tb_slack b"
proof -
  let ?t = "tb_tokens (tb_refill now b)"
  have cap: "0 \<le> tb_capacity b" using i by (auto simp: tb_inv_def)
  have "rnd64 (?t - 1) \<le> ?t - 1 + tb_capacity b * ulp_half" if "1 \<le> ?t"
  proof -
    have "rnd64 (?t - 1) \<le> (?t - 1) * (1 + ulp_half)" using that by (intro ieee.rnd_upper) simp
    moreover have "(?t - 1) * ulp_half \<le> tb_capacity b * ulp_half"
      using tb_refill_capped [of now b] ieee.u_nonneg by (intro mult_right_mono) simp_all
    ultimately show ?thesis by (simp add: algebra_simps)
  qed
  moreover have "0 \<le> tb_capacity b * ulp_half" using cap ieee.u_nonneg by simp
  ultimately show ?thesis
    using tb_refill_spend [OF assms] by (auto simp: tb_allow_fst tb_allow_tokens tb_slack_def)
qed

interpretation bucket: budgeted_limiter tb_allow tb_reset tb_inv tb_last_refill
    tb_tokens tb_income tb_slack
  by unfold_locales
     ((rule tb_allow_spend; assumption)
      | simp add: tb_allow_inv tb_reset_inv tb_income_def tb_slack_def
      | simp add: tb_reset_def tb_inv_def)+

text \<open>The object behind the \<open>shared_ptr<RateLimiter>\<close>, whichever class it has.\<close>

fun rl_inv :: "limiter \<Rightarrow> bool" where
  "rl_inv UnlimitedRateLimiter = True"
| "rl_inv (TokenBucketLimiter b) = tb_inv b"

fun rl_clock :: "limiter \<Rightarrow> time" where
  "rl_clock UnlimitedRateLimiter = 0"
| "rl_clock (TokenBucketLimiter b) = tb_last_refill b"

lemma rl_allow_bucket:
  "fst (rl_allow now (TokenBucketLimiter b)) = fst (tb_allow now b)"
  "snd (rl_allow now (TokenBucketLimiter b)) = TokenBucketLimiter (snd (tb_allow now b))"
  by (simp_all split: prod.splits)

lemma rl_allow_inv: "rl_inv l \<Longrightarrow> rl_clock l \<le> now \<Longrightarrow> rl_inv (snd (rl_allow now l))"
  by (cases l) (simp_all add: tb_allow_inv rl_allow_bucket del: rl_allow.simps(2))

lemma rl_allow_clock: "rl_clock l \<le> now \<Longrightarrow> rl_clock (snd (rl_allow now l)) \<le> now"
  by (cases l) (simp_all add: rl_allow_bucket del: rl_allow.simps(2))

interpretation dispatch: limiter_contract rl_allow rl_reset rl_inv rl_clock
proof unfold_locales
  fix s :: limiter and now
  assume "rl_inv s" "rl_clock s \<le> now"
  then show "rl_inv (rl_reset now s)" "rl_clock (rl_reset now s) \<le> now"
    by (cases s, simp_all add: tb_reset_inv) (cases s, simp_all add: tb_reset_def)
qed (simp_all add: rl_allow_inv rl_allow_clock)

section \<open>Bursts, waiting, and the bound on admissions\<close>

lemma tb_allow_keeps:
  assumes "tb_inv b" "tb_last_refill b \<le> now" "of_nat (Suc k) \<le> tb_tokens b"
  shows "fst (tb_allow now b)" "of_nat k \<le> tb_tokens (snd (tb_allow now b))"
proof -
  have t: "of_nat (Suc k) \<le> tb_tokens (tb_refill now b)" by (rule tb_refill_keeps) fact+
  then show f: "fst (tb_allow now b)" by (simp add: tb_allow_fst)
  obtain c where c: "c < 2 ^ 32" "tb_capacity b = of_nat c" using assms(1) by (auto simp: tb_inv_def)
  with t tb_refill_capped [of now b] have "(of_nat (Suc k) :: rat) \<le> of_nat c" by linarith
  with c have "k < 2 ^ 53" by (simp only: of_nat_le_iff) simp
  with t have "of_nat k \<le> rnd64 (tb_tokens (tb_refill now b) - 1)"
    by (intro ieee.rnd_ge_of_nat) simp_all
  with f show "of_nat k \<le> tb_tokens (snd (tb_allow now b))"
    by (simp add: tb_allow_tokens tb_allow_fst)
qed

lemma burst_run:
  "tb_inv b \<Longrightarrow> sorted (tb_last_refill b # ts) \<Longrightarrow> of_nat (length ts) \<le> tb_tokens b \<Longrightarrow>
     fst (limiter_run tb_allow ts b) = replicate (length ts) True"
proof (induction ts arbitrary: b)
  case Nil
  then show ?case by simp
next
  case (Cons t ts)
  then have t: "tb_last_refill b \<le> t" by simp
  note k = tb_allow_keeps [OF Cons.prems(1) t, of "length ts"]
  have "fst (limiter_run tb_allow ts (snd (tb_allow t b))) = replicate (length ts) True"
    using Cons.prems k(2) t by (intro Cons.IH) (simp_all add: tb_allow_inv)
  with k(1) Cons.prems show ?case by (simp add: limiter_run_Cons del: limiter_run.simps(2))
qed

lemma tb_refill_same_instant:
  assumes "tb_inv b" "tb_last_refill b = now" "tb_tokens b = of_nat k"
  shows "tb_tokens (tb_refill now b) = of_nat k"
proof -
  obtain c where c: "c < 2 ^ 32" "tb_capacity b = of_nat c" using assms(1) by (auto simp: tb_inv_def)
  have "(of_nat k :: rat) \<le> of_nat c" using assms c by (simp add: tb_inv_def)
  then have "k < 2 ^ 53" "(of_nat k :: rat) \<le> tb_capacity b" using c by simp_all
  with assms show ?thesis by (simp add: tb_refill_def Let_def ieee.rnd_of_nat)
qed

lemma instant_run:
  "tb_inv b \<Longrightarrow> tb_last_refill b = now \<Longrightarrow> tb_tokens b = of_nat k \<Longrightarrow>
     fst (limiter_run tb_allow (replicate n now) b) = replicate (min n k) True @ replicate (n - k) False"
proof (induction n arbitrary: b k)
  case 0
  then show ?case by simp
next
  case (Suc n)
  note r = tb_refill_same_instant [OF Suc.prems]
  have i: "tb_inv (snd (tb_allow now b))" using Suc.prems by (simp add: tb_allow_inv)
  show ?case
  proof (cases k)
    case 0
    with r have "\<not> fst (tb_allow now b)" "tb_tokens (snd (tb_allow now b)) = of_nat 0"
      by (simp_all add: tb_allow_fst tb_allow_tokens)
    with Suc.IH [OF i, of 0] 0 show ?thesis by (simp add: limiter_run_Cons del: limiter_run.simps(2))
  next
    case (Suc k')
    obtain c where "c < 2 ^ 32" "tb_capacity b = of_nat c" using Suc.prems(1) by (auto simp: tb_inv_def)
    with Suc.prems(1,3) \<open>k = Suc k'\<close> have "k' < 2 ^ 53" by (auto simp: tb_inv_def)
    with r \<open>k = Suc k'\<close> have "fst (tb_allow now b)" "tb_tokens (snd (tb_allow now b)) = of_nat k'"
      by (simp_all add: tb_allow_fst tb_allow_tokens ieee.rnd_of_nat)
    with Suc.IH [OF i, of k'] \<open>k = Suc k'\<close> show ?thesis
      by (simp add: limiter_run_Cons del: limiter_run.simps(2))
  qed
qed

lemma tb_refill_second:
  assumes "tb_inv b" "tb_last_refill b + 1000000000 \<le> now" "1 \<le> tb_rate b" "1 \<le> tb_capacity b"
  shows "1 \<le> tb_tokens (tb_refill now b)"
proof -
  let ?e = "elapsed_seconds now (tb_last_refill b)"
  have "1 * 1 \<le> ?e * tb_rate b"
    using elapsed_a_second [OF assms(2)] assms(3) by (intro mult_mono) simp_all
  then have "of_nat 1 \<le> rnd64 (?e * tb_rate b)" by (intro ieee.rnd_ge_of_nat) simp_all
  then have "of_nat 1 \<le> rnd64 (tb_tokens b + rnd64 (?e * tb_rate b))"
    using assms(1) by (intro ieee.rnd_ge_of_nat) (simp_all add: tb_inv_def)
  with assms(4) show ?thesis by (simp add: tb_refill_def Let_def)
qed

lemma no_capacity_run:
  "tb_capacity b = 0 \<Longrightarrow> fst (limiter_run tb_allow ts b) = replicate (length ts) False"
proof (induction ts arbitrary: b)
  case Nil
  then show ?case by simp
next
  case (Cons t ts)
  have "tb_tokens (tb_refill t b) \<le> 0" using tb_refill_capped [of t b] Cons.prems by simp
  then have "\<not> fst (tb_allow t b)" by (simp add: tb_allow_fst)
  moreover have "fst (limiter_run tb_allow ts (snd (tb_allow t b))) = replicate (length ts) False"
    using Cons.prems by (intro Cons.IH) simp
  ultimately show ?case by (simp add: limiter_run_Cons del: limiter_run.simps(2))
qed

section \<open>Properties\<close>

text \<open>
  C3. The rate limiter keeps its promise: whatever the arrival times (with a clock that does not
  run backwards), the number of requests a bucket of rate \<open>r\<close> and burst \<open>c\<close> admits from its
  construction at \<open>t0\<close> up to the last of \<open>n\<close> calls is at most the burst plus the rate times the
  elapsed seconds; the two rounding terms are the price of double arithmetic (\<open>ulp_half\<close> is
  \<open>2 ^ -53\<close>).
\<close>

theorem limiter_admissions_bounded:
  assumes "r < 2 ^ 32" "c < 2 ^ 32" "sorted (t0 # ts)"
  shows "of_nat (admitted (fst (limiter_run tb_allow ts (TokenBucket (of_nat r) (of_nat c) t0))))
    \<le> of_nat c + of_int (last (t0 # ts) - t0) * (of_nat r / 1000000000 * (1 + ulp_half) ^ 4)
      + of_nat (length ts) * (2 * of_nat c * ulp_half)"
  using bucket.admitted_bound [OF TokenBucket_inv [OF assms(1,2), of t0], of ts] assms(3)
  by (simp add: TokenBucket_def tb_income_def tb_slack_def)

theorem limiter_admissions_bounded_witness:
  "of_nat (admitted (fst (limiter_run tb_allow [0, 0, 0, 500000000, 500000001]
      (TokenBucket (of_nat 2) (of_nat 2) 0))))
    \<le> (of_nat 2 :: rat)
      + of_int (last [0, 0, 0, 0, 500000000, 500000001] - 0) * (of_nat 2 / 1000000000 * (1 + ulp_half) ^ 4)
      + of_nat (length [0 :: int, 0, 0, 500000000, 500000001]) * (2 * of_nat 2 * ulp_half)"
  by (rule limiter_admissions_bounded) simp_all

text \<open>
  C16. A full burst is served: the first \<open>c\<close> requests after construction are admitted, however
  they are spread in time (rounding never takes away a token that was there).
\<close>

theorem limiter_serves_burst:
  assumes "r < 2 ^ 32" "c < 2 ^ 32" "sorted (t0 # ts)" "length ts \<le> c"
  shows "fst (limiter_run tb_allow ts (TokenBucket (of_nat r) (of_nat c) t0))
    = replicate (length ts) True"
  using assms(3,4)
  by (intro burst_run TokenBucket_inv assms(1,2)) (simp_all add: TokenBucket_def)

theorem limiter_serves_burst_witness:
  "fst (limiter_run tb_allow [5, 7, 7] (TokenBucket (of_nat 0) (of_nat 3) 5))
    = replicate (length [5 :: int, 7, 7]) True"
  by (rule limiter_serves_burst) simp_all

text \<open>
  C17. A burst is cut exactly: of \<open>n\<close> requests that arrive at the instant of the last reset the
  first \<open>c\<close> are admitted and every later one is refused.
\<close>

theorem limiter_cuts_burst:
  assumes "tb_inv b" "tb_capacity b = of_nat c"
  shows "fst (limiter_run tb_allow (replicate n now) (tb_reset now b))
    = replicate (min n c) True @ replicate (n - c) False"
  using assms by (intro instant_run tb_reset_inv) (simp_all add: tb_reset_def)

theorem limiter_cuts_burst_witness:
  "fst (limiter_run tb_allow (replicate 4 9)
      (tb_reset 9 (snd (tb_allow 3 (TokenBucket (of_nat 1) (of_nat 2) 0)))))
    = replicate (min 4 2) True @ replicate (4 - 2) False"
proof (rule limiter_cuts_burst)
  show "tb_inv (snd (tb_allow 3 (TokenBucket (of_nat 1) (of_nat 2) 0)))"
    by (intro tb_allow_inv TokenBucket_inv) (simp_all add: TokenBucket_def)
qed (simp add: TokenBucket_def)

text \<open>
  C18. The advice in the \<open>Retry-After: 1\<close> header is sound: a bucket with at least one request per
  second and a burst of at least one admits a call made one second or more after the previous
  one, whatever that one was answered.
\<close>

theorem limiter_retry_after_a_second:
  assumes "tb_inv b" "tb_last_refill b \<le> t" "1 \<le> tb_rate b" "1 \<le> tb_capacity b"
    and "t + 1000000000 \<le> now"
  shows "fst (tb_allow now (snd (tb_allow t b)))"
  using assms tb_refill_second [of "snd (tb_allow t b)" now]
  by (simp add: tb_allow_fst tb_allow_inv)

theorem limiter_retry_after_a_second_witness:
  "fst (tb_allow 1000000005 (snd (tb_allow 5 (TokenBucket (of_nat 1) (of_nat 1) 0))))"
  by (rule limiter_retry_after_a_second)
     (use TokenBucket_inv [of 1 1 0] in \<open>simp_all add: TokenBucket_def\<close>)

text \<open>
  A configured burst size of 0 shuts the proxy: no request is ever admitted, at any rate and
  any time.
\<close>

theorem limiter_zero_burst_admits_nothing:
  "fst (limiter_run tb_allow ts (TokenBucket r 0 t0)) = replicate (length ts) False"
  by (rule no_capacity_run) (simp add: TokenBucket_def)

end
