(* ===== verification/Session_Helper.thy ===== *)
theory Session_Helper
  imports Config_Data
begin

text \<open>
  \<open>common/ec-handler.h\<close>, \<open>common/session.h\<close> and \<open>utils/session-helper.h\<close>: the error codes the
  asynchronous operations complete with, the stop flag every HTTP session carries, the two kinds of
  client stream, and runs of event-driven components.
\<close>

section \<open>Error codes\<close>

text \<open>\<open>asio::error_code\<close>: success, the two conditions the code tests for, and every other error.\<close>

datatype error_code = Success | Eof | Operation_aborted | Other_error nat

definition is_eof :: "error_code \<Rightarrow> bool" where
  "is_eof ec \<longleftrightarrow> ec = Eof"

definition is_aborted :: "error_code \<Rightarrow> bool" where
  "is_aborted ec \<longleftrightarrow> ec = Operation_aborted"

definition is_cancelled :: "error_code \<Rightarrow> bool" where
  "is_cancelled ec \<longleftrightarrow> is_aborted ec"

definition check_ec :: "error_code \<Rightarrow> bool" where
  "check_ec ec \<longleftrightarrow> ec = Success"

text \<open>The level of the line \<open>check_ec\<close> logs, if it logs one.\<close>

definition check_ec_log :: "error_code \<Rightarrow> level_enum option" where
  "check_ec_log ec = (if check_ec ec then None else if is_cancelled ec then Some trace else Some err)"

section \<open>The stop flag\<close>

record session_base =
  sb_id :: u64
  sb_stopped :: bool

definition SessionBase :: "u64 \<Rightarrow> session_base" where
  "SessionBase sid = \<lparr>sb_id = sid, sb_stopped = False\<rparr>"

definition is_stopped :: "session_base \<Rightarrow> bool" where
  "is_stopped b \<longleftrightarrow> sb_stopped b"

text \<open>\<open>!stopped_.exchange(true)\<close>: true for the caller that raised the flag.\<close>

definition request_stop :: "session_base \<Rightarrow> bool \<times> session_base" where
  "request_stop b = (\<not> sb_stopped b, b\<lparr>sb_stopped := True\<rparr>)"

definition get_session_id :: "session_base \<Rightarrow> u64" where
  "get_session_id b = sb_id b"

text \<open>
  The contract: raising the flag succeeds exactly when it was down, and it never comes down again.
  Of any sequence of attempts exactly the first on a running session succeeds.
\<close>

fun stop_attempts :: "('s \<Rightarrow> bool \<times> 's) \<Rightarrow> nat \<Rightarrow> 's \<Rightarrow> bool list" where
  "stop_attempts request 0 s = []"
| "stop_attempts request (Suc n) s = fst (request s) # stop_attempts request n (snd (request s))"

locale stop_flag =
  fixes stopped :: "'s \<Rightarrow> bool"
    and request :: "'s \<Rightarrow> bool \<times> 's"
  assumes request_wins: "fst (request s) \<longleftrightarrow> \<not> stopped s"
    and request_raises: "stopped (snd (request s))"
begin

lemma attempts_stopped: "stopped s \<Longrightarrow> stop_attempts request n s = replicate n False"
  by (induction n arbitrary: s) (simp_all add: request_wins request_raises)

lemma attempts_running:
  "\<not> stopped s \<Longrightarrow> stop_attempts request (Suc n) s = True # replicate n False"
  by (simp add: request_wins request_raises attempts_stopped)

end

interpretation base: stop_flag is_stopped request_stop
  by unfold_locales (simp_all add: is_stopped_def request_stop_def)

section \<open>Client streams\<close>

record tcp_socket =
  so_open :: bool
  so_shut :: bool

datatype http_stream = TcpStream tcp_socket | SslStream tcp_socket

text \<open>A plain socket is its own lowest layer; a TLS stream lies on one.\<close>

fun lowest_socket :: "http_stream \<Rightarrow> tcp_socket" where
  "lowest_socket (TcpStream s) = s"
| "lowest_socket (SslStream s) = s"

fun on_lowest_socket :: "(tcp_socket \<Rightarrow> tcp_socket) \<Rightarrow> http_stream \<Rightarrow> http_stream" where
  "on_lowest_socket f (TcpStream s) = TcpStream (f s)"
| "on_lowest_socket f (SslStream s) = SslStream (f s)"

lemma lowest_on_lowest [simp]: "lowest_socket (on_lowest_socket f s) = f (lowest_socket s)"
  by (cases s) simp_all

text \<open>\<open>shutdown(shutdown_both)\<close> and \<open>close()\<close>; both do nothing more on a closed socket.\<close>

definition socket_shutdown :: "tcp_socket \<Rightarrow> tcp_socket" where
  "socket_shutdown s = (if so_open s then s\<lparr>so_shut := True\<rparr> else s)"

definition socket_close :: "tcp_socket \<Rightarrow> tcp_socket" where
  "socket_close s = s\<lparr>so_open := False\<rparr>"

text \<open>\<open>shutdown_socket\<close>: cancelling the pending operations leaves the socket as it is.\<close>

definition socket_cancel :: "tcp_socket \<Rightarrow> tcp_socket" where
  "socket_cancel s = s"

definition shutdown_socket :: "tcp_socket \<Rightarrow> tcp_socket" where
  "shutdown_socket s = socket_close (socket_shutdown (socket_cancel s))"

lemma so_open_close [simp]: "\<not> so_open (socket_close s)"
  by (simp add: socket_close_def)

section \<open>Runs of event-driven components\<close>

text \<open>
  A component is a partial function of an event and a state: \<open>None\<close> when the event cannot happen
  there. A run is a list of events.
\<close>

fun run_events :: "('e \<Rightarrow> 's \<Rightarrow> 's option) \<Rightarrow> 'e list \<Rightarrow> 's \<Rightarrow> 's option" where
  "run_events step [] s = Some s"
| "run_events step (e # es) s = (case step e s of None \<Rightarrow> None | Some s' \<Rightarrow> run_events step es s')"

lemma run_events_append:
  "run_events step (es @ fs) s =
    (case run_events step es s of None \<Rightarrow> None | Some s' \<Rightarrow> run_events step fs s')"
  by (induction es arbitrary: s) (simp_all split: option.splits)

lemma run_events_trans:
  "run_events step es s = Some s' \<Longrightarrow> run_events step fs s' = r \<Longrightarrow> run_events step (es @ fs) s = r"
  by (simp add: run_events_append)

locale invariant =
  fixes step :: "'e \<Rightarrow> 's \<Rightarrow> 's option"
    and start :: "'s \<Rightarrow> bool"
    and inv :: "'s \<Rightarrow> bool"
  assumes inv_start: "start s \<Longrightarrow> inv s"
    and inv_step: "inv s \<Longrightarrow> step e s = Some s' \<Longrightarrow> inv s'"
begin

lemma inv_from: "inv s \<Longrightarrow> run_events step es s = Some s' \<Longrightarrow> inv s'"
  by (induction es arbitrary: s) (auto split: option.splits intro: inv_step)

lemma inv_run: "start s \<Longrightarrow> run_events step es s = Some s' \<Longrightarrow> inv s'"
  using inv_start inv_from by blast

end

end
