(* ===== verification/Http_Session.thy ===== *)
theory Http_Session
  imports Session_Helper Http_Helper Rate_Limiter
begin

text \<open>
  \<open>http-session.h\<close>/\<open>.cpp\<close>: one client connection and the request to the upstream host made for it.

  All coroutines and handlers of a session run on its strand, one at a time, so each piece of code
  between two suspension points is a function of the session's state: the handlers below, in the
  order of the source. What is pending (a spawned coroutine that has not started, an asynchronous
  operation with the code that resumes after it) is the list of tasks. Asio, OpenSSL, the client
  and the upstream host are the environment: they decide which task goes on and with which result
  (an event). What the session does to them is recorded in a trace, together with the inputs that
  properties refer to.

  \<open>co_spawn\<close> and \<open>dispatch\<close> may run the new code at once when the strand is free; here it is
  always a pending task, which may also go on at once, so the model has those runs and more. Members
  the code never reads (\<open>content_length_\<close>, \<open>socket_shutdown_flag_\<close>) and the references of
  \<open>Context\<close>, which name members of the session, are left out.
\<close>

section \<open>State\<close>

abbreviation APP_NAME :: string where "APP_NAME \<equiv> ''market-bridge''"
abbreviation APP_VERSION :: string where "APP_VERSION \<equiv> ''1.0.1''"

abbreviation buffer_size :: nat where "buffer_size \<equiv> 4096"

record UpstreamInfo =
  ui_host :: string
  ui_port :: u16
  ui_ignore_certificate_verification :: bool

datatype task =
    T_start \<comment> \<open>\<open>start_impl\<close> spawned\<close>
  | T_read \<comment> \<open>reading the request header\<close>
  | T_timer \<comment> \<open>the header timer is armed\<close>
  | T_timer_done error_code \<comment> \<open>the timer's handler is queued\<close>
  | T_timeout error_code \<comment> \<open>\<open>on_header_timeout\<close> spawned\<close>
  | T_timeout_write
  | T_disallow \<comment> \<open>\<open>on_request_disallow\<close> spawned\<close>
  | T_disallow_write
  | T_health HttpRequest \<comment> \<open>\<open>on_health_request\<close> spawned\<close>
  | T_health_write
  | T_out_start \<comment> \<open>the outgoing session's \<open>start_impl\<close> spawned\<close>
  | T_out_resolve
  | T_out_connect
  | T_out_handshake
  | T_out_write
  | T_out_read
  | T_complete_write
  | T_stop \<comment> \<open>the handler \<open>stop\<close> dispatches to the strand\<close>

datatype verify_mode = Verify_none | Verify_peer string

datatype effect =
    Start_timer nat | Timer_expired | Cancel_timer
  | Read_until string
  | Limiter_said bool
  | Client_write task string \<comment> \<open>\<open>async_write\<close> of the text, and the task that goes on after it\<close>
  | Client_shutdown
  | Set_verify verify_mode
  | Resolve string string | Connect | Tls_handshake
  | Upstream_write string
  | Upstream_chunk string \<comment> \<open>bytes received from upstream\<close>

text \<open>The outgoing session's own members.\<close>

record outgoing =
  og_buffer :: string
  og_response :: string
  og_http_request :: string

record http_session =
  hs_base :: session_base
  hs_stream :: http_stream
  hs_request :: HttpRequest
  hs_buffer :: string
  hs_raw_request :: string
  hs_response :: string
  hs_rate_limiter :: limiter
  hs_upstream_info :: UpstreamInfo
  hs_outgoing :: "outgoing option"
  hs_tasks :: "task list"
  hs_trace :: "effect list"

definition spawn :: "task \<Rightarrow> http_session \<Rightarrow> http_session" where
  "spawn t s = s\<lparr>hs_tasks := hs_tasks s @ [t]\<rparr>"

definition emit :: "effect \<Rightarrow> http_session \<Rightarrow> http_session" where
  "emit e s = s\<lparr>hs_trace := hs_trace s @ [e]\<rparr>"

text \<open>Starting an asynchronous operation: the effect, and the code that resumes after it.\<close>

definition start_async :: "effect \<Rightarrow> task \<Rightarrow> http_session \<Rightarrow> http_session" where
  "start_async e t s = spawn t (emit e s)"

definition async_write_client :: "task \<Rightarrow> http_session \<Rightarrow> http_session" where
  "async_write_client t s = start_async (Client_write t (hs_response s)) t s"

section \<open>The outgoing session\<close>

definition new_outgoing :: outgoing where
  "new_outgoing = \<lparr>og_buffer = replicate buffer_size NUL, og_response = [], og_http_request = []\<rparr>"

definition upd_outgoing :: "(outgoing \<Rightarrow> outgoing) \<Rightarrow> http_session \<Rightarrow> http_session" where
  "upd_outgoing f s = s\<lparr>hs_outgoing := map_option f (hs_outgoing s)\<rparr>"

definition outgoing_start :: "http_session \<Rightarrow> http_session" where
  "outgoing_start s = spawn T_out_start s"

definition generate_request :: "HttpRequest \<Rightarrow> UpstreamInfo \<Rightarrow> string" where
  "generate_request request upstream =
     (let user_agent =
        (case map_find (rq_headers request) ''User-Agent'' of
           Some v \<Rightarrow> v
         | None \<Rightarrow> ''market-bridge/1.0.0'')
      in ''GET '' @ rq_target request @ '' HTTP/1.1'' @ crlf
         @ ''Host: '' @ ui_host upstream @ crlf
         @ ''User-Agent: '' @ user_agent @ crlf
         @ ''Accept: */*'' @ crlf
         @ ''Connection: close'' @ crlf
         @ crlf)"

text \<open>\<open>sni_ok\<close>: the result of \<open>SSL_set_tlsext_host_name\<close>.\<close>

definition init_ssl :: "bool \<Rightarrow> http_session \<Rightarrow> bool \<times> http_session" where
  "init_ssl sni_ok s =
     (let u = hs_upstream_info s;
          mode = (if ui_ignore_certificate_verification u then Verify_none else Verify_peer (ui_host u))
      in (sni_ok, emit (Set_verify mode) s))"

definition outgoing_start_impl :: "bool \<Rightarrow> http_session \<Rightarrow> http_session" where
  "outgoing_start_impl sni_ok s =
     (let (ok, s) = init_ssl sni_ok s; u = hs_upstream_info s
      in if \<not> ok then s
         else start_async (Resolve (ui_host u) (to_dec (unat (ui_port u)))) T_out_resolve s)"

definition outgoing_connect :: "error_code \<Rightarrow> http_session \<Rightarrow> http_session" where
  "outgoing_connect ec s = (if check_ec ec then start_async Connect T_out_connect s else s)"

definition outgoing_on_connect :: "error_code \<Rightarrow> http_session \<Rightarrow> http_session" where
  "outgoing_on_connect ec s = (if check_ec ec then start_async Tls_handshake T_out_handshake s else s)"

text \<open>
  After the handshake. It is awaited without \<open>as_tuple\<close>: an error is thrown, leaves the coroutines
  that wait for each other, and is dropped by \<open>asio::detached\<close>.
\<close>

definition outgoing_send_request :: "error_code \<Rightarrow> http_session \<Rightarrow> http_session" where
  "outgoing_send_request ec s =
     (if ec = Success then
        let http_request = generate_request (hs_request s) (hs_upstream_info s)
        in start_async (Upstream_write http_request) T_out_write
             (upd_outgoing (\<lambda>g. g\<lparr>og_http_request := http_request\<rparr>) s)
      else s)"

definition outgoing_read_response :: "error_code \<Rightarrow> http_session \<Rightarrow> http_session" where
  "outgoing_read_response ec s = (if check_ec ec then spawn T_out_read s else s)"

definition on_outgoing_session_completed :: "string \<Rightarrow> http_session \<Rightarrow> http_session" where
  "on_outgoing_session_completed response s =
     async_write_client T_complete_write (s\<lparr>hs_response := response\<rparr>)"

text \<open>One turn of the loop of \<open>read_response\<close>: \<open>data\<close> is what the read put into the buffer.\<close>

definition outgoing_read_done :: "error_code \<Rightarrow> string \<Rightarrow> http_session \<Rightarrow> http_session" where
  "outgoing_read_done ec data s =
     (case hs_outgoing s of
        None \<Rightarrow> s
      | Some g \<Rightarrow>
          (if is_eof ec then on_outgoing_session_completed (og_response g) s
           else if \<not> check_ec ec then s
           else
             let n = length data; buffer = data @ drop n (og_buffer g)
             in spawn T_out_read (emit (Upstream_chunk data)
                  (upd_outgoing (\<lambda>g. g\<lparr>og_buffer := buffer, og_response := og_response g @ take n buffer\<rparr>) s))))"

section \<open>The HTTP session\<close>

definition HTTPSession :: "Config \<Rightarrow> http_stream \<Rightarrow> u64 \<Rightarrow> limiter \<Rightarrow> http_session" where
  "HTTPSession cfg socket sid rate_limiter =
     \<lparr>hs_base = SessionBase sid, hs_stream = socket, hs_request = new_request, hs_buffer = [],
      hs_raw_request = [], hs_response = [], hs_rate_limiter = rate_limiter,
      hs_upstream_info =
        \<lparr>ui_host = up_host (cfg_upstream cfg), ui_port = up_port (cfg_upstream cfg),
         ui_ignore_certificate_verification = ignore_certificate_verification (cfg_upstream cfg)\<rparr>,
      hs_outgoing = None, hs_tasks = [], hs_trace = []\<rparr>"

definition hs_start :: "http_session \<Rightarrow> http_session" where
  "hs_start s = spawn T_start s"

definition hs_stop :: "http_session \<Rightarrow> http_session" where
  "hs_stop s = spawn T_stop s"

definition shutdown :: "http_session \<Rightarrow> http_session" where
  "shutdown s =
     emit Client_shutdown (s\<lparr>hs_stream := on_lowest_socket (socket_close \<circ> socket_shutdown) (hs_stream s)\<rparr>)"

text \<open>The handler \<open>stop\<close> dispatches.\<close>

definition on_stop :: "http_session \<Rightarrow> http_session" where
  "on_stop s =
     (let (won, b) = request_stop (hs_base s); s = s\<lparr>hs_base := b\<rparr>
      in if won then shutdown s else s)"

text \<open>\<open>verify_paths\<close>: whether \<open>set_default_verify_paths\<close> returned or threw.\<close>

definition init_tls_context :: "unit result \<Rightarrow> bool" where
  "init_tls_context verify_paths = (case verify_paths of Inl _ \<Rightarrow> False | Inr _ \<Rightarrow> True)"

definition obtain_header :: "http_session \<Rightarrow> http_session" where
  "obtain_header s =
     start_async (Read_until http_request_headers_delimiter) T_read (start_async (Start_timer 5) T_timer s)"

definition start_impl :: "unit result \<Rightarrow> http_session \<Rightarrow> http_session" where
  "start_impl verify_paths s = (if \<not> init_tls_context verify_paths then s else obtain_header s)"

text \<open>
  \<open>steady_timer::cancel\<close>: a wait that has not expired completes with \<open>operation_aborted\<close>; the
  handler of one that has is already queued and is not affected.
\<close>

definition cancel_timer :: "http_session \<Rightarrow> http_session" where
  "cancel_timer s =
     emit Cancel_timer
       (s\<lparr>hs_tasks := map (\<lambda>t. if t = T_timer then T_timer_done Operation_aborted else t) (hs_tasks s)\<rparr>)"

definition on_request :: "time \<Rightarrow> HttpRequest \<Rightarrow> http_session \<Rightarrow> http_session" where
  "on_request now request s =
     (if is_stopped (hs_base s) then s
      else
        let (ok, l) = rl_allow now (hs_rate_limiter s);
            s = emit (Limiter_said ok) (s\<lparr>hs_rate_limiter := l\<rparr>)
        in if \<not> ok then spawn T_disallow s
           else if rq_target request = ''/health'' then spawn (T_health request) s
           else outgoing_start (s\<lparr>hs_request := request, hs_outgoing := Some new_outgoing\<rparr>))"

definition on_header_obtained :: "error_code \<Rightarrow> nat \<Rightarrow> time \<Rightarrow> http_session \<Rightarrow> http_session" where
  "on_header_obtained ec bytes_transferred now s =
     (if is_aborted ec \<or> is_stopped (hs_base s) then s
      else if \<not> check_ec ec then hs_stop s
      else
        let s = s\<lparr>hs_raw_request := take bytes_transferred (hs_buffer s),
                  hs_buffer := drop bytes_transferred (hs_buffer s)\<rparr>
        in on_request now (parse_request (hs_raw_request s)) s)"

text \<open>\<open>obtain_header\<close> after the read.\<close>

definition header_read :: "error_code \<Rightarrow> nat \<Rightarrow> time \<Rightarrow> http_session \<Rightarrow> http_session" where
  "header_read ec bytes_transferred now s =
     (if \<not> check_ec ec then s else on_header_obtained ec bytes_transferred now (cancel_timer s))"

text \<open>The timer's completion handler.\<close>

definition on_timer :: "error_code \<Rightarrow> http_session \<Rightarrow> http_session" where
  "on_timer ec s = (if \<not> is_aborted ec then spawn (T_timeout ec) s else s)"

definition timeout_response :: string where
  "timeout_response =
     response_to_string (generate_http_response RequestTimeout ''Request Timeout'' [] TextPlain Close)"

definition on_header_timeout :: "error_code \<Rightarrow> http_session \<Rightarrow> http_session" where
  "on_header_timeout ec s =
     (if is_cancelled ec then s
      else if \<not> check_ec ec then hs_stop s
      else
        let (won, b) = request_stop (hs_base s); s = s\<lparr>hs_base := b\<rparr>
        in if \<not> won then s
           else async_write_client T_timeout_write (s\<lparr>hs_response := timeout_response\<rparr>))"

definition health_body :: string where
  "health_body =
     [LF] @ replicate 36 CHR '' '' @ ''{'' @ [LF]
     @ replicate 40 CHR '' '' @ ''\"service\": \"'' @ APP_NAME @ ''\",'' @ [LF]
     @ replicate 40 CHR '' '' @ ''\"status\": \"'' @ ''UP'' @ ''\",'' @ [LF]
     @ replicate 40 CHR '' '' @ ''\"version\": \"'' @ APP_VERSION @ ''\" '' @ [LF]
     @ replicate 36 CHR '' '' @ ''}''"

definition health_response :: HttpResponse where
  "health_response =
     \<lparr>rs_status_code = code_value OK, rs_reason = ''OK'',
      rs_headers =
        map_put ''Connection'' ''close''
          (map_put ''Content-Length'' (to_dec (length health_body))
             (map_put ''Content-Type'' ''application/json'' [])),
      rs_body = health_body\<rparr>"

definition on_health_request :: "HttpRequest \<Rightarrow> http_session \<Rightarrow> http_session" where
  "on_health_request request s =
     async_write_client T_health_write (s\<lparr>hs_response := response_to_string health_response\<rparr>)"

definition disallow_body :: string where
  "disallow_body =
     [LF] @ replicate 32 CHR '' '' @ ''{'' @ [LF]
     @ replicate 36 CHR '' '' @ ''\"status\": \"'' @ to_dec_int (code_value TooManyRequests) @ ''\",'' @ [LF]
     @ replicate 36 CHR '' '' @ ''\"error\": \"'' @ ''Too Many Requests'' @ ''\"'' @ [LF]
     @ replicate 32 CHR '' '' @ ''}''"

definition disallow_response :: HttpResponse where
  "disallow_response =
     (let r = generate_http_response TooManyRequests ''Too Many Requests'' disallow_body ApplicationJson Close
      in r\<lparr>rs_headers := map_put ''Retry-After'' ''1'' (rs_headers r)\<rparr>)"

definition on_request_disallow :: "http_session \<Rightarrow> http_session" where
  "on_request_disallow s =
     async_write_client T_disallow_write (s\<lparr>hs_response := response_to_string disallow_response\<rparr>)"

text \<open>
  After the writes: a timeout and a forwarded response shut the connection down; the other two
  responses leave that to the destructor of the session, which nothing refers to any more.
\<close>

definition client_written :: "task \<Rightarrow> http_session \<Rightarrow> http_session" where
  "client_written t s = (if t = T_timeout_write \<or> t = T_complete_write then shutdown s else s)"

section \<open>Events\<close>

datatype event =
    Ev_start "unit result"
  | Ev_read error_code string nat time \<comment> \<open>result, content of the buffer, bytes up to the delimiter, clock\<close>
  | Ev_expire \<comment> \<open>five seconds have passed\<close>
  | Ev_timer error_code
  | Ev_timeout error_code
  | Ev_disallow
  | Ev_health HttpRequest
  | Ev_out_start bool
  | Ev_out_resolved error_code
  | Ev_out_connected error_code
  | Ev_out_handshaken error_code
  | Ev_out_written error_code
  | Ev_out_read error_code string
  | Ev_client_written task error_code
  | Ev_stop_call \<comment> \<open>\<open>stop()\<close> called from outside\<close>
  | Ev_stop
  | Ev_limiter limiter \<comment> \<open>other sessions have used the shared limiter\<close>

text \<open>A pending task leaves the list when it goes on.\<close>

definition resume :: "task \<Rightarrow> (http_session \<Rightarrow> http_session) \<Rightarrow> http_session \<Rightarrow> http_session option" where
  "resume t f s =
     (if t \<in> set (hs_tasks s) then Some (f (s\<lparr>hs_tasks := remove1 t (hs_tasks s)\<rparr>)) else None)"

text \<open>
  What \<open>async_read_until\<close> promises on success: the first \<open>n\<close> bytes of the buffer end with the
  first occurrence of the delimiter.
\<close>

definition delimited :: "string \<Rightarrow> string \<Rightarrow> nat \<Rightarrow> bool" where
  "delimited d buf n \<longleftrightarrow>
     n \<le> length buf \<and> suffix d (take n buf) \<and> \<not> sublist d (butlast (take n buf))"

definition is_client_write :: "task \<Rightarrow> bool" where
  "is_client_write t \<longleftrightarrow> t \<in> {T_timeout_write, T_disallow_write, T_health_write, T_complete_write}"

fun hs_event :: "event \<Rightarrow> http_session \<Rightarrow> http_session option" where
  "hs_event (Ev_start r) s = resume T_start (start_impl r) s"
| "hs_event (Ev_read ec buf n now) s =
     (if ec = Success \<longrightarrow> delimited http_request_headers_delimiter buf n
      then resume T_read (\<lambda>s. header_read ec n now (s\<lparr>hs_buffer := buf\<rparr>)) s else None)"
| "hs_event Ev_expire s = resume T_timer (\<lambda>s. spawn (T_timer_done Success) (emit Timer_expired s)) s"
| "hs_event (Ev_timer ec) s = resume (T_timer_done ec) (on_timer ec) s"
| "hs_event (Ev_timeout ec) s = resume (T_timeout ec) (on_header_timeout ec) s"
| "hs_event Ev_disallow s = resume T_disallow on_request_disallow s"
| "hs_event (Ev_health r) s = resume (T_health r) (on_health_request r) s"
| "hs_event (Ev_out_start sni_ok) s = resume T_out_start (outgoing_start_impl sni_ok) s"
| "hs_event (Ev_out_resolved ec) s = resume T_out_resolve (outgoing_connect ec) s"
| "hs_event (Ev_out_connected ec) s = resume T_out_connect (outgoing_on_connect ec) s"
| "hs_event (Ev_out_handshaken ec) s = resume T_out_handshake (outgoing_send_request ec) s"
| "hs_event (Ev_out_written ec) s = resume T_out_write (outgoing_read_response ec) s"
| "hs_event (Ev_out_read ec data) s =
     (if length data \<le> buffer_size then resume T_out_read (outgoing_read_done ec data) s else None)"
| "hs_event (Ev_client_written t ec) s =
     (if is_client_write t then resume t (client_written t) s else None)"
| "hs_event Ev_stop_call s = Some (hs_stop s)"
| "hs_event Ev_stop s = resume T_stop on_stop s"
| "hs_event (Ev_limiter l) s = Some (s\<lparr>hs_rate_limiter := l\<rparr>)"

text \<open>A session from its construction and start through a list of events.\<close>

definition hs_run :: "Config \<Rightarrow> http_stream \<Rightarrow> u64 \<Rightarrow> limiter \<Rightarrow> event list \<Rightarrow> http_session option" where
  "hs_run cfg socket sid l evs = run_events hs_event evs (hs_start (HTTPSession cfg socket sid l))"

end
