(* ===== verification/Http_Session_Inv.thy ===== *)
theory Http_Session_Inv
  imports Http_Session
begin

text \<open>
  The invariant of the HTTP session: how far each of its two chains of coroutines (the request
  and the header timer) has come, and what the trace then holds. The request chain has at most one
  pending task, the timer chain at most one, and pending stops are independent of both.
\<close>

section \<open>Reading the trace\<close>

fun limiter_answer :: "effect \<Rightarrow> bool list" where
  "limiter_answer (Limiter_said b) = [b]"
| "limiter_answer _ = []"

fun client_write :: "effect \<Rightarrow> (task \<times> string) list" where
  "client_write (Client_write t b) = [(t, b)]"
| "client_write _ = []"

fun upstream_chunk :: "effect \<Rightarrow> string list" where
  "upstream_chunk (Upstream_chunk c) = [c]"
| "upstream_chunk _ = []"

fun upstream_write :: "effect \<Rightarrow> string list" where
  "upstream_write (Upstream_write b) = [b]"
| "upstream_write _ = []"

definition limiter_answers :: "effect list \<Rightarrow> bool list" where
  "limiter_answers tr = concat (map limiter_answer tr)"

definition client_writes :: "effect list \<Rightarrow> (task \<times> string) list" where
  "client_writes tr = concat (map client_write tr)"

definition upstream_chunks :: "effect list \<Rightarrow> string list" where
  "upstream_chunks tr = concat (map upstream_chunk tr)"

definition upstream_writes :: "effect list \<Rightarrow> string list" where
  "upstream_writes tr = concat (map upstream_write tr)"

fun is_upstream_effect :: "effect \<Rightarrow> bool" where
  "is_upstream_effect (Set_verify _) = True"
| "is_upstream_effect (Resolve _ _) = True"
| "is_upstream_effect Connect = True"
| "is_upstream_effect Tls_handshake = True"
| "is_upstream_effect (Upstream_write _) = True"
| "is_upstream_effect (Upstream_chunk _) = True"
| "is_upstream_effect _ = False"

definition touches_upstream :: "effect list \<Rightarrow> bool" where
  "touches_upstream tr \<longleftrightarrow> list_ex is_upstream_effect tr"

lemma no_upstream_chunks: "\<not> touches_upstream tr \<Longrightarrow> upstream_chunks tr = []"
proof (induction tr)
  case (Cons e tr)
  then show ?case by (cases e) (simp_all add: touches_upstream_def upstream_chunks_def)
qed (simp add: upstream_chunks_def)

text \<open>The writes of the request chain, and those of the timer chain.\<close>

definition request_writes :: "effect list \<Rightarrow> (task \<times> string) list" where
  "request_writes tr = filter (\<lambda>w. fst w \<noteq> T_timeout_write) (client_writes tr)"

definition timeout_writes :: "effect list \<Rightarrow> (task \<times> string) list" where
  "timeout_writes tr = filter (\<lambda>w. fst w = T_timeout_write) (client_writes tr)"

text \<open>The header arrived when the timer had already expired.\<close>

definition expired_before_cancel :: "effect list \<Rightarrow> bool" where
  "expired_before_cancel tr \<longleftrightarrow> Cancel_timer \<in> set (dropWhile (\<lambda>e. e \<noteq> Timer_expired) tr)"

lemmas trace_defs = limiter_answers_def client_writes_def upstream_chunks_def upstream_writes_def
  touches_upstream_def request_writes_def timeout_writes_def

lemma trace_append [simp]:
  "limiter_answers (tr @ es) = limiter_answers tr @ limiter_answers es"
  "client_writes (tr @ es) = client_writes tr @ client_writes es"
  "upstream_chunks (tr @ es) = upstream_chunks tr @ upstream_chunks es"
  "upstream_writes (tr @ es) = upstream_writes tr @ upstream_writes es"
  "touches_upstream (tr @ es) \<longleftrightarrow> touches_upstream tr \<or> touches_upstream es"
  "request_writes (tr @ es) = request_writes tr @ request_writes es"
  "timeout_writes (tr @ es) = timeout_writes tr @ timeout_writes es"
  by (simp_all add: trace_defs)

lemma trace_Cons [simp]:
  "limiter_answers (e # es) = limiter_answer e @ limiter_answers es"
  "client_writes (e # es) = client_write e @ client_writes es"
  "upstream_chunks (e # es) = upstream_chunk e @ upstream_chunks es"
  "upstream_writes (e # es) = upstream_write e @ upstream_writes es"
  "touches_upstream (e # es) \<longleftrightarrow> is_upstream_effect e \<or> touches_upstream es"
  "request_writes (e # es) = filter (\<lambda>w. fst w \<noteq> T_timeout_write) (client_write e) @ request_writes es"
  "timeout_writes (e # es) = filter (\<lambda>w. fst w = T_timeout_write) (client_write e) @ timeout_writes es"
  by (simp_all add: trace_defs)

lemma trace_Nil [simp]:
  "limiter_answers [] = []" "client_writes [] = []" "upstream_chunks [] = []"
  "upstream_writes [] = []" "\<not> touches_upstream []" "request_writes [] = []" "timeout_writes [] = []"
  by (simp_all add: trace_defs)

lemma expired_before_cancel_simps [simp]:
  "\<not> expired_before_cancel []"
  "expired_before_cancel (e # es) \<longleftrightarrow>
     (if e = Timer_expired then Cancel_timer \<in> set es else expired_before_cancel es)"
  by (simp_all add: expired_before_cancel_def)

lemma expired_before_cancel_append [simp]:
  "expired_before_cancel (tr @ es) \<longleftrightarrow>
     expired_before_cancel tr \<or> expired_before_cancel es
     \<or> Timer_expired \<in> set tr \<and> Cancel_timer \<in> set es"
proof (cases "Timer_expired \<in> set tr")
  case True
  then show ?thesis
    by (auto simp: expired_before_cancel_def dropWhile_append dest: set_dropWhileD)
next
  case False
  then have "dropWhile (\<lambda>e. e \<noteq> Timer_expired) tr = []" by auto
  with False show ?thesis by (auto simp: expired_before_cancel_def dropWhile_append)
qed

section \<open>The two chains\<close>

fun is_timer_task :: "task \<Rightarrow> bool" where
  "is_timer_task T_timer = True"
| "is_timer_task (T_timer_done _) = True"
| "is_timer_task (T_timeout _) = True"
| "is_timer_task T_timeout_write = True"
| "is_timer_task _ = False"

definition is_request_task :: "task \<Rightarrow> bool" where
  "is_request_task t \<longleftrightarrow> \<not> is_timer_task t \<and> t \<noteq> T_stop"

definition request_tasks :: "http_session \<Rightarrow> task list" where
  "request_tasks s = filter is_request_task (hs_tasks s)"

definition timer_tasks :: "http_session \<Rightarrow> task list" where
  "timer_tasks s = filter is_timer_task (hs_tasks s)"

lemma filter_remove1_other: "\<not> P x \<Longrightarrow> filter P (remove1 x xs) = filter P xs"
  by (induction xs) auto

lemma filter_remove1_single:
  "P x \<Longrightarrow> x \<in> set xs \<Longrightarrow> length (filter P xs) \<le> 1 \<Longrightarrow>
     filter P xs = [x] \<and> filter P (remove1 x xs) = []"
  by (induction xs) (auto split: if_splits simp: filter_empty_conv)

lemma spawn_simps [simp]:
  "hs_tasks (spawn t s) = hs_tasks s @ [t]" "hs_trace (spawn t s) = hs_trace s"
  "hs_base (spawn t s) = hs_base s" "hs_stream (spawn t s) = hs_stream s"
  "hs_request (spawn t s) = hs_request s" "hs_raw_request (spawn t s) = hs_raw_request s"
  "hs_response (spawn t s) = hs_response s" "hs_rate_limiter (spawn t s) = hs_rate_limiter s"
  "hs_upstream_info (spawn t s) = hs_upstream_info s" "hs_outgoing (spawn t s) = hs_outgoing s"
  "hs_buffer (spawn t s) = hs_buffer s"
  by (simp_all add: spawn_def)

lemma emit_simps [simp]:
  "hs_trace (emit e s) = hs_trace s @ [e]" "hs_tasks (emit e s) = hs_tasks s"
  "hs_base (emit e s) = hs_base s" "hs_stream (emit e s) = hs_stream s"
  "hs_request (emit e s) = hs_request s" "hs_raw_request (emit e s) = hs_raw_request s"
  "hs_response (emit e s) = hs_response s" "hs_rate_limiter (emit e s) = hs_rate_limiter s"
  "hs_upstream_info (emit e s) = hs_upstream_info s" "hs_outgoing (emit e s) = hs_outgoing s"
  "hs_buffer (emit e s) = hs_buffer s"
  by (simp_all add: emit_def)

section \<open>The invariant\<close>

text \<open>What the request chain has done, by its pending task.\<close>

definition untouched :: "http_session \<Rightarrow> bool" where
  "untouched s \<longleftrightarrow>
     limiter_answers (hs_trace s) = [] \<and> request_writes (hs_trace s) = []
     \<and> \<not> touches_upstream (hs_trace s) \<and> upstream_writes (hs_trace s) = []"

definition refused :: "(task \<times> string) list \<Rightarrow> http_session \<Rightarrow> bool" where
  "refused ws s \<longleftrightarrow>
     limiter_answers (hs_trace s) = [False] \<and> request_writes (hs_trace s) = ws
     \<and> \<not> touches_upstream (hs_trace s) \<and> upstream_writes (hs_trace s) = []"

definition checked_health :: "(task \<times> string) list \<Rightarrow> http_session \<Rightarrow> bool" where
  "checked_health ws s \<longleftrightarrow>
     limiter_answers (hs_trace s) = [True] \<and> request_writes (hs_trace s) = ws
     \<and> \<not> touches_upstream (hs_trace s) \<and> upstream_writes (hs_trace s) = []
     \<and> rq_target (parse_request (hs_raw_request s)) = ''/health''"

definition forwarding :: "(task \<times> string) list \<Rightarrow> string list \<Rightarrow> http_session \<Rightarrow> bool" where
  "forwarding ws us s \<longleftrightarrow>
     limiter_answers (hs_trace s) = [True] \<and> request_writes (hs_trace s) = ws
     \<and> upstream_writes (hs_trace s) = us
     \<and> hs_request s = parse_request (hs_raw_request s) \<and> rq_target (hs_request s) \<noteq> ''/health''
     \<and> (\<exists>g. hs_outgoing s = Some g \<and> og_response g = concat (upstream_chunks (hs_trace s)))"

abbreviation disallow_write :: "task \<times> string" where
  "disallow_write \<equiv> (T_disallow_write, response_to_string disallow_response)"
abbreviation health_write :: "task \<times> string" where
  "health_write \<equiv> (T_health_write, response_to_string health_response)"
abbreviation complete_write :: "http_session \<Rightarrow> task \<times> string" where
  "complete_write s \<equiv> (T_complete_write, concat (upstream_chunks (hs_trace s)))"
abbreviation forwarded_text :: "http_session \<Rightarrow> string" where
  "forwarded_text s \<equiv> generate_request (hs_request s) (hs_upstream_info s)"

definition request_done :: "http_session \<Rightarrow> bool" where
  "request_done s \<longleftrightarrow>
     untouched s \<or> refused [disallow_write] s \<or> checked_health [health_write] s
     \<or> forwarding [] [] s \<or> forwarding [] [forwarded_text s] s
     \<or> forwarding [complete_write s] [forwarded_text s] s"

fun request_at :: "task list \<Rightarrow> http_session \<Rightarrow> bool" where
  "request_at [] s = request_done s"
| "request_at [T_start] s = (untouched s \<and> timer_tasks s = [] \<and> Cancel_timer \<notin> set (hs_trace s)
     \<and> Timer_expired \<notin> set (hs_trace s))"
| "request_at [T_read] s = (untouched s \<and> Cancel_timer \<notin> set (hs_trace s))"
| "request_at [T_disallow] s = refused [] s"
| "request_at [T_disallow_write] s = refused [disallow_write] s"
| "request_at [T_health r] s = checked_health [] s"
| "request_at [T_health_write] s = checked_health [health_write] s"
| "request_at [T_out_start] s = forwarding [] [] s"
| "request_at [T_out_resolve] s = forwarding [] [] s"
| "request_at [T_out_connect] s = forwarding [] [] s"
| "request_at [T_out_handshake] s = forwarding [] [] s"
| "request_at [T_out_write] s = forwarding [] [forwarded_text s] s"
| "request_at [T_out_read] s = forwarding [] [forwarded_text s] s"
| "request_at [T_complete_write] s = forwarding [complete_write s] [forwarded_text s] s"
| "request_at _ s = False"

abbreviation expired :: "http_session \<Rightarrow> bool" where
  "expired s \<equiv> Timer_expired \<in> set (hs_trace s)"
abbreviation cancelled :: "http_session \<Rightarrow> bool" where
  "cancelled s \<equiv> Cancel_timer \<in> set (hs_trace s)"
abbreviation stopped :: "http_session \<Rightarrow> bool" where
  "stopped s \<equiv> sb_stopped (hs_base s)"
abbreviation the_timeout_write :: "task \<times> string" where
  "the_timeout_write \<equiv> (T_timeout_write, timeout_response)"

fun timer_at :: "task list \<Rightarrow> http_session \<Rightarrow> bool" where
  "timer_at [] s = (timeout_writes (hs_trace s) = []
     \<or> timeout_writes (hs_trace s) = [the_timeout_write] \<and> stopped s \<and> expired s)"
| "timer_at [T_timer] s = (timeout_writes (hs_trace s) = [] \<and> \<not> expired s \<and> \<not> cancelled s)"
| "timer_at [T_timer_done ec] s = (timeout_writes (hs_trace s) = []
     \<and> (ec = Success \<and> expired s \<or> ec = Operation_aborted \<and> cancelled s \<and> \<not> expired s))"
| "timer_at [T_timeout ec] s = (timeout_writes (hs_trace s) = [] \<and> ec = Success \<and> expired s)"
| "timer_at [T_timeout_write] s =
     (timeout_writes (hs_trace s) = [the_timeout_write] \<and> stopped s \<and> expired s)"
| "timer_at _ s = False"

definition socket_open :: "http_session \<Rightarrow> bool" where
  "socket_open s \<longleftrightarrow> so_open (lowest_socket (hs_stream s))"

definition hs_inv :: "UpstreamInfo \<Rightarrow> http_session \<Rightarrow> bool" where
  "hs_inv u s \<longleftrightarrow>
     hs_upstream_info s = u
     \<and> request_at (request_tasks s) s
     \<and> timer_at (timer_tasks s) s
     \<and> (expired s \<and> cancelled s \<longrightarrow> expired_before_cancel (hs_trace s))
     \<and> (limiter_answers (hs_trace s) \<noteq> [] \<longrightarrow> cancelled s)
     \<and> (stopped s \<longrightarrow> \<not> socket_open s \<or> timer_tasks s = [T_timeout_write])"

section \<open>Every event keeps it\<close>

lemma is_request_task_simps [simp]:
  "is_request_task T_start" "is_request_task T_read" "is_request_task T_disallow"
  "is_request_task T_disallow_write" "is_request_task (T_health r)" "is_request_task T_health_write"
  "is_request_task T_out_start" "is_request_task T_out_resolve" "is_request_task T_out_connect"
  "is_request_task T_out_handshake" "is_request_task T_out_write" "is_request_task T_out_read"
  "is_request_task T_complete_write" "\<not> is_request_task T_timer" "\<not> is_request_task (T_timer_done ec)"
  "\<not> is_request_task (T_timeout ec)" "\<not> is_request_task T_timeout_write" "\<not> is_request_task T_stop"
  by (simp_all add: is_request_task_def)

lemma request_at_length: "request_at ts s \<Longrightarrow> length ts \<le> 1"
  by (cases "(ts, s)" rule: request_at.cases) simp_all

lemma timer_at_length: "timer_at ts s \<Longrightarrow> length ts \<le> 1"
  by (cases "(ts, s)" rule: timer_at.cases) simp_all

lemma tasks_simps [simp]:
  "request_tasks (spawn t s) = request_tasks s @ (if is_request_task t then [t] else [])"
  "timer_tasks (spawn t s) = timer_tasks s @ (if is_timer_task t then [t] else [])"
  "request_tasks (emit e s) = request_tasks s"
  "timer_tasks (emit e s) = timer_tasks s"
  by (simp_all add: request_tasks_def timer_tasks_def)

lemma tasks_fields [simp]:
  "request_tasks (s\<lparr>hs_base := b\<rparr>) = request_tasks s" "timer_tasks (s\<lparr>hs_base := b\<rparr>) = timer_tasks s"
  "request_tasks (s\<lparr>hs_stream := x\<rparr>) = request_tasks s" "timer_tasks (s\<lparr>hs_stream := x\<rparr>) = timer_tasks s"
  "request_tasks (s\<lparr>hs_response := r\<rparr>) = request_tasks s" "timer_tasks (s\<lparr>hs_response := r\<rparr>) = timer_tasks s"
  "request_tasks (s\<lparr>hs_buffer := r\<rparr>) = request_tasks s" "timer_tasks (s\<lparr>hs_buffer := r\<rparr>) = timer_tasks s"
  "request_tasks (s\<lparr>hs_raw_request := r\<rparr>) = request_tasks s"
  "timer_tasks (s\<lparr>hs_raw_request := r\<rparr>) = timer_tasks s"
  "request_tasks (s\<lparr>hs_rate_limiter := l\<rparr>) = request_tasks s"
  "timer_tasks (s\<lparr>hs_rate_limiter := l\<rparr>) = timer_tasks s"
  "request_tasks (s\<lparr>hs_request := q\<rparr>) = request_tasks s" "timer_tasks (s\<lparr>hs_request := q\<rparr>) = timer_tasks s"
  "request_tasks (s\<lparr>hs_outgoing := g\<rparr>) = request_tasks s" "timer_tasks (s\<lparr>hs_outgoing := g\<rparr>) = timer_tasks s"
  by (simp_all add: request_tasks_def timer_tasks_def)

lemma request_tasks_cancel [simp]: "request_tasks (cancel_timer s) = request_tasks s"
proof -
  have "filter is_request_task
      (map (\<lambda>t. if t = T_timer then T_timer_done Operation_aborted else t) ts) = filter is_request_task ts" for ts
    by (induction ts) auto
  then show ?thesis by (simp add: cancel_timer_def request_tasks_def emit_def)
qed

lemma timer_tasks_cancel [simp]:
  "timer_tasks (cancel_timer s) =
     map (\<lambda>t. if t = T_timer then T_timer_done Operation_aborted else t) (timer_tasks s)"
proof -
  have "filter is_timer_task
      (map (\<lambda>t. if t = T_timer then T_timer_done Operation_aborted else t) ts) =
    map (\<lambda>t. if t = T_timer then T_timer_done Operation_aborted else t) (filter is_timer_task ts)" for ts
    by (induction ts) auto
  then show ?thesis by (simp add: cancel_timer_def timer_tasks_def emit_def)
qed

lemma cancel_timer_simps [simp]:
  "hs_trace (cancel_timer s) = hs_trace s @ [Cancel_timer]" "hs_base (cancel_timer s) = hs_base s"
  "hs_stream (cancel_timer s) = hs_stream s" "hs_upstream_info (cancel_timer s) = hs_upstream_info s"
  "hs_buffer (cancel_timer s) = hs_buffer s" "hs_rate_limiter (cancel_timer s) = hs_rate_limiter s"
  by (simp_all add: cancel_timer_def)

text \<open>Taking a task off the list, by the chain it belongs to.\<close>

definition drop_task :: "task \<Rightarrow> http_session \<Rightarrow> http_session" where
  "drop_task t s = s\<lparr>hs_tasks := remove1 t (hs_tasks s)\<rparr>"

lemma drop_task_simps [simp]:
  "hs_trace (drop_task t s) = hs_trace s" "hs_base (drop_task t s) = hs_base s"
  "hs_stream (drop_task t s) = hs_stream s" "hs_request (drop_task t s) = hs_request s"
  "hs_raw_request (drop_task t s) = hs_raw_request s" "hs_response (drop_task t s) = hs_response s"
  "hs_rate_limiter (drop_task t s) = hs_rate_limiter s" "hs_outgoing (drop_task t s) = hs_outgoing s"
  "hs_upstream_info (drop_task t s) = hs_upstream_info s" "hs_buffer (drop_task t s) = hs_buffer s"
  by (simp_all add: drop_task_def)

lemma resume_Some: "resume t f s = Some s' \<longleftrightarrow> t \<in> set (hs_tasks s) \<and> s' = f (drop_task t s)"
  by (auto simp: resume_def drop_task_def)

lemma request_task_resumed:
  assumes "hs_inv u s" "t \<in> set (hs_tasks s)" "is_request_task t"
  shows "request_tasks s = [t]" "request_tasks (drop_task t s) = []"
    "timer_tasks (drop_task t s) = timer_tasks s"
  using assms filter_remove1_single [of is_request_task t "hs_tasks s"]
    filter_remove1_other [of is_timer_task t "hs_tasks s"] request_at_length [of "request_tasks s" s]
  by (auto simp: hs_inv_def request_tasks_def timer_tasks_def drop_task_def is_request_task_def)

lemma timer_task_resumed:
  assumes "hs_inv u s" "t \<in> set (hs_tasks s)" "is_timer_task t"
  shows "timer_tasks s = [t]" "timer_tasks (drop_task t s) = []"
    "request_tasks (drop_task t s) = request_tasks s"
  using assms filter_remove1_single [of is_timer_task t "hs_tasks s"]
    filter_remove1_other [of is_request_task t "hs_tasks s"] timer_at_length [of "timer_tasks s" s]
  by (auto simp: hs_inv_def request_tasks_def timer_tasks_def drop_task_def is_request_task_def)

lemma stop_task_resumed:
  "request_tasks (drop_task T_stop s) = request_tasks s"
  "timer_tasks (drop_task T_stop s) = timer_tasks s"
  by (simp_all add: request_tasks_def timer_tasks_def drop_task_def filter_remove1_other)

text \<open>
  The request chain's facts do not depend on the fields and effects the timer chain and the stop
  handler write, and the other way round.
\<close>

lemmas phase_defs = untouched_def refused_def checked_health_def forwarding_def request_done_def

lemma request_at_cong:
  assumes "limiter_answers (hs_trace s') = limiter_answers (hs_trace s)"
    "request_writes (hs_trace s') = request_writes (hs_trace s)"
    "touches_upstream (hs_trace s') = touches_upstream (hs_trace s)"
    "upstream_writes (hs_trace s') = upstream_writes (hs_trace s)"
    "upstream_chunks (hs_trace s') = upstream_chunks (hs_trace s)"
    "hs_request s' = hs_request s" "hs_raw_request s' = hs_raw_request s"
    "hs_outgoing s' = hs_outgoing s" "hs_upstream_info s' = hs_upstream_info s"
    and "ts = [T_start] \<longrightarrow> timer_tasks s' = timer_tasks s \<and> cancelled s' = cancelled s \<and> expired s' = expired s"
    and "ts = [T_read] \<longrightarrow> cancelled s' = cancelled s"
  shows "request_at ts s' = request_at ts s"
  using assms
  by (cases "(ts, s)" rule: request_at.cases) (simp_all add: phase_defs)

lemma timer_at_cong:
  assumes "timeout_writes (hs_trace s') = timeout_writes (hs_trace s)"
    "stopped s' = stopped s" "expired s' = expired s" "cancelled s' = cancelled s"
  shows "timer_at ts s' = timer_at ts s"
  using assms by (cases "(ts, s)" rule: timer_at.cases) simp_all

lemma hs_invD:
  assumes "hs_inv u s"
  shows "hs_upstream_info s = u" "request_at (request_tasks s) s" "timer_at (timer_tasks s) s"
    "expired s \<Longrightarrow> cancelled s \<Longrightarrow> expired_before_cancel (hs_trace s)"
    "limiter_answers (hs_trace s) \<noteq> [] \<Longrightarrow> cancelled s"
    "stopped s \<Longrightarrow> \<not> socket_open s \<or> timer_tasks s = [T_timeout_write]"
  using assms by (auto simp: hs_inv_def)

text \<open>A step of the request chain that leaves the timer alone.\<close>

lemma request_step:
  assumes inv: "hs_inv u s"
    and t: "t \<in> set (hs_tasks s)" "is_request_task t"
    and at: "request_at (request_tasks s') s'"
    and same: "hs_upstream_info s' = hs_upstream_info s" "timer_tasks s' = timer_tasks s"
      "timeout_writes (hs_trace s') = timeout_writes (hs_trace s)" "stopped s' = stopped s"
      "expired s' = expired s" "cancelled s' = cancelled s"
      "limiter_answers (hs_trace s') = limiter_answers (hs_trace s)"
      "expired_before_cancel (hs_trace s') = expired_before_cancel (hs_trace s)"
      "socket_open s' \<Longrightarrow> socket_open s"
  shows "hs_inv u s'"
  using hs_invD [OF inv] at same timer_at_cong [of s' s "timer_tasks s"]
  by (auto simp: hs_inv_def)

lemmas request_handler_defs = outgoing_start_impl_def init_ssl_def outgoing_connect_def
  outgoing_on_connect_def outgoing_send_request_def outgoing_read_response_def outgoing_read_done_def
  on_outgoing_session_completed_def upd_outgoing_def outgoing_start_def
  on_request_disallow_def on_health_request_def start_async_def async_write_client_def

lemma socket_open_cong:
  "hs_stream s' = hs_stream s \<Longrightarrow> socket_open s' = socket_open s"
  by (simp add: socket_open_def)

lemma request_event:
  assumes inv: "hs_inv u s" and t: "t \<in> set (hs_tasks s)" "is_request_task t"
  shows "t = T_out_start \<Longrightarrow> hs_inv u (outgoing_start_impl ok (drop_task t s))"
    and "t = T_out_resolve \<Longrightarrow> hs_inv u (outgoing_connect ec (drop_task t s))"
    and "t = T_out_connect \<Longrightarrow> hs_inv u (outgoing_on_connect ec (drop_task t s))"
    and "t = T_out_handshake \<Longrightarrow> hs_inv u (outgoing_send_request ec (drop_task t s))"
    and "t = T_out_write \<Longrightarrow> hs_inv u (outgoing_read_response ec (drop_task t s))"
    and "t = T_out_read \<Longrightarrow> hs_inv u (outgoing_read_done ec data (drop_task t s))"
    and "t = T_disallow \<Longrightarrow> hs_inv u (on_request_disallow (drop_task t s))"
    and "t = T_health r \<Longrightarrow> hs_inv u (on_health_request r (drop_task t s))"
proof -
  note at = hs_invD(2) [OF inv] request_task_resumed [OF inv t]
  note step = request_step [OF inv t]
  show "t = T_out_start \<Longrightarrow> hs_inv u (outgoing_start_impl ok (drop_task t s))"
    by (rule step; use at in \<open>auto split: if_splits simp: request_handler_defs socket_open_def phase_defs Let_def\<close>)
  show "t = T_out_resolve \<Longrightarrow> hs_inv u (outgoing_connect ec (drop_task t s))"
    by (rule step; use at in \<open>auto split: if_splits simp: request_handler_defs socket_open_def phase_defs Let_def\<close>)
  show "t = T_out_connect \<Longrightarrow> hs_inv u (outgoing_on_connect ec (drop_task t s))"
    by (rule step; use at in \<open>auto split: if_splits simp: request_handler_defs socket_open_def phase_defs Let_def\<close>)
  show "t = T_out_handshake \<Longrightarrow> hs_inv u (outgoing_send_request ec (drop_task t s))"
    by (rule step; use at in \<open>auto simp: request_handler_defs socket_open_def phase_defs Let_def split: option.splits if_splits\<close>)
  show "t = T_out_write \<Longrightarrow> hs_inv u (outgoing_read_response ec (drop_task t s))"
    by (rule step; use at in \<open>auto split: if_splits simp: request_handler_defs socket_open_def phase_defs Let_def\<close>)
  show "t = T_disallow \<Longrightarrow> hs_inv u (on_request_disallow (drop_task t s))"
    by (rule step; use at in \<open>auto split: if_splits simp: request_handler_defs socket_open_def phase_defs Let_def\<close>)
  show "t = T_health r \<Longrightarrow> hs_inv u (on_health_request r (drop_task t s))"
    by (rule step; use at in \<open>auto split: if_splits simp: request_handler_defs socket_open_def phase_defs Let_def\<close>)
  show "t = T_out_read \<Longrightarrow> hs_inv u (outgoing_read_done ec data (drop_task t s))"
    by (rule step; use at in \<open>auto simp: request_handler_defs socket_open_def phase_defs Let_def split: option.splits if_splits\<close>)
qed

lemma start_event:
  assumes inv: "hs_inv u s" and t: "T_start \<in> set (hs_tasks s)"
  shows "hs_inv u (start_impl r (drop_task T_start s))"
proof -
  note at = hs_invD(2) [OF inv] request_task_resumed [OF inv t]
  show ?thesis
    using hs_invD [OF inv] at
    by (auto simp: hs_inv_def start_impl_def obtain_header_def start_async_def phase_defs socket_open_def)
qed

text \<open>A step that leaves both chains alone but for the timer chain's position.\<close>

lemma timer_step:
  assumes inv: "hs_inv u s"
    and t: "t \<in> set (hs_tasks s)" "is_timer_task t"
    and at: "timer_at (timer_tasks s') s'"
    and same: "hs_upstream_info s' = hs_upstream_info s" "request_tasks s' = request_tasks s"
      "limiter_answers (hs_trace s') = limiter_answers (hs_trace s)"
      "request_writes (hs_trace s') = request_writes (hs_trace s)"
      "touches_upstream (hs_trace s') = touches_upstream (hs_trace s)"
      "upstream_writes (hs_trace s') = upstream_writes (hs_trace s)"
      "upstream_chunks (hs_trace s') = upstream_chunks (hs_trace s)"
      "hs_request s' = hs_request s" "hs_raw_request s' = hs_raw_request s"
      "hs_outgoing s' = hs_outgoing s" "cancelled s' = cancelled s"
      "expired s' \<Longrightarrow> cancelled s' \<Longrightarrow> expired_before_cancel (hs_trace s')"
      "stopped s' \<Longrightarrow> \<not> socket_open s' \<or> timer_tasks s' = [T_timeout_write]"
  shows "hs_inv u s'"
proof -
  have "request_tasks s \<noteq> [T_start]"
    using hs_invD(2) [OF inv] timer_task_resumed [OF inv t] by auto
  then have "request_at (request_tasks s) s' = request_at (request_tasks s) s"
    using same by (intro request_at_cong) auto
  with hs_invD [OF inv] at same show ?thesis by (simp add: hs_inv_def)
qed

lemmas timer_handler_defs = on_timer_def on_header_timeout_def request_stop_def is_aborted_def
  is_cancelled_def check_ec_def hs_stop_def start_async_def async_write_client_def
  client_written_def shutdown_def

lemma timer_event:
  assumes inv: "hs_inv u s" and t: "t \<in> set (hs_tasks s)" "is_timer_task t"
  shows "t = T_timer \<Longrightarrow> hs_inv u (spawn (T_timer_done Success) (emit Timer_expired (drop_task t s)))"
    and "t = T_timer_done ec \<Longrightarrow> hs_inv u (on_timer ec (drop_task t s))"
    and "t = T_timeout ec \<Longrightarrow> hs_inv u (on_header_timeout ec (drop_task t s))"
    and "t = T_timeout_write \<Longrightarrow> hs_inv u (client_written t (drop_task t s))"
proof -
  note at = hs_invD(3,4,6) [OF inv] timer_task_resumed [OF inv t]
  note step = timer_step [OF inv t]
  show "t = T_timer \<Longrightarrow> hs_inv u (spawn (T_timer_done Success) (emit Timer_expired (drop_task t s)))"
    by (rule step; use at in \<open>auto simp: socket_open_def\<close>)
  show "t = T_timer_done ec \<Longrightarrow> hs_inv u (on_timer ec (drop_task t s))"
    by (rule step; use at in \<open>auto simp: timer_handler_defs socket_open_def Let_def split: if_splits\<close>)
  show "t = T_timeout ec \<Longrightarrow> hs_inv u (on_header_timeout ec (drop_task t s))"
    by (rule step; use at in \<open>auto simp: timer_handler_defs socket_open_def Let_def split: if_splits\<close>)
  show "t = T_timeout_write \<Longrightarrow> hs_inv u (client_written t (drop_task t s))"
    by (rule step; use at in \<open>auto simp: timer_handler_defs socket_open_def Let_def split: if_splits\<close>)
qed

text \<open>Steps that leave both chains where they are.\<close>

lemma other_step:
  assumes inv: "hs_inv u s"
    and same: "hs_upstream_info s' = hs_upstream_info s" "request_tasks s' = request_tasks s"
      "timer_tasks s' = timer_tasks s" "hs_request s' = hs_request s"
      "hs_raw_request s' = hs_raw_request s" "hs_outgoing s' = hs_outgoing s"
      "hs_trace s' = hs_trace s \<or> hs_trace s' = hs_trace s @ [Client_shutdown]"
      "stopped s \<Longrightarrow> stopped s'" "socket_open s' \<Longrightarrow> socket_open s"
      "stopped s' \<Longrightarrow> \<not> stopped s \<Longrightarrow> \<not> socket_open s'"
  shows "hs_inv u s'"
proof -
  have "request_at (request_tasks s) s' = request_at (request_tasks s) s"
    using same by (intro request_at_cong) auto
  moreover have "timer_at (timer_tasks s) s \<Longrightarrow> timer_at (timer_tasks s) s'"
    using same by (cases "(timer_tasks s, s)" rule: timer_at.cases) auto
  ultimately show ?thesis
    using hs_invD [OF inv] same by (auto simp: hs_inv_def)
qed

lemma stop_event:
  assumes "hs_inv u s"
  shows "hs_inv u (on_stop (drop_task T_stop s))" "hs_inv u (hs_stop s)"
    "hs_inv u (s\<lparr>hs_rate_limiter := l\<rparr>)"
  by (rule other_step [OF assms];
      simp split: if_splits add: on_stop_def request_stop_def shutdown_def socket_open_def stop_task_resumed hs_stop_def Let_def)+

lemma written_event:
  assumes inv: "hs_inv u s" and t: "t \<in> set (hs_tasks s)" "is_client_write t"
  shows "hs_inv u (client_written t (drop_task t s))"
proof (cases "t = T_timeout_write")
  case True
  with timer_event(4) [OF inv t(1)] show ?thesis by simp
next
  case False
  with t consider "t = T_disallow_write" | "t = T_health_write" | "t = T_complete_write"
    by (auto simp: is_client_write_def)
  then show ?thesis
  proof cases
    case 3
    then have r: "is_request_task t" by simp
    show ?thesis
      by (rule request_step [OF inv t(1) r];
          use 3 hs_invD(2) [OF inv] request_task_resumed [OF inv t(1) r] in
            \<open>auto simp: client_written_def shutdown_def socket_open_def phase_defs\<close>)
  qed (rule request_step [OF inv t(1)];
       use hs_invD(2) [OF inv] request_task_resumed [OF inv t(1)] in
         \<open>simp add: client_written_def socket_open_def phase_defs\<close>)+
qed

lemma header_step:
  assumes inv: "hs_inv u s"
    and at: "request_at (request_tasks s') s'"
    and same: "hs_upstream_info s' = hs_upstream_info s" "timer_tasks s' = timer_tasks (cancel_timer s)"
      "timeout_writes (hs_trace s') = timeout_writes (hs_trace s)" "stopped s' = stopped s"
      "expired s' = expired s" "cancelled s'" "\<not> cancelled s"
      "expired s \<Longrightarrow> expired_before_cancel (hs_trace s')"
      "socket_open s' = socket_open s"
  shows "hs_inv u s'"
proof -
  have "timer_at (timer_tasks s) s \<Longrightarrow> timer_at (timer_tasks s') s'"
    using same by (cases "(timer_tasks s, s)" rule: timer_at.cases) auto
  with hs_invD [OF inv] at same show ?thesis by (auto simp: hs_inv_def)
qed

lemma read_event:
  assumes inv: "hs_inv u s" and t: "T_read \<in> set (hs_tasks s)"
  shows "hs_inv u (header_read ec n now (drop_task T_read s\<lparr>hs_buffer := buf\<rparr>))"
proof -
  have at: "untouched s" "\<not> cancelled s" "request_tasks (drop_task T_read s) = []"
      "timer_tasks (drop_task T_read s) = timer_tasks s"
    using hs_invD(2) [OF inv] request_task_resumed [OF inv t] by auto
  then have "upstream_chunks (hs_trace s) = []" by (simp add: untouched_def no_upstream_chunks)
  note at = at this
  show ?thesis
  proof (cases "check_ec ec")
    case False
    then show ?thesis
      by (intro request_step [OF inv t])
        (use at in \<open>simp_all add: header_read_def request_done_def untouched_def socket_open_def\<close>)
  next
    case True
    then show ?thesis
      by (intro header_step [OF inv])
        (use at in \<open>auto simp: header_read_def on_header_obtained_def on_request_def outgoing_start_def
          socket_open_def phase_defs Let_def new_outgoing_def split: prod.splits\<close>)
  qed
qed

lemma hs_event_keeps_inv:
  assumes "hs_inv u s" "hs_event e s = Some s'"
  shows "hs_inv u s'"
  using assms
  by (cases e)
    (auto simp: resume_Some split: if_splits
      intro: start_event read_event request_event timer_event stop_event written_event)

text \<open>The sessions of a configuration, from their start.\<close>

definition upstream_info_of :: "Config \<Rightarrow> UpstreamInfo" where
  "upstream_info_of cfg =
     \<lparr>ui_host = up_host (cfg_upstream cfg), ui_port = up_port (cfg_upstream cfg),
      ui_ignore_certificate_verification = ignore_certificate_verification (cfg_upstream cfg)\<rparr>"

definition started :: "Config \<Rightarrow> http_session \<Rightarrow> bool" where
  "started cfg s \<longleftrightarrow> (\<exists>socket sid l. s = hs_start (HTTPSession cfg socket sid l))"

interpretation hs: invariant hs_event "started cfg" "hs_inv (upstream_info_of cfg)" for cfg
proof
  fix s assume "started cfg s"
  then show "hs_inv (upstream_info_of cfg) s"
    by (auto simp: started_def hs_inv_def hs_start_def HTTPSession_def SessionBase_def
        upstream_info_of_def untouched_def request_tasks_def timer_tasks_def spawn_def)
next
  fix s s' :: http_session and e
  assume "hs_inv (upstream_info_of cfg) s" "hs_event e s = Some s'"
  then show "hs_inv (upstream_info_of cfg) s'" by (rule hs_event_keeps_inv)
qed

lemma hs_run_inv:
  "hs_run cfg socket sid l evs = Some s \<Longrightarrow> hs_inv (upstream_info_of cfg) s"
  unfolding hs_run_def by (rule hs.inv_run) (auto simp: started_def)

end
