(* ===== verification/Http_Session_Runs.thy ===== *)
theory Http_Session_Runs
  imports Http_Session_Inv
begin

text \<open>
  Complete runs of a session, one for each way a connection can end well: what the session has
  done when an admitted request, a refused one, a health request or a silent client is through.
\<close>

section \<open>Running the handlers\<close>

lemmas run_defs = hs_run_def resume_def hs_start_def HTTPSession_def spawn_def emit_def
  start_impl_def init_tls_context_def obtain_header_def start_async_def header_read_def check_ec_def
  cancel_timer_def on_header_obtained_def is_aborted_def SessionBase_def is_stopped_def on_request_def
  outgoing_start_def on_timer_def outgoing_start_impl_def init_ssl_def outgoing_connect_def
  outgoing_on_connect_def outgoing_send_request_def outgoing_read_response_def outgoing_read_done_def
  upd_outgoing_def new_outgoing_def is_eof_def on_outgoing_session_completed_def
  async_write_client_def is_client_write_def client_written_def shutdown_def Let_def
  on_request_disallow_def on_health_request_def on_header_timeout_def request_stop_def
  is_cancelled_def on_stop_def hs_stop_def socket_open_def

text \<open>The header arrives whole, in time.\<close>

definition header_events :: "string \<Rightarrow> nat \<Rightarrow> time \<Rightarrow> event list" where
  "header_events buf n now =
     [Ev_start (Inr ()), Ev_read Success buf n now, Ev_timer Operation_aborted]"

definition to_upstream_events :: "event list" where
  "to_upstream_events =
     [Ev_out_start True, Ev_out_resolved Success, Ev_out_connected Success, Ev_out_handshaken Success,
      Ev_out_written Success]"

definition forward_events :: "string \<Rightarrow> nat \<Rightarrow> time \<Rightarrow> string list \<Rightarrow> string \<Rightarrow> error_code \<Rightarrow> event list" where
  "forward_events buf n now chunks rest ec =
     header_events buf n now @ to_upstream_events @ map (Ev_out_read Success) chunks
     @ [Ev_out_read Eof rest, Ev_client_written T_complete_write ec]"

lemma to_upstream:
  assumes "delimited http_request_headers_delimiter buf n"
    and "fst (rl_allow now l)"
    and "rq_target (parse_request (take n buf)) \<noteq> ''/health''"
  shows "\<exists>s. hs_run cfg socket sid l (header_events buf n now @ to_upstream_events) = Some s
    \<and> hs_tasks s = [T_out_read] \<and> client_writes (hs_trace s) = []
    \<and> upstream_writes (hs_trace s) = [generate_request (parse_request (take n buf)) (upstream_info_of cfg)]
    \<and> \<not> expired s \<and> limiter_answers (hs_trace s) = [True] \<and> touches_upstream (hs_trace s)
    \<and> (\<exists>g. hs_outgoing s = Some g \<and> og_response g = []) \<and> hs_stream s = socket
    \<and> hs_raw_request s = take n buf"
proof -
  obtain l' where l: "rl_allow now l = (True, l')" using assms(2) by (cases "rl_allow now l") auto
  show ?thesis
    by (simp add: header_events_def to_upstream_events_def run_defs assms l upstream_info_of_def)
qed

lemma read_chunks:
  "list_all (\<lambda>c. length c \<le> buffer_size) chunks \<Longrightarrow> hs_tasks s = [T_out_read] \<Longrightarrow>
   hs_outgoing s = Some g \<Longrightarrow>
   \<exists>s' g'. run_events hs_event (map (Ev_out_read Success) chunks) s = Some s'
     \<and> hs_tasks s' = [T_out_read] \<and> hs_outgoing s' = Some g' \<and> og_response g' = og_response g @ concat chunks
     \<and> hs_trace s' = hs_trace s @ map Upstream_chunk chunks \<and> hs_stream s' = hs_stream s
     \<and> hs_raw_request s' = hs_raw_request s"
proof (induction chunks arbitrary: s g)
  case (Cons c cs)
  let ?g = "g\<lparr>og_buffer := c @ drop (length c) (og_buffer g), og_response := og_response g @ c\<rparr>"
  let ?s = "s\<lparr>hs_outgoing := Some ?g, hs_trace := hs_trace s @ [Upstream_chunk c]\<rparr>"
  have "hs_event (Ev_out_read Success c) s = Some ?s"
    using Cons.prems by (simp add: run_defs)
  then show ?case using Cons.IH [of ?s ?g] Cons.prems by auto
qed simp

lemma chunk_effects [simp]:
  "client_writes (map Upstream_chunk cs) = []" "upstream_writes (map Upstream_chunk cs) = []"
  "limiter_answers (map Upstream_chunk cs) = []" "Timer_expired \<notin> Upstream_chunk ` A"
  by (induction cs) auto

section \<open>The four ways through\<close>

text \<open>What a session has done at the end of a run.\<close>

definition outcome :: "http_session \<Rightarrow> (task \<times> string) list \<Rightarrow> string list \<Rightarrow> bool list \<Rightarrow> bool" where
  "outcome s ws us ls \<longleftrightarrow>
     hs_tasks s = [] \<and> client_writes (hs_trace s) = ws \<and> upstream_writes (hs_trace s) = us
     \<and> limiter_answers (hs_trace s) = ls"

lemma forward_run:
  assumes "delimited http_request_headers_delimiter buf n"
    and "fst (rl_allow now l)"
    and "rq_target (parse_request (take n buf)) \<noteq> ''/health''"
    and "list_all (\<lambda>c. length c \<le> buffer_size) chunks" "length rest \<le> buffer_size"
  shows "\<exists>s. hs_run cfg socket sid l (forward_events buf n now chunks rest ec) = Some s
    \<and> outcome s [(T_complete_write, concat chunks)]
        [generate_request (parse_request (take n buf)) (upstream_info_of cfg)] [True]
    \<and> \<not> socket_open s \<and> \<not> expired s \<and> touches_upstream (hs_trace s) \<and> hs_raw_request s = take n buf"
proof -
  obtain s g where s: "hs_run cfg socket sid l (header_events buf n now @ to_upstream_events) = Some s"
      "hs_tasks s = [T_out_read]" "client_writes (hs_trace s) = []"
      "upstream_writes (hs_trace s) = [generate_request (parse_request (take n buf)) (upstream_info_of cfg)]"
      "\<not> expired s" "limiter_answers (hs_trace s) = [True]" "touches_upstream (hs_trace s)"
      "hs_raw_request s = take n buf"
      "hs_outgoing s = Some g" "og_response g = []" "hs_stream s = socket"
    using to_upstream [OF assms(1-3), of cfg socket sid] by blast
  obtain s' g' where s': "run_events hs_event (map (Ev_out_read Success) chunks) s = Some s'"
     "hs_tasks s' = [T_out_read]" "hs_outgoing s' = Some g'" "og_response g' = concat chunks"
     "hs_trace s' = hs_trace s @ map Upstream_chunk chunks" "hs_stream s' = socket"
     "hs_raw_request s' = take n buf"
    using read_chunks [OF assms(4) s(2,9)] s(8,10,11) by auto
  have "\<exists>e. run_events hs_event [Ev_out_read Eof rest, Ev_client_written T_complete_write ec] s' = Some e
      \<and> outcome e [(T_complete_write, concat chunks)]
          [generate_request (parse_request (take n buf)) (upstream_info_of cfg)] [True]
      \<and> \<not> socket_open e \<and> \<not> expired e \<and> touches_upstream (hs_trace e) \<and> hs_raw_request e = take n buf"
    using assms(5) s s'(2-) by (auto simp: run_defs outcome_def)
  moreover from run_events_trans [OF s(1) [unfolded hs_run_def] run_events_trans [OF s'(1) refl]]
  have "hs_run cfg socket sid l (forward_events buf n now chunks rest ec) =
      run_events hs_event [Ev_out_read Eof rest, Ev_client_written T_complete_write ec] s'"
    by (simp only: forward_events_def hs_run_def append.assoc)
  ultimately show ?thesis by simp
qed

lemma health_run:
  assumes "delimited http_request_headers_delimiter buf n"
    and "fst (rl_allow now l)"
    and "rq_target (parse_request (take n buf)) = ''/health''"
  shows "\<exists>s. hs_run cfg socket sid l
      (header_events buf n now @ [Ev_health (parse_request (take n buf)), Ev_client_written T_health_write ec])
        = Some s \<and> outcome s [health_write] [] [True] \<and> \<not> expired s"
proof -
  obtain l' where l: "rl_allow now l = (True, l')" using assms(2) by (cases "rl_allow now l") auto
  show ?thesis by (simp add: header_events_def run_defs assms l outcome_def)
qed

lemma refused_run:
  assumes "delimited http_request_headers_delimiter buf n" "\<not> fst (rl_allow now l)"
  shows "\<exists>s. hs_run cfg socket sid l
      (header_events buf n now @ [Ev_disallow, Ev_client_written T_disallow_write ec]) = Some s
    \<and> outcome s [disallow_write] [] [False] \<and> \<not> expired s"
proof -
  obtain l' where l: "rl_allow now l = (False, l')" using assms(2) by (cases "rl_allow now l") auto
  show ?thesis by (simp add: header_events_def run_defs assms l outcome_def)
qed

text \<open>A timer that is still pending expires.\<close>

abbreviation expiry_events :: "event list" where
  "expiry_events \<equiv> [Ev_expire, Ev_timer Success, Ev_timeout Success]"

lemma expiry_run:
  assumes "hs_inv u s" "T_timer \<in> set (hs_tasks s)" "\<not> stopped s"
  shows "\<exists>s'. run_events hs_event (expiry_events @ [Ev_client_written T_timeout_write ec]) s = Some s'
    \<and> client_writes (hs_trace s') = client_writes (hs_trace s) @ [the_timeout_write]
    \<and> \<not> socket_open s' \<and> stopped s' \<and> timer_tasks s' = []"
proof -
  have "timer_tasks (drop_task T_timer s) = []" by (rule timer_task_resumed [OF assms(1,2)]) simp
  then have "filter is_timer_task (remove1 T_timer (hs_tasks s)) = []"
    by (simp add: timer_tasks_def drop_task_def)
  then have nin: "\<forall>t \<in> set (remove1 T_timer (hs_tasks s)). \<not> is_timer_task t"
    by (simp add: filter_empty_conv)
  then have "t \<notin> set (hs_tasks s)" if "is_timer_task t" "t \<noteq> T_timer" for t
    using that by (metis in_set_remove1)
  from this [of "T_timer_done Success"] this [of "T_timeout Success"] this [of T_timeout_write]
    assms(2,3) nin
  show ?thesis
    by (simp add: run_defs remove1_append timer_tasks_def filter_empty_conv)
qed

text \<open>The header and the end of the five seconds arrive together.\<close>

definition racing_events :: "string \<Rightarrow> nat \<Rightarrow> time \<Rightarrow> event list" where
  "racing_events buf n now =
     [Ev_start (Inr ()), Ev_expire, Ev_timer Success, Ev_read Success buf n now, Ev_timeout Success,
      Ev_health (parse_request (take n buf))]"

lemma racing_run:
  assumes "delimited http_request_headers_delimiter buf n"
    and "fst (rl_allow now l)"
    and "rq_target (parse_request (take n buf)) = ''/health''"
  shows "\<exists>s. hs_run cfg socket sid l (racing_events buf n now) = Some s
    \<and> client_writes (hs_trace s) = [the_timeout_write, health_write]
    \<and> hs_tasks s = [T_timeout_write, T_health_write]
    \<and> hs_response s = response_to_string health_response"
proof -
  obtain l' where l: "rl_allow now l = (True, l')" using assms(2) by (cases "rl_allow now l") auto
  show ?thesis by (simp add: racing_events_def run_defs assms l)
qed

section \<open>Example requests\<close>

abbreviation get_a :: string where
  "get_a \<equiv> ''GET /a HTTP/1.1'' @ crlf @ ''user-agent: x'' @ crlf @ crlf"

abbreviation get_health :: string where
  "get_health \<equiv> ''GET /health HTTP/1.1'' @ crlf @ crlf"

lemma get_a_read:
  "delimited http_request_headers_delimiter get_a 34"
  "rq_target (parse_request (take 34 get_a)) \<noteq> ''/health''"
  by code_simp+

lemma get_health_read:
  "delimited http_request_headers_delimiter get_health 24"
  "rq_target (parse_request (take 24 get_health)) = ''/health''"
  by code_simp+

lemma unlimited_admits: "fst (rl_allow now UnlimitedRateLimiter)"
  by (simp add: unlimited_allow_def)

text \<open>A bucket without capacity.\<close>

abbreviation closed_limiter :: limiter where
  "closed_limiter \<equiv> TokenBucketLimiter (TokenBucket 1 0 0)"

lemma closed_refuses: "\<not> fst (rl_allow 0 closed_limiter)"
  by code_simp

text \<open>A session that forwarded the first request, and one that was refused.\<close>

abbreviation example_start :: "limiter \<Rightarrow> event list \<Rightarrow> http_session option" where
  "example_start \<equiv> hs_run default_config (TcpStream \<lparr>so_open = True, so_shut = False\<rparr>) 1"

definition forwarded_session :: http_session where
  "forwarded_session =
     the (example_start UnlimitedRateLimiter (forward_events get_a 34 0 [''ab'', ''c''] [] Success))"

lemma forwarded_session:
  "example_start UnlimitedRateLimiter (forward_events get_a 34 0 [''ab'', ''c''] [] Success) =
     Some forwarded_session"
  "client_writes (hs_trace forwarded_session) = [(T_complete_write, ''abc'')]"
  "\<not> expired forwarded_session" "touches_upstream (hs_trace forwarded_session)"
  using forward_run [OF get_a_read(1) unlimited_admits get_a_read(2), of "[''ab'', ''c'']" "[]"
      default_config "TcpStream \<lparr>so_open = True, so_shut = False\<rparr>" 1 0 Success]
  by (auto simp: forwarded_session_def outcome_def)

definition refused_session :: http_session where
  "refused_session =
     the (example_start closed_limiter
       (header_events get_a 34 0 @ [Ev_disallow, Ev_client_written T_disallow_write Success]))"

lemma refused_session:
  "example_start closed_limiter
     (header_events get_a 34 0 @ [Ev_disallow, Ev_client_written T_disallow_write Success]) =
     Some refused_session"
  "limiter_answers (hs_trace refused_session) = [False]"
  using refused_run [OF get_a_read(1) closed_refuses,
      of default_config "TcpStream \<lparr>so_open = True, so_shut = False\<rparr>" 1 Success]
  by (auto simp: refused_session_def outcome_def)

text \<open>One that waits for the header, and one stopped before it started.\<close>

definition waiting_session :: http_session where
  "waiting_session = the (example_start UnlimitedRateLimiter [Ev_start (Inr ())])"

definition stopped_session :: http_session where
  "stopped_session = the (example_start UnlimitedRateLimiter [Ev_stop_call, Ev_stop])"

end
