(* ===== verification/Http_Session_Props.thy ===== *)
theory Http_Session_Props
  imports Http_Session_Runs
begin

text \<open>
  What the invariant of \<open>Http_Session_Inv\<close> says about sessions: how often and with what they
  answer, when they contact the upstream host and what they send it, and when they end.
\<close>

section \<open>Consequences of the invariant\<close>

lemma request_at_answers:
  assumes "request_at ts s"
  shows "limiter_answers (hs_trace s) \<in> {[], [True], [False]}"
    and "limiter_answers (hs_trace s) \<noteq> [True] \<Longrightarrow> \<not> touches_upstream (hs_trace s) \<and> upstream_writes (hs_trace s) = []"
    and "limiter_answers (hs_trace s) = [] \<Longrightarrow> request_writes (hs_trace s) = []"
    and "limiter_answers (hs_trace s) = [False] \<Longrightarrow> set (request_writes (hs_trace s)) \<subseteq> {disallow_write}"
    and "length (request_writes (hs_trace s)) \<le> 1"
  using assms by (cases "(ts, s)" rule: request_at.cases; auto simp: phase_defs)+

lemma request_at_forwarding:
  assumes "request_at ts s"
  shows "touches_upstream (hs_trace s) \<Longrightarrow> rq_target (parse_request (hs_raw_request s)) \<noteq> ''/health''"
    and "limiter_answers (hs_trace s) = [True] \<Longrightarrow>
      rq_target (parse_request (hs_raw_request s)) = ''/health'' \<Longrightarrow>
      set (request_writes (hs_trace s)) \<subseteq> {health_write} \<and> upstream_writes (hs_trace s) = []"
    and "limiter_answers (hs_trace s) = [True] \<Longrightarrow>
      rq_target (parse_request (hs_raw_request s)) \<noteq> ''/health'' \<Longrightarrow>
      set (request_writes (hs_trace s)) \<subseteq> {complete_write s}"
    and "set (request_writes (hs_trace s)) \<subseteq> {disallow_write, health_write, complete_write s}"
    and "upstream_writes (hs_trace s) \<in>
      {[], [generate_request (parse_request (hs_raw_request s)) (hs_upstream_info s)]}"
    and "complete_write s \<in> set (request_writes (hs_trace s)) \<Longrightarrow> upstream_writes (hs_trace s) \<noteq> []"
  using assms by (cases "(ts, s)" rule: request_at.cases; auto simp: phase_defs)+

lemma timer_at_writes:
  assumes "timer_at ts s"
  shows "timeout_writes (hs_trace s) \<in> {[], [the_timeout_write]}"
    and "timeout_writes (hs_trace s) \<noteq> [] \<Longrightarrow> expired s \<and> stopped s"
  using assms by (cases "(ts, s)" rule: timer_at.cases; auto)+

lemma length_client_writes:
  "length (client_writes tr) = length (request_writes tr) + length (timeout_writes tr)"
  using sum_length_filter_compl [of "\<lambda>w. fst w \<noteq> T_timeout_write" "client_writes tr"]
  by (simp add: request_writes_def timeout_writes_def)

lemma set_client_writes:
  "set (client_writes tr) = set (request_writes tr) \<union> set (timeout_writes tr)"
  by (auto simp: request_writes_def timeout_writes_def)

section \<open>A request chain that has ended\<close>

text \<open>Once nothing of the request chain is pending, no further answer of it is ever written.\<close>

definition given_up :: "(task \<times> string) list \<Rightarrow> http_session \<Rightarrow> bool" where
  "given_up ws s \<longleftrightarrow> request_tasks s = [] \<and> request_writes (hs_trace s) = ws"

lemma given_up_no_request_task: "given_up ws s \<Longrightarrow> is_request_task t \<Longrightarrow> t \<notin> set (hs_tasks s)"
  by (auto simp: given_up_def request_tasks_def filter_empty_conv)

lemma request_tasks_drop_other: "\<not> is_request_task t \<Longrightarrow> request_tasks (drop_task t s) = request_tasks s"
  by (simp add: request_tasks_def drop_task_def filter_remove1_other)

lemma given_up_step:
  assumes "given_up ws s" "hs_event e s = Some s'"
  shows "given_up ws s'"
  using assms given_up_no_request_task [OF assms(1)] request_tasks_drop_other
  by (cases e)
    (auto simp: resume_Some given_up_def timer_handler_defs on_stop_def Let_def is_client_write_def
      split: if_splits)

interpretation silent: invariant hs_event "given_up ws" "given_up ws" for ws
  by unfold_locales (auto intro: given_up_step)

text \<open>The ways the exchange with the upstream host fails.\<close>

fun upstream_failure :: "event \<Rightarrow> bool" where
  "upstream_failure (Ev_out_start sni_ok) \<longleftrightarrow> \<not> sni_ok"
| "upstream_failure (Ev_out_resolved ec) \<longleftrightarrow> ec \<noteq> Success"
| "upstream_failure (Ev_out_connected ec) \<longleftrightarrow> ec \<noteq> Success"
| "upstream_failure (Ev_out_handshaken ec) \<longleftrightarrow> ec \<noteq> Success"
| "upstream_failure (Ev_out_written ec) \<longleftrightarrow> ec \<noteq> Success"
| "upstream_failure (Ev_out_read ec data) \<longleftrightarrow> ec \<noteq> Success \<and> ec \<noteq> Eof"
| "upstream_failure _ \<longleftrightarrow> False"

lemma failure_gives_up:
  assumes inv: "hs_inv u s" and "upstream_failure e" "hs_event e s = Some s'"
  shows "given_up [] s'"
proof -
  have "given_up [] s'" if t: "t \<in> set (hs_tasks s)"
    "t \<in> {T_out_start, T_out_resolve, T_out_connect, T_out_handshake, T_out_write, T_out_read}"
    "request_tasks s' = request_tasks (drop_task t s)"
    "request_writes (hs_trace s') = request_writes (hs_trace s)" for t
    using t hs_invD(2) [OF inv] request_task_resumed [OF inv t(1)]
    by (auto simp: given_up_def phase_defs)
  with assms(2,3) show ?thesis
    by (cases e)
      (auto simp: resume_Some request_handler_defs check_ec_def is_eof_def Let_def
        split: if_splits option.splits)
qed

section \<open>What the upstream host reads\<close>

text \<open>
  The upstream host reads the forwarded text with the grammar of \<open>parse_request\<close>. For that the
  target must be a token, and the host and the user agent must be header values.
\<close>

definition header_value :: "string \<Rightarrow> bool" where
  "header_value v \<longleftrightarrow> LF \<notin> set v \<and> (v = [] \<or> \<not> is_blank (hd v))"

definition user_agent :: "HttpRequest \<Rightarrow> string" where
  "user_agent r =
     (case map_find (rq_headers r) ''User-Agent'' of None \<Rightarrow> ''market-bridge/1.0.0'' | Some v \<Rightarrow> v)"

definition forwarded_request :: "HttpRequest \<Rightarrow> UpstreamInfo \<Rightarrow> HttpRequest" where
  "forwarded_request r u =
     \<lparr>rq_method = ''GET'', rq_target = rq_target r, rq_version = ''HTTP/1.1'',
      rq_headers = [(''Accept'', ''*/*''), (''Connection'', ''close''), (''Host'', ui_host u),
        (''User-Agent'', user_agent r)],
      rq_body = []\<rparr>"

lemma header_value_user_agent: "wf_request r \<Longrightarrow> header_value (user_agent r)"
proof (cases "map_find (rq_headers r) ''User-Agent''")
  case (Some v)
  then have "(''User-Agent'', v) \<in> set (rq_headers r)"
    by (simp add: map_of_SomeD)
  moreover assume "wf_request r"
  ultimately show ?thesis
    using Some by (auto simp: wf_request_def wf_headers_def list_all_iff wf_header_def user_agent_def header_value_def)
qed (simp add: user_agent_def header_value_def is_blank_def)

lemma generate_request_lines:
  "generate_request r u =
     (''GET '' @ rq_target r @ '' HTTP/1.1'' @ [CR]) @ LF #
       header_lines [(''Host'', ui_host u), (''User-Agent'', user_agent r), (''Accept'', ''*/*''),
         (''Connection'', ''close'')] @ crlf @ []"
  by (simp add: generate_request_def user_agent_def header_lines_def header_line_def Let_def
      split: option.splits)

lemma parse_generate_request:
  assumes "wf_request r" "rq_target r \<noteq> []" "header_value (ui_host u)"
  shows "parse_request (generate_request r u) = forwarded_request r u"
proof -
  let ?hs = "[(''Host'', ui_host u), (''User-Agent'', user_agent r), (''Accept'', ''*/*''),
    (''Connection'', ''close'')]"
  let ?l = "''GET '' @ rq_target r @ '' HTTP/1.1''"
  have t: "no_space (rq_target r)" using assms(1) by (simp add: wf_request_def wf_tokens_def)
  have e: "generate_request r u = (?l @ [CR]) @ LF # (header_lines ?hs @ crlf @ [])"
    unfolding generate_request_lines by simp
  have g: "getline LF (generate_request r u) = Some (?l @ [CR], header_lines ?hs @ crlf @ [])"
    unfolding e by (rule getline_append) (use t in simp)
  have "list_all wf_header ?hs"
    using assms(3) header_value_user_agent [OF assms(1)]
    by (simp add: wf_header_def header_value_def is_blank_def)
  then have h: "parse_headers (header_lines ?hs @ crlf @ []) [] =
      (fold (\<lambda>(k, v). map_put k v) ?hs [], [])"
    by (rule parse_headers_lines)
  have f: "fold (\<lambda>(k, v). map_put k v) ?hs [] = rq_headers (forwarded_request r u)"
    by (simp add: forwarded_request_def)
  have "parse_request_line ?l new_request =
      new_request\<lparr>rq_method := ''GET'', rq_target := rq_target r, rq_version := ''HTTP/1.1''\<rparr>"
    using parse_request_line_print [of "new_request\<lparr>rq_method := ''GET'', rq_target := rq_target r,
        rq_version := ''HTTP/1.1''\<rparr>" new_request] t assms(2)
    by (simp add: wf_tokens_def no_space_def is_space_def)
  then show ?thesis
    using g h f strip_cr_snoc [of ?l]
    by (simp add: parse_request_def Let_def new_request_def forwarded_request_def del: strip_cr_snoc)
qed

section \<open>Properties\<close>

text \<open>
  C1. A client is answered at most once: whatever the client, the upstream host and the clock do,
  in whatever order, a session starts at most one write to the client, unless the five seconds had
  already passed when the header was found complete and the timer was cancelled.
\<close>

theorem one_response_per_connection:
  assumes "hs_run cfg socket sid l evs = Some s" "\<not> expired_before_cancel (hs_trace s)"
  shows "length (client_writes (hs_trace s)) \<le> 1"
proof -
  note inv = hs_invD [OF hs_run_inv [OF assms(1)]]
  note r = request_at_answers(3,5) [OF inv(2)] and t = timer_at_writes [OF inv(3)]
  show ?thesis
  proof (cases "timeout_writes (hs_trace s) = []")
    case True
    with r(2) show ?thesis by (simp add: length_client_writes)
  next
    case False
    with t(2) inv(4) assms(2) have "\<not> cancelled s" by blast
    with inv(5) have "limiter_answers (hs_trace s) = []" by blast
    with r(1) t(1) show ?thesis by (auto simp: length_client_writes)
  qed
qed

theorem one_response_per_connection_witness:
  "length (client_writes (hs_trace forwarded_session)) \<le> 1"
  by (rule one_response_per_connection [OF forwarded_session(1)])
     (use forwarded_session(3) in \<open>auto simp: expired_before_cancel_def\<close>)

text \<open>
  C15. The excluded race is real: when the complete header and the end of the five seconds arrive
  together, the session can have two writes to the same client stream in flight, the 408 and the
  answer to the request, and the second one has replaced the buffer the first one still reads from.
\<close>

theorem racing_timeout_writes_twice:
  "\<exists>evs s. hs_run cfg socket sid UnlimitedRateLimiter evs = Some s
     \<and> client_writes (hs_trace s) =
          [(T_timeout_write, timeout_response), (T_health_write, response_to_string health_response)]
     \<and> hs_tasks s = [T_timeout_write, T_health_write]
     \<and> hs_response s = response_to_string health_response"
  using racing_run [OF get_health_read(1) unlimited_admits get_health_read(2)] by blast

text \<open>
  C4. The shared limiter is asked at most once per connection, and its answer is obeyed: a request
  it refuses gets the 429 response and nothing else, and the upstream host is never contacted
  for it.
\<close>

theorem refusal_is_obeyed:
  assumes "hs_run cfg socket sid l evs = Some s"
  shows "limiter_answers (hs_trace s) \<in> {[], [True], [False]}
    \<and> (False \<in> set (limiter_answers (hs_trace s)) \<longrightarrow>
        \<not> touches_upstream (hs_trace s)
        \<and> set (request_writes (hs_trace s)) \<subseteq> {(T_disallow_write, response_to_string disallow_response)})"
  using request_at_answers [OF hs_invD(2) [OF hs_run_inv [OF assms]]] by auto

theorem refusal_is_obeyed_witness:
  "limiter_answers (hs_trace refused_session) = [False] \<and> \<not> touches_upstream (hs_trace refused_session)
   \<and> set (request_writes (hs_trace refused_session)) \<subseteq> {(T_disallow_write, response_to_string disallow_response)}"
  using refusal_is_obeyed [OF refused_session(1)] refused_session(2) by simp

text \<open>
  C5. The upstream host is contacted only for a request that the limiter admitted and that is not
  for \<open>/health\<close>; it is sent at most one request, and that one is the text generated from what the
  parser read and the configured host.
\<close>

theorem upstream_only_if_admitted:
  assumes "hs_run cfg socket sid l evs = Some s" "touches_upstream (hs_trace s)"
  shows "limiter_answers (hs_trace s) = [True]
    \<and> rq_target (parse_request (hs_raw_request s)) \<noteq> ''/health''
    \<and> upstream_writes (hs_trace s) \<in>
        {[], [generate_request (parse_request (hs_raw_request s)) (upstream_info_of cfg)]}"
  using hs_invD(1) [OF hs_run_inv [OF assms(1)]] assms(2)
    request_at_answers(1,2) [OF hs_invD(2) [OF hs_run_inv [OF assms(1)]]]
    request_at_forwarding(1,5) [OF hs_invD(2) [OF hs_run_inv [OF assms(1)]]] by auto

theorem upstream_only_if_admitted_witness:
  "limiter_answers (hs_trace forwarded_session) = [True]
    \<and> rq_target (parse_request (hs_raw_request forwarded_session)) \<noteq> ''/health''
    \<and> upstream_writes (hs_trace forwarded_session) \<in>
        {[], [generate_request (parse_request (hs_raw_request forwarded_session))
            (upstream_info_of default_config)]}"
  by (rule upstream_only_if_admitted [OF forwarded_session(1,4)])

text \<open>
  C6. Responses pass through unchanged: every text the session writes to its client is the 408,
  the 429 or the health response it builds itself, or the exact concatenation of the chunks it
  received from the upstream host, in their order.
\<close>

theorem response_passes_unchanged:
  assumes "hs_run cfg socket sid l evs = Some s"
  shows "set (client_writes (hs_trace s)) \<subseteq>
    {(T_timeout_write, timeout_response), (T_disallow_write, response_to_string disallow_response),
     (T_health_write, response_to_string health_response),
     (T_complete_write, concat (upstream_chunks (hs_trace s)))}"
  using request_at_forwarding(4) [OF hs_invD(2) [OF hs_run_inv [OF assms]]]
    timer_at_writes(1) [OF hs_invD(3) [OF hs_run_inv [OF assms]]]
  by (auto simp: set_client_writes)

theorem response_passes_unchanged_witness:
  "set (client_writes (hs_trace forwarded_session)) \<subseteq>
    {(T_timeout_write, timeout_response), (T_disallow_write, response_to_string disallow_response),
     (T_health_write, response_to_string health_response),
     (T_complete_write, concat (upstream_chunks (hs_trace forwarded_session)))}
   \<and> client_writes (hs_trace forwarded_session) = [(T_complete_write, ''abc'')]"
  using response_passes_unchanged [OF forwarded_session(1)] forwarded_session(2) by blast

text \<open>
  C12. An admitted request is served: for every header, every limiter state that admits it and
  every response, in whatever chunks it comes, the run in which nothing fails ends with one request
  sent upstream, the whole response written to the client, nothing pending, and the connection
  closed.
\<close>

theorem admitted_request_served:
  assumes "delimited http_request_headers_delimiter buf n"
    and "fst (rl_allow now l)"
    and "rq_target (parse_request (take n buf)) \<noteq> ''/health''"
    and "list_all (\<lambda>c. length c \<le> buffer_size) chunks" "length rest \<le> buffer_size"
  shows "\<exists>s. hs_run cfg socket sid l (forward_events buf n now chunks rest ec) = Some s
    \<and> client_writes (hs_trace s) = [(T_complete_write, concat chunks)]
    \<and> upstream_writes (hs_trace s) = [generate_request (parse_request (take n buf)) (upstream_info_of cfg)]
    \<and> hs_tasks s = [] \<and> \<not> socket_open s"
  using forward_run [OF assms] unfolding outcome_def by blast

theorem admitted_request_served_witness:
  "\<exists>s. example_start UnlimitedRateLimiter (forward_events get_a 34 0 [''ab'', ''c''] [] Success) = Some s
    \<and> client_writes (hs_trace s) = [(T_complete_write, concat [''ab'', ''c''])]
    \<and> upstream_writes (hs_trace s) =
        [generate_request (parse_request (take 34 get_a)) (upstream_info_of default_config)]
    \<and> hs_tasks s = [] \<and> \<not> socket_open s"
  by (rule admitted_request_served [OF get_a_read(1) unlimited_admits get_a_read(2)]) simp_all

text \<open>
  C25. A request for \<open>/health\<close> and a refused request are answered by the proxy itself: the first
  with the health document, the second with the 429 response, each once, and nothing is sent
  upstream.
\<close>

theorem local_answers:
  assumes "delimited http_request_headers_delimiter buf n"
  shows "(fst (rl_allow now l) \<and> rq_target (parse_request (take n buf)) = ''/health'' \<longrightarrow>
      (\<exists>s. hs_run cfg socket sid l
          (header_events buf n now @ [Ev_health (parse_request (take n buf)), Ev_client_written T_health_write ec])
            = Some s \<and> outcome s [(T_health_write, response_to_string health_response)] [] [True]))
    \<and> (\<not> fst (rl_allow now l) \<longrightarrow>
      (\<exists>s. hs_run cfg socket sid l
          (header_events buf n now @ [Ev_disallow, Ev_client_written T_disallow_write ec])
            = Some s \<and> outcome s [(T_disallow_write, response_to_string disallow_response)] [] [False]))"
  using health_run [OF assms] refused_run [OF assms] by blast

theorem local_answers_witness:
  "(\<exists>s. example_start UnlimitedRateLimiter
      (header_events get_health 24 0
        @ [Ev_health (parse_request (take 24 get_health)), Ev_client_written T_health_write Success])
      = Some s \<and> outcome s [(T_health_write, response_to_string health_response)] [] [True])
   \<and> (\<exists>s. example_start closed_limiter
      (header_events get_a 34 0 @ [Ev_disallow, Ev_client_written T_disallow_write Success])
      = Some s \<and> outcome s [(T_disallow_write, response_to_string disallow_response)] [] [False])"
  using local_answers [OF get_health_read(1), of 0 UnlimitedRateLimiter]
    local_answers [OF get_a_read(1), of 0 closed_limiter]
    unlimited_admits get_health_read(2) closed_refuses by blast

text \<open>
  C14. A client that stays silent is cut off: in every reachable state in which the header timer is
  still pending and the session has not been stopped, letting it expire writes the 408 response,
  and when that write is over (whatever its result) the connection is closed and the session stopped.
\<close>

theorem silent_client_is_cut_off:
  assumes "hs_run cfg socket sid l evs = Some s" "T_timer \<in> set (hs_tasks s)" "\<not> is_stopped (hs_base s)"
  shows "\<exists>s'. run_events hs_event (expiry_events @ [Ev_client_written T_timeout_write ec]) s = Some s'
    \<and> client_writes (hs_trace s') = client_writes (hs_trace s) @ [(T_timeout_write, timeout_response)]
    \<and> \<not> socket_open s' \<and> is_stopped (hs_base s') \<and> timer_tasks s' = []"
  using expiry_run [OF hs_run_inv [OF assms(1)] assms(2)] assms(3) by (simp add: is_stopped_def)

theorem silent_client_is_cut_off_witness:
  "\<exists>s'. run_events hs_event (expiry_events @ [Ev_client_written T_timeout_write Success]) waiting_session = Some s'
    \<and> client_writes (hs_trace s') = client_writes (hs_trace waiting_session) @ [(T_timeout_write, timeout_response)]
    \<and> \<not> socket_open s' \<and> is_stopped (hs_base s') \<and> timer_tasks s' = []"
proof (rule silent_client_is_cut_off)
  show "example_start UnlimitedRateLimiter [Ev_start (Inr ())] = Some waiting_session"
    by (simp add: waiting_session_def run_defs)
qed (simp_all add: waiting_session_def run_defs)

text \<open>
  C26. When the exchange with the upstream host fails (name resolution, connection, TLS handshake,
  writing the request, or a read that ends otherwise than with end of file), the client never gets
  an answer to its request: no continuation of the run writes one, a 502 response is not built.
\<close>

theorem upstream_failure_is_silent:
  assumes "hs_run cfg socket sid l evs = Some s" "upstream_failure e"
    and "run_events hs_event (e # es) s = Some s'"
  shows "request_writes (hs_trace s') = []"
proof -
  obtain s1 where s1: "hs_event e s = Some s1" "run_events hs_event es s1 = Some s'"
    using assms(3) by (auto split: option.splits)
  have "given_up [] s1" by (rule failure_gives_up [OF hs_run_inv [OF assms(1)] assms(2) s1(1)])
  then have "given_up [] s'" by (rule silent.inv_run [OF _ s1(2)])
  then show ?thesis by (simp add: given_up_def)
qed

theorem upstream_failure_is_silent_witness:
  "\<exists>s'. run_events hs_event [Ev_out_read (Other_error 1) []]
      (the (example_start UnlimitedRateLimiter (header_events get_a 34 0 @ to_upstream_events))) = Some s'
    \<and> request_writes (hs_trace s') = []"
proof -
  obtain s where s: "example_start UnlimitedRateLimiter (header_events get_a 34 0 @ to_upstream_events) = Some s"
      "hs_tasks s = [T_out_read]" "hs_outgoing s \<noteq> None"
    using to_upstream [OF get_a_read(1) unlimited_admits get_a_read(2)] by blast
  then obtain s' where s': "run_events hs_event [Ev_out_read (Other_error 1) []] s = Some s'"
    by (auto simp: run_defs)
  with upstream_failure_is_silent [OF s(1) _ s'] s(1) show ?thesis by simp
qed

text \<open>
  C27. Stopping closes: a session that is stopped has closed its connection, unless the 408 write
  is still under way (and closes it when it is over). Of any number of attempts to stop a session
  the first succeeds, and no other.
\<close>

theorem stopped_session_is_closed:
  assumes "hs_run cfg socket sid l evs = Some s" "is_stopped (hs_base s)"
  shows "(\<not> socket_open s \<or> T_timeout_write \<in> set (hs_tasks s))
    \<and> stop_attempts request_stop (Suc n) (SessionBase sid) = True # replicate n False"
proof -
  have "set (timer_tasks s) \<subseteq> set (hs_tasks s)" by (auto simp: timer_tasks_def)
  with hs_invD(6) [OF hs_run_inv [OF assms(1)]] assms(2)
  have "\<not> socket_open s \<or> T_timeout_write \<in> set (hs_tasks s)" by (auto simp: is_stopped_def)
  moreover have "\<not> is_stopped (SessionBase sid)" by (simp add: is_stopped_def SessionBase_def)
  note base.attempts_running [OF this, of n]
  ultimately show ?thesis by blast
qed

theorem stopped_session_is_closed_witness:
  "\<not> socket_open stopped_session
    \<and> stop_attempts request_stop (Suc 2) (SessionBase 1) = True # replicate 2 False"
proof -
  have run: "example_start UnlimitedRateLimiter [Ev_stop_call, Ev_stop] = Some stopped_session"
    and "is_stopped (hs_base stopped_session)" "T_timeout_write \<notin> set (hs_tasks stopped_session)"
    by (simp_all add: stopped_session_def run_defs)
  with stopped_session_is_closed [OF run, of 2] show ?thesis by blast
qed

text \<open>
  C10. No request smuggling: whatever bytes the client sends, if they parse to a request with a
  target, the upstream host, reading the forwarded text with the same grammar, reads exactly one
  GET request for that target with the four headers \<open>Accept\<close>, \<open>Connection\<close>, \<open>Host\<close> and \<open>User-Agent\<close>
  and no body. Method, version, all other headers and the body of the client's request are dropped.
\<close>

theorem forwarded_request_is_clean:
  assumes "rq_target (parse_request raw) \<noteq> []" "header_value (ui_host u)"
  shows "parse_request (generate_request (parse_request raw) u) = forwarded_request (parse_request raw) u"
  by (rule parse_generate_request [OF wf_parse_request assms])

theorem forwarded_request_is_clean_witness:
  "parse_request (generate_request (parse_request get_a) (upstream_info_of default_config))
     = forwarded_request (parse_request get_a) (upstream_info_of default_config)"
  by (rule forwarded_request_is_clean; code_simp)

text \<open>
  The \<open>User-Agent\<close> of the client is looked up by its exact spelling: a client that writes the
  header name in lower case, as HTTP allows, is announced to the upstream host as the proxy.
\<close>

theorem user_agent_lookup_is_case_sensitive:
  "generate_request (parse_request get_a) u =
     ''GET /a HTTP/1.1'' @ crlf @ ''Host: '' @ ui_host u @ crlf
     @ ''User-Agent: market-bridge/1.0.0'' @ crlf @ ''Accept: */*'' @ crlf @ ''Connection: close'' @ crlf @ crlf"
proof -
  have "rq_target (parse_request get_a) = ''/a''"
    "map_find (rq_headers (parse_request get_a)) ''User-Agent'' = None" by code_simp+
  then show ?thesis by (simp add: generate_request_def)
qed

end
