(* ===== verification/Handshake_Session.thy ===== *)
theory Handshake_Session
  imports Session_Helper
begin

text \<open>
  \<open>handshake_session.h\<close>/\<open>.cpp\<close>: the TLS handshake with a client. It has one asynchronous operation;
  what the session does when it completes is a list of actions. Its \<open>stop\<close> does nothing.
\<close>

record handshake_session =
  hk_stream :: http_stream
  hk_id :: u64
  hk_notifier :: bool \<comment> \<open>whether a completion notifier is set\<close>

definition HandshakeSession :: "tcp_socket \<Rightarrow> u64 \<Rightarrow> bool \<Rightarrow> handshake_session" where
  "HandshakeSession socket sid notifier =
     \<lparr>hk_stream = SslStream socket, hk_id = sid, hk_notifier = notifier\<rparr>"

datatype handshake_action =
    Async_handshake
  | Notify http_stream \<comment> \<open>the notifier is called with the stream\<close>
  | Log_openssl string

definition hk_start :: "handshake_session \<Rightarrow> handshake_action list" where
  "hk_start h = [Async_handshake]"

definition hk_stop :: "handshake_session \<Rightarrow> handshake_session" where
  "hk_stop h = h"

text \<open>
  The loop over the thread's error queue of OpenSSL: \<open>ERR_get_error\<close> takes the oldest entry, or
  returns 0 when there is none. \<open>describe\<close> is \<open>ERR_error_string_n\<close>.
\<close>

fun ERR_get_error :: "nat list \<Rightarrow> nat \<times> nat list" where
  "ERR_get_error [] = (0, [])"
| "ERR_get_error (e # q) = (e, q)"

function log_openssl_errors :: "(nat \<Rightarrow> string) \<Rightarrow> nat list \<Rightarrow> handshake_action list \<times> nat list" where
  "log_openssl_errors describe q =
     (let (e, q') = ERR_get_error q
      in if e = 0 then ([], q')
         else let (acts, q'') = log_openssl_errors describe q' in (Log_openssl (describe e) # acts, q''))"
  by pat_completeness auto
termination
proof (relation "measure (length \<circ> snd)")
  fix describe :: "nat \<Rightarrow> string" and q x e q'
  assume "x = ERR_get_error q" "(e, q') = x" "e \<noteq> 0"
  then show "((describe, q'), describe, q) \<in> measure (length \<circ> snd)"
    by (cases q) auto
qed simp

declare log_openssl_errors.simps [simp del]

text \<open>\<open>start_impl\<close> after the handshake; the session is finished when it returns.\<close>

definition handshake_done ::
  "(nat \<Rightarrow> string) \<Rightarrow> nat list \<Rightarrow> error_code \<Rightarrow> handshake_session \<Rightarrow> handshake_action list" where
  "handshake_done describe q ec h =
     (if check_ec ec then (if hk_notifier h then [Notify (hk_stream h)] else [])
      else fst (log_openssl_errors describe q))"

lemma log_openssl_errors_all:
  "0 \<notin> set q \<Longrightarrow> log_openssl_errors describe q = (map (\<lambda>e. Log_openssl (describe e)) q, [])"
  by (induction q) (simp_all add: log_openssl_errors.simps [of describe "_ # _"] log_openssl_errors.simps [of _ "[]"])

lemma handshake_done_notifies:
  "Notify st \<in> set (handshake_done describe q ec h) \<longleftrightarrow> ec = Success \<and> hk_notifier h \<and> st = hk_stream h"
proof -
  have "Notify st \<notin> set (fst (log_openssl_errors describe q))"
    by (induction q)
      (auto simp: log_openssl_errors.simps [of describe "_ # _"] log_openssl_errors.simps [of _ "[]"]
        split: prod.splits)
  then show ?thesis by (auto simp: handshake_done_def check_ec_def)
qed

end
