(* ===== verification/Server.thy ===== *)
theory Server
  imports Handshake_Session Http_Session
begin

text \<open>
  \<open>server.h\<close>/\<open>.cpp\<close>: the acceptors, their listeners, the detection of TLS on the plain port, the
  TLS context, the registry of sessions and the shutdown.

  The worker threads all run the same \<open>io_context\<close>, and sessions register, listeners loop and a
  signal shuts down concurrently. What runs is a list of flows (coroutines and handlers); a flow is
  the list of points of the code it still has to pass. A step takes one flow over its first point;
  the code of one point holds a mutex, accesses one atomic, or is a completion handler, and steps
  of different flows interleave arbitrarily. The functions below are the code of the points, in the
  order of the source: each returns the points the flow has to pass before it goes on.
\<close>

section \<open>State\<close>

datatype acceptor_kind = Http | Https

datatype acceptor = Acceptor_open | Acceptor_closed

datatype session_kind = Handshake_session | Http_plain | Http_tls

text \<open>A session object: its place in the order of creation stands for its address.\<close>

record session_ref =
  sr_index :: nat
  sr_id :: u64
  sr_kind :: session_kind

datatype point =
    Signal_wait
  | Signal_done error_code
  | Collect \<comment> \<open>\<open>stop_sessions\<close>, to take the lock\<close>
  | Stopping "session_ref list" \<comment> \<open>\<open>stop_sessions\<close>, in its last loop\<close>
  | Close_acceptors
  | Loop acceptor_kind \<comment> \<open>\<open>listener\<close>, at the loop's test\<close>
  | Start_accept acceptor_kind
  | Accepting acceptor_kind
  | After_accept acceptor_kind
  | Finish_listener
  | Dispatch tcp_socket
  | Peeking tcp_socket
  | Ssl_handshake tcp_socket
  | Launch http_stream
  | Register session_ref
  | Start_session session_ref

type_synonym flow = "point list"

record server =
  sv_running_mode :: ServerRunningMode
  sv_cfg :: Config
  sv_ssl_context_init :: bool \<comment> \<open>the once-flag has been passed\<close>
  sv_http_acceptor :: "acceptor option"
  sv_https_acceptor :: "acceptor option"
  sv_rate_limiter :: "limiter option"
  sv_shutdown_pending :: bool
  sv_sessions :: "session_ref list"
  sv_session_id_gen :: u64
  sv_flows :: "flow list"
  \<comment> \<open>what has happened: sessions created, started, stopped and destroyed, results of
      \<open>init_ssl_context\<close>, connections accepted, use of a destroyed acceptor\<close>
  sv_created :: "session_ref list"
  sv_started :: "session_ref list"
  sv_stop_calls :: "session_ref list"
  sv_dead :: "session_ref list"
  sv_ssl_inits :: "bool list"
  sv_accepted :: "acceptor_kind list"
  sv_dangling :: bool

definition add_flow :: "flow \<Rightarrow> server \<Rightarrow> server" where
  "add_flow f s = (if f = [] then s else s\<lparr>sv_flows := sv_flows s @ [f]\<rparr>)"

definition generate_session_id :: "server \<Rightarrow> u64 \<times> server" where
  "generate_session_id s = (sv_session_id_gen s, s\<lparr>sv_session_id_gen := sv_session_id_gen s + 1\<rparr>)"

definition make_session :: "session_kind \<Rightarrow> server \<Rightarrow> session_ref \<times> server" where
  "make_session kind s =
     (let (sid, s) = generate_session_id s;
          x = \<lparr>sr_index = length (sv_created s), sr_id = sid, sr_kind = kind\<rparr>
      in (x, s\<lparr>sv_created := sv_created s @ [x]\<rparr>))"

section \<open>Construction\<close>

definition Server :: "Config \<Rightarrow> server" where
  "Server cfg =
     \<lparr>sv_running_mode = run_mode (cfg_server cfg), sv_cfg = cfg, sv_ssl_context_init = False,
      sv_http_acceptor = None, sv_https_acceptor = None, sv_rate_limiter = None,
      sv_shutdown_pending = False, sv_sessions = [], sv_session_id_gen = 1, sv_flows = [],
      sv_created = [], sv_started = [], sv_stop_calls = [], sv_dead = [], sv_ssl_inits = [],
      sv_accepted = [], sv_dangling = False\<rparr>"

text \<open>\<open>hardware_concurrency\<close> may be 0; then the bounds of \<open>clamp\<close> are inverted.\<close>

definition num_threads :: "Config \<Rightarrow> nat \<Rightarrow> nat option" where
  "num_threads cfg hardware_concurrency = clamp (unat (worker_threads (cfg_server cfg))) 1 hardware_concurrency"

definition install_signals_handler :: "server \<Rightarrow> server" where
  "install_signals_handler s = add_flow [Signal_wait] s"

definition uninstall_signals_handler :: "server \<Rightarrow> server" where
  "uninstall_signals_handler s =
     s\<lparr>sv_flows := map (\<lambda>f. if f = [Signal_wait] then [Signal_done Operation_aborted] else f) (sv_flows s)\<rparr>"

text \<open>\<open>bind\<close>: what opening a listening socket on a port does (it throws when the port is taken).\<close>

definition init_acceptors :: "(u16 \<Rightarrow> unit result) \<Rightarrow> server \<Rightarrow> server result" where
  "init_acceptors bind s =
     (let cfg = cfg_server (sv_cfg s)
      in bindE (bind (http_port cfg)) (\<lambda>_.
         let s = s\<lparr>sv_http_acceptor := Some Acceptor_open\<rparr>
         in if https_port cfg \<noteq> http_port cfg
            then bindE (bind (https_port cfg)) (\<lambda>_. Inr (s\<lparr>sv_https_acceptor := Some Acceptor_open\<rparr>))
            else Inr s))"

definition init_rate_limiter :: "time \<Rightarrow> server \<Rightarrow> server" where
  "init_rate_limiter now s =
     (let t = cfg_throttling (sv_cfg s)
      in if throttling_enabled t
         then s\<lparr>sv_rate_limiter :=
                  Some (TokenBucketLimiter
                    (TokenBucket (of_nat (unat (requests_per_second t))) (of_nat (unat (burst_size t))) now))\<rparr>
         else s\<lparr>sv_rate_limiter := Some UnlimitedRateLimiter\<rparr>)"

definition install_listeners :: "server \<Rightarrow> server" where
  "install_listeners s =
     (let s = (if sv_http_acceptor s \<noteq> None then add_flow [Loop Http] s else s)
      in if sv_https_acceptor s \<noteq> None then add_flow [Loop Https] s else s)"

text \<open>
  \<open>run\<close> up to the number of the worker threads; \<open>None\<close>: the undefined \<open>clamp\<close>. The threads created
  by the loop below run the flows until none is left; the end of the block joins them, and \<open>run\<close>
  returns 0.
\<close>

definition run :: "(u16 \<Rightarrow> unit result) \<Rightarrow> time \<Rightarrow> nat \<Rightarrow> server \<Rightarrow> (server \<times> nat) option result" where
  "run bind now hardware_concurrency s =
     bindE (init_acceptors bind (install_signals_handler s)) (\<lambda>s.
       let s = install_listeners (init_rate_limiter now s)
       in Inr (map_option (\<lambda>n. (s, n)) (num_threads (sv_cfg s) hardware_concurrency)))"

text \<open>
  The loop that creates the threads: how many were created, and how it ended. The constructor of a
  thread may throw; the ones created before are then joined like the others.
\<close>

fun create_threads :: "(nat \<Rightarrow> unit result) \<Rightarrow> nat \<Rightarrow> nat \<Rightarrow> nat \<times> unit result" where
  "create_threads create_thread i 0 = (i, Inr ())"
| "create_threads create_thread i (Suc n) =
     (case create_thread i of
        Inl e \<Rightarrow> (i, Inl e)
      | Inr _ \<Rightarrow> create_threads create_thread (Suc i) n)"

section \<open>Shutdown\<close>

definition schedule_shutdown :: "server \<Rightarrow> flow \<times> server" where
  "schedule_shutdown s =
     (if sv_shutdown_pending s then ([], s)
      else ([Collect, Close_acceptors], s\<lparr>sv_shutdown_pending := True\<rparr>))"

text \<open>\<open>stop_sessions\<close> under the lock: the sessions still alive, the others leave the registry.\<close>

definition stop_sessions_collect :: "server \<Rightarrow> flow \<times> server" where
  "stop_sessions_collect s =
     (let active = filter (\<lambda>x. x \<notin> set (sv_dead s)) (sv_sessions s)
      in ([Stopping active], s\<lparr>sv_sessions := active\<rparr>))"

fun stop_sessions_loop :: "session_ref list \<Rightarrow> server \<Rightarrow> flow \<times> server" where
  "stop_sessions_loop [] s = ([], s)"
| "stop_sessions_loop (x # xs) s = ([Stopping xs], s\<lparr>sv_stop_calls := sv_stop_calls s @ [x]\<rparr>)"

text \<open>The acceptors are moved out, closed and destroyed.\<close>

definition close_acceptors :: "server \<Rightarrow> flow \<times> server" where
  "close_acceptors s = ([], s\<lparr>sv_http_acceptor := None, sv_https_acceptor := None\<rparr>)"

definition on_signal :: "error_code \<Rightarrow> server \<Rightarrow> flow \<times> server" where
  "on_signal ec s = (if check_ec ec then schedule_shutdown s else ([], s))"

section \<open>Listeners\<close>

fun the_acceptor :: "acceptor_kind \<Rightarrow> server \<Rightarrow> acceptor option" where
  "the_acceptor Http s = sv_http_acceptor s"
| "the_acceptor Https s = sv_https_acceptor s"

definition listener_loop :: "acceptor_kind \<Rightarrow> server \<Rightarrow> flow \<times> server" where
  "listener_loop k s = (if \<not> sv_shutdown_pending s then ([Start_accept k], s) else ([Finish_listener], s))"

text \<open>The listener keeps a reference to the acceptor, which may have been destroyed.\<close>

definition listener_accept :: "acceptor_kind \<Rightarrow> server \<Rightarrow> flow \<times> server" where
  "listener_accept k s =
     ([Accepting k], if the_acceptor k s = None then s\<lparr>sv_dangling := True\<rparr> else s)"

text \<open>The completion handlers of the two listeners.\<close>

fun completion_handler :: "acceptor_kind \<Rightarrow> tcp_socket \<Rightarrow> server \<Rightarrow> flow \<times> server" where
  "completion_handler Http socket s = ([], add_flow [Dispatch socket] s)"
| "completion_handler Https socket s = ([Ssl_handshake socket], s)"

definition listener_accepted :: "acceptor_kind \<Rightarrow> error_code \<Rightarrow> tcp_socket \<Rightarrow> server \<Rightarrow> flow \<times> server" where
  "listener_accepted k ec socket s =
     (if is_aborted ec then ([], s)
      else if \<not> check_ec ec then ([Finish_listener], s)
      else
        let (ps, s) = completion_handler k socket (s\<lparr>sv_accepted := sv_accepted s @ [k]\<rparr>)
        in (ps @ [After_accept k], s))"

definition listener_after :: "acceptor_kind \<Rightarrow> server \<Rightarrow> flow \<times> server" where
  "listener_after k s =
     (if sv_running_mode s = SingleRequest then ([Finish_listener], s) else ([Loop k], s))"

definition uninstall_listeners :: "server \<Rightarrow> server" where
  "uninstall_listeners s =
     s\<lparr>sv_http_acceptor := map_option (\<lambda>_. Acceptor_closed) (sv_http_acceptor s),
       sv_https_acceptor := map_option (\<lambda>_. Acceptor_closed) (sv_https_acceptor s)\<rparr>"

definition listener_finish :: "server \<Rightarrow> flow \<times> server" where
  "listener_finish s = ([], uninstall_listeners (uninstall_signals_handler s))"

section \<open>Connections\<close>

abbreviation tls_handshake_sign :: "8 word list" where
  "tls_handshake_sign \<equiv> [0x16, 0x03]"

definition dispatch_http_request :: "tcp_socket \<Rightarrow> server \<Rightarrow> flow \<times> server" where
  "dispatch_http_request socket s =
     (if \<not> allow_https_over_http_port (cfg_server (sv_cfg s)) then ([Launch (TcpStream socket)], s)
      else ([Peeking socket], s))"

text \<open>
  After the peek: \<open>n\<close> bytes were received into \<open>buff\<close>, whose other bytes are indeterminate.
\<close>

definition is_tls :: "nat \<Rightarrow> 8 word list \<Rightarrow> bool" where
  "is_tls n buff \<longleftrightarrow> length tls_handshake_sign \<le> n \<and> buff = tls_handshake_sign"

definition dispatch_peeked :: "error_code \<Rightarrow> nat \<Rightarrow> 8 word list \<Rightarrow> tcp_socket \<Rightarrow> server \<Rightarrow> flow \<times> server" where
  "dispatch_peeked ec n buff socket s =
     (if \<not> check_ec ec then ([], s)
      else if is_tls n buff then ([Ssl_handshake socket], s)
      else ([Launch (TcpStream socket)], s))"

text \<open>
  The TLS library: the result of setting the options and of loading the two files. It throws
  \<open>asio::system_error\<close> only.
\<close>

record tls_library =
  tl_set_options :: "unit result"
  tl_use_certificate_chain_file :: "string \<Rightarrow> unit result"
  tl_use_private_key_file :: "string \<Rightarrow> unit result"

definition init_ssl_context :: "tls_library \<Rightarrow> server \<Rightarrow> bool" where
  "init_ssl_context lib s =
     (let t = cfg_tls (sv_cfg s);
          r = bindE (tl_set_options lib) (\<lambda>_.
              bindE (if certificate t \<noteq> [] then tl_use_certificate_chain_file lib (certificate t) else Inr ()) (\<lambda>_.
              if private_key t \<noteq> [] then tl_use_private_key_file lib (private_key t) else Inr ()))
      in case r of Inl _ \<Rightarrow> False | Inr _ \<Rightarrow> True)"

text \<open>
  \<open>ssl_handshake\<close>, which holds \<open>handshake_mtx_\<close>. The once-flag is passed by the call that runs the
  initialisation; when that failed, the flag is replaced by a fresh one.
\<close>

definition ssl_handshake :: "tls_library \<Rightarrow> tcp_socket \<Rightarrow> server \<Rightarrow> flow \<times> server" where
  "ssl_handshake lib socket s =
     (let (ssl_context_initialized, s) =
        (if sv_ssl_context_init s then (True, s)
         else let ok = init_ssl_context lib s
              in (ok, s\<lparr>sv_ssl_context_init := True, sv_ssl_inits := sv_ssl_inits s @ [ok]\<rparr>))
      in if \<not> ssl_context_initialized then ([], s\<lparr>sv_ssl_context_init := False\<rparr>)
         else let (x, s) = make_session Handshake_session s in ([Register x], s))"

definition launch_http_session :: "http_stream \<Rightarrow> server \<Rightarrow> flow \<times> server" where
  "launch_http_session channel s =
     (let (x, s) =
        make_session (case channel of TcpStream _ \<Rightarrow> Http_plain | SslStream _ \<Rightarrow> Http_tls) s
      in ([Register x], s))"

text \<open>\<open>on_ssl_handshake_done\<close>, called by the handshake session through its notifier.\<close>

definition on_ssl_handshake_done :: "http_stream \<Rightarrow> server \<Rightarrow> flow \<times> server" where
  "on_ssl_handshake_done stream s = ([Launch stream], s)"

text \<open>
  \<open>register_session\<close>, which holds \<open>session_mtx_\<close>; \<open>session->start()\<close> follows when it returns true.
\<close>

definition register_session :: "session_ref \<Rightarrow> server \<Rightarrow> bool \<times> server" where
  "register_session x s =
     (let shutdown = sv_shutdown_pending s
      in (\<not> shutdown, if \<not> shutdown then s\<lparr>sv_sessions := sv_sessions s @ [x]\<rparr> else s))"

definition register_point :: "session_ref \<Rightarrow> server \<Rightarrow> flow \<times> server" where
  "register_point x s =
     (let (ok, s) = register_session x s in (if ok then [Start_session x] else [], s))"

definition start_session :: "session_ref \<Rightarrow> server \<Rightarrow> flow \<times> server" where
  "start_session x s = ([], s\<lparr>sv_started := sv_started s @ [x]\<rparr>)"

text \<open>
  \<open>ssl_info_callback\<close>: the line it traces, if any. The flags are constants of the TLS library, the
  texts what it says of the connection's state and of an alert.
\<close>

record ssl_callback_flags =
  cb_loop :: u32
  cb_handshake_start :: u32
  cb_handshake_done :: u32
  cb_alert :: u32
  cb_read :: u32
  cb_exit :: u32

definition has_flag :: "u32 \<Rightarrow> u32 \<Rightarrow> bool" where
  "has_flag w flag \<longleftrightarrow> and w flag \<noteq> 0"

definition ssl_info_callback ::
  "ssl_callback_flags \<Rightarrow> string \<Rightarrow> (int \<Rightarrow> string) \<Rightarrow> (int \<Rightarrow> string) \<Rightarrow> u32 \<Rightarrow> int \<Rightarrow> string option" where
  "ssl_info_callback fl state alert_type alert_desc w ret =
     (if has_flag w (cb_loop fl) then Some (''[TLS][LOOP] '' @ state)
      else if has_flag w (cb_handshake_start fl) then Some ''[TLS] Handshake started''
      else if has_flag w (cb_handshake_done fl) then Some ''[TLS] Handshake done''
      else if has_flag w (cb_alert fl) then
        Some (''[TLS][ALERT] '' @ (if has_flag w (cb_read fl) then ''read'' else ''write'') @ '' : ''
              @ alert_type ret @ '' : '' @ alert_desc ret @ [LF])
      else if has_flag w (cb_exit fl) then
        (if ret = 0 then Some (''[TLS][EXIT] failed in state: '' @ state)
         else if ret < 0 then Some (''[TLS][EXIT] error in state: '' @ state)
         else None)
      else None)"

section \<open>Steps\<close>

text \<open>A flow passes its first point: \<open>f\<close> runs, and what it returns comes before the rest.\<close>

definition pass :: "point \<Rightarrow> flow \<Rightarrow> (server \<Rightarrow> flow \<times> server) \<Rightarrow> server \<Rightarrow> server" where
  "pass p rest f s =
     (let (ps, s') = f (s\<lparr>sv_flows := remove1 (p # rest) (sv_flows s)\<rparr>) in add_flow (ps @ rest) s')"

definition destroy :: "session_ref \<Rightarrow> server \<Rightarrow> server" where
  "destroy x s = s\<lparr>sv_dead := x # sv_dead s\<rparr>"

text \<open>A handshake session completes: it notifies the server, and is destroyed.\<close>

fun notify_server :: "handshake_action list \<Rightarrow> server \<Rightarrow> flow \<times> server" where
  "notify_server [] s = ([], s)"
| "notify_server (Notify stream # _) s = on_ssl_handshake_done stream s"
| "notify_server (_ # acts) s = notify_server acts s"

definition handshake_completes ::
  "(nat \<Rightarrow> string) \<Rightarrow> nat list \<Rightarrow> error_code \<Rightarrow> tcp_socket \<Rightarrow> session_ref \<Rightarrow> server \<Rightarrow> server" where
  "handshake_completes describe q ec socket x s =
     (let (ps, s) = notify_server (handshake_done describe q ec (HandshakeSession socket (sr_id x) True)) s
      in destroy x (add_flow ps s))"

inductive server_step :: "server \<Rightarrow> server \<Rightarrow> bool" where
  signal: "[Signal_wait] \<in> set (sv_flows s) \<Longrightarrow> server_step s (pass Signal_wait [] (on_signal ec) s)"
| signal_done: "Signal_done ec # k \<in> set (sv_flows s) \<Longrightarrow> server_step s (pass (Signal_done ec) k (on_signal ec) s)"
| shutdown_call: "schedule_shutdown s = (ps, s') \<Longrightarrow> server_step s (add_flow ps s')"
| collect: "Collect # k \<in> set (sv_flows s) \<Longrightarrow> server_step s (pass Collect k stop_sessions_collect s)"
| stopping: "Stopping xs # k \<in> set (sv_flows s) \<Longrightarrow> server_step s (pass (Stopping xs) k (stop_sessions_loop xs) s)"
| close: "Close_acceptors # k \<in> set (sv_flows s) \<Longrightarrow> server_step s (pass Close_acceptors k close_acceptors s)"
| loop: "Loop a # k \<in> set (sv_flows s) \<Longrightarrow> server_step s (pass (Loop a) k (listener_loop a) s)"
| start_accept: "Start_accept a # k \<in> set (sv_flows s) \<Longrightarrow> server_step s (pass (Start_accept a) k (listener_accept a) s)"
| accepted: "Accepting a # k \<in> set (sv_flows s) \<Longrightarrow>
    server_step s (pass (Accepting a) k (listener_accepted a ec socket) s)"
| after_accept: "After_accept a # k \<in> set (sv_flows s) \<Longrightarrow> server_step s (pass (After_accept a) k (listener_after a) s)"
| finish: "Finish_listener # k \<in> set (sv_flows s) \<Longrightarrow> server_step s (pass Finish_listener k listener_finish s)"
| dispatch: "Dispatch socket # k \<in> set (sv_flows s) \<Longrightarrow>
    server_step s (pass (Dispatch socket) k (dispatch_http_request socket) s)"
| peeked: "Peeking socket # k \<in> set (sv_flows s) \<Longrightarrow> length buff = 2 \<Longrightarrow>
    server_step s (pass (Peeking socket) k (dispatch_peeked ec n buff socket) s)"
| handshake: "Ssl_handshake socket # k \<in> set (sv_flows s) \<Longrightarrow>
    server_step s (pass (Ssl_handshake socket) k (ssl_handshake lib socket) s)"
| launch: "Launch stream # k \<in> set (sv_flows s) \<Longrightarrow>
    server_step s (pass (Launch stream) k (launch_http_session stream) s)"
| register: "Register x # k \<in> set (sv_flows s) \<Longrightarrow> server_step s (pass (Register x) k (register_point x) s)"
| start: "Start_session x # k \<in> set (sv_flows s) \<Longrightarrow> server_step s (pass (Start_session x) k (start_session x) s)"
| handshaken: "x \<in> set (sv_started s) \<Longrightarrow> sr_kind x = Handshake_session \<Longrightarrow> x \<notin> set (sv_dead s) \<Longrightarrow>
    server_step s (handshake_completes describe q ec socket x s)"
| session_ends: "x \<in> set (sv_started s) \<Longrightarrow> sr_kind x \<noteq> Handshake_session \<Longrightarrow> x \<notin> set (sv_dead s) \<Longrightarrow>
    server_step s (destroy x s)"

text \<open>The states a server can get into once its worker threads run.\<close>

inductive reachable :: "Config \<Rightarrow> server \<Rightarrow> bool" for cfg where
  start: "run bind now hc (Server cfg) = Inr (Some (s, n)) \<Longrightarrow> reachable cfg s"
| step: "reachable cfg s \<Longrightarrow> server_step s s' \<Longrightarrow> reachable cfg s'"

inductive_cases server_step_cases: "server_step s s'"

end
