(* ===== verification/Server_Inv.thy ===== *)
theory Server_Inv
  imports Server "HOL-Library.Multiset"
begin

text \<open>
  The invariants of the server: the registry and the shutdown, the TLS context, session ids, and
  how often a listener accepts. They speak about the points that the flows still have to pass,
  as a multiset; the signal handler's points are left out.
\<close>

section \<open>Points of the flows\<close>

fun is_signal :: "point \<Rightarrow> bool" where
  "is_signal Signal_wait = True"
| "is_signal (Signal_done _) = True"
| "is_signal _ = False"

definition pmset :: "point list \<Rightarrow> point multiset" where
  "pmset ps = mset (filter (\<lambda>p. \<not> is_signal p) ps)"

definition pts :: "server \<Rightarrow> point multiset" where
  "pts s = pmset (concat (sv_flows s))"

lemma pmset_simps [simp]:
  "pmset [] = {#}" "pmset (p # ps) = (if is_signal p then pmset ps else add_mset p (pmset ps))"
  "pmset (ps @ qs) = pmset ps + pmset qs"
  by (simp_all add: pmset_def)

definition drop_flow :: "flow \<Rightarrow> server \<Rightarrow> server" where
  "drop_flow f s = s\<lparr>sv_flows := remove1 f (sv_flows s)\<rparr>"

lemma drop_flow_simps [simp]:
  "sv_running_mode (drop_flow f s) = sv_running_mode s" "sv_cfg (drop_flow f s) = sv_cfg s"
  "sv_ssl_context_init (drop_flow f s) = sv_ssl_context_init s"
  "sv_http_acceptor (drop_flow f s) = sv_http_acceptor s"
  "sv_https_acceptor (drop_flow f s) = sv_https_acceptor s"
  "sv_shutdown_pending (drop_flow f s) = sv_shutdown_pending s"
  "sv_sessions (drop_flow f s) = sv_sessions s"
  "sv_session_id_gen (drop_flow f s) = sv_session_id_gen s"
  "sv_created (drop_flow f s) = sv_created s" "sv_started (drop_flow f s) = sv_started s"
  "sv_stop_calls (drop_flow f s) = sv_stop_calls s" "sv_dead (drop_flow f s) = sv_dead s"
  "sv_ssl_inits (drop_flow f s) = sv_ssl_inits s" "sv_accepted (drop_flow f s) = sv_accepted s"
  "sv_dangling (drop_flow f s) = sv_dangling s"
  by (simp_all add: drop_flow_def)

lemma add_flow_simps [simp]:
  "sv_running_mode (add_flow f s) = sv_running_mode s" "sv_cfg (add_flow f s) = sv_cfg s"
  "sv_ssl_context_init (add_flow f s) = sv_ssl_context_init s"
  "sv_http_acceptor (add_flow f s) = sv_http_acceptor s"
  "sv_https_acceptor (add_flow f s) = sv_https_acceptor s"
  "sv_shutdown_pending (add_flow f s) = sv_shutdown_pending s"
  "sv_sessions (add_flow f s) = sv_sessions s"
  "sv_session_id_gen (add_flow f s) = sv_session_id_gen s"
  "sv_created (add_flow f s) = sv_created s" "sv_started (add_flow f s) = sv_started s"
  "sv_stop_calls (add_flow f s) = sv_stop_calls s" "sv_dead (add_flow f s) = sv_dead s"
  "sv_ssl_inits (add_flow f s) = sv_ssl_inits s" "sv_accepted (add_flow f s) = sv_accepted s"
  "sv_dangling (add_flow f s) = sv_dangling s" "pts (add_flow f s) = pts s + pmset f"
  by (simp_all add: add_flow_def pts_def)

lemma pass_eq: "pass p k f s = (let (ps, s') = f (drop_flow (p # k) s) in add_flow (ps @ k) s')"
  by (simp add: pass_def drop_flow_def)

lemma pmset_concat_remove1:
  "f \<in> set fs \<Longrightarrow> pmset (concat fs) = pmset f + pmset (concat (remove1 f fs))"
  by (induction fs) auto

lemma pts_drop: "f \<in> set (sv_flows s) \<Longrightarrow> pts s = pmset f + pts (drop_flow f s)"
  by (simp add: pts_def drop_flow_def pmset_concat_remove1)

lemma pts_cong [simp]:
  "pts (s\<lparr>sv_sessions := a\<rparr>) = pts s" "pts (s\<lparr>sv_created := b\<rparr>) = pts s" "pts (s\<lparr>sv_started := b\<rparr>) = pts s"
  "pts (s\<lparr>sv_stop_calls := b\<rparr>) = pts s" "pts (s\<lparr>sv_dead := b\<rparr>) = pts s"
  "pts (s\<lparr>sv_ssl_inits := c\<rparr>) = pts s" "pts (s\<lparr>sv_accepted := d\<rparr>) = pts s"
  "pts (s\<lparr>sv_dangling := e\<rparr>) = pts s" "pts (s\<lparr>sv_ssl_context_init := e\<rparr>) = pts s"
  "pts (s\<lparr>sv_http_acceptor := g\<rparr>) = pts s" "pts (s\<lparr>sv_https_acceptor := g\<rparr>) = pts s"
  "pts (s\<lparr>sv_shutdown_pending := e\<rparr>) = pts s" "pts (s\<lparr>sv_session_id_gen := h\<rparr>) = pts s"
  "pts (s\<lparr>sv_rate_limiter := i\<rparr>) = pts s"
  by (simp_all add: pts_def)

lemma uninstall_signals_simps [simp]:
  "sv_running_mode (uninstall_signals_handler s) = sv_running_mode s"
  "sv_cfg (uninstall_signals_handler s) = sv_cfg s"
  "sv_ssl_context_init (uninstall_signals_handler s) = sv_ssl_context_init s"
  "sv_http_acceptor (uninstall_signals_handler s) = sv_http_acceptor s"
  "sv_https_acceptor (uninstall_signals_handler s) = sv_https_acceptor s"
  "sv_shutdown_pending (uninstall_signals_handler s) = sv_shutdown_pending s"
  "sv_sessions (uninstall_signals_handler s) = sv_sessions s"
  "sv_session_id_gen (uninstall_signals_handler s) = sv_session_id_gen s"
  "sv_created (uninstall_signals_handler s) = sv_created s"
  "sv_started (uninstall_signals_handler s) = sv_started s"
  "sv_stop_calls (uninstall_signals_handler s) = sv_stop_calls s"
  "sv_dead (uninstall_signals_handler s) = sv_dead s"
  "sv_ssl_inits (uninstall_signals_handler s) = sv_ssl_inits s"
  "sv_accepted (uninstall_signals_handler s) = sv_accepted s"
  "sv_dangling (uninstall_signals_handler s) = sv_dangling s"
  by (simp_all add: uninstall_signals_handler_def)

lemma pts_uninstall_signals [simp]: "pts (uninstall_signals_handler s) = pts s"
proof -
  have "pmset (concat (map (\<lambda>f. if f = [Signal_wait] then [Signal_done Operation_aborted] else f) fs)) =
      pmset (concat fs)" for fs
    by (induction fs) auto
  then show ?thesis by (simp add: pts_def uninstall_signals_handler_def)
qed

section \<open>The invariant\<close>

text \<open>Once the registry has been collected, every live session in it has been or will be stopped.\<close>

fun to_stop :: "point \<Rightarrow> session_ref list" where
  "to_stop (Stopping xs) = xs"
| "to_stop _ = []"

definition pending_stops :: "point multiset \<Rightarrow> session_ref set" where
  "pending_stops M = (\<Union>p \<in> set_mset M. set (to_stop p))"

lemma pending_stops_simps [simp]:
  "pending_stops {#} = {}" "pending_stops (add_mset p M) = set (to_stop p) \<union> pending_stops M"
  "pending_stops (M + N) = pending_stops M \<union> pending_stops N"
  by (auto simp: pending_stops_def)

definition inv_stop :: "server \<Rightarrow> bool" where
  "inv_stop s \<longleftrightarrow>
     (sv_shutdown_pending s \<and> Collect \<notin># pts s \<longrightarrow>
       (\<forall>x \<in> set (sv_sessions s). x \<in> set (sv_dead s) \<or> x \<in> set (sv_stop_calls s)
          \<or> x \<in> pending_stops (pts s)))"

definition inv_registered :: "server \<Rightarrow> bool" where
  "inv_registered s \<longleftrightarrow>
     (\<forall>x. x \<in> set (sv_started s) \<or> Start_session x \<in># pts s \<longrightarrow>
       x \<in> set (sv_sessions s) \<or> x \<in> set (sv_dead s))"

definition inv_created :: "server \<Rightarrow> bool" where
  "inv_created s \<longleftrightarrow>
     (\<forall>x. x \<in> set (sv_started s) \<or> Start_session x \<in># pts s \<or> Register x \<in># pts s \<longrightarrow>
       x \<in> set (sv_created s))"

definition inv_tls :: "server \<Rightarrow> bool" where
  "inv_tls s \<longleftrightarrow>
     (\<exists>n. sv_ssl_inits s = replicate n False @ (if sv_ssl_context_init s then [True] else []))
     \<and> (\<forall>x \<in> set (sv_created s). sr_kind x \<noteq> Http_plain \<longrightarrow> sv_ssl_context_init s)
     \<and> (\<forall>c. Launch (SslStream c) \<in># pts s \<longrightarrow> sv_ssl_context_init s)"

definition inv_ids :: "server \<Rightarrow> bool" where
  "inv_ids s \<longleftrightarrow>
     map sr_id (sv_created s) = map (\<lambda>i. of_nat (Suc i)) [0..<length (sv_created s)]
     \<and> sv_session_id_gen s = of_nat (Suc (length (sv_created s)))"

fun waits_on :: "acceptor_kind \<Rightarrow> point \<Rightarrow> bool" where
  "waits_on a (Loop b) \<longleftrightarrow> a = b"
| "waits_on a (Start_accept b) \<longleftrightarrow> a = b"
| "waits_on a (Accepting b) \<longleftrightarrow> a = b"
| "waits_on a _ \<longleftrightarrow> False"

definition waiting :: "acceptor_kind \<Rightarrow> point multiset \<Rightarrow> nat" where
  "waiting a M = size (filter_mset (waits_on a) M)"

definition times_accepted :: "acceptor_kind \<Rightarrow> acceptor_kind list \<Rightarrow> nat" where
  "times_accepted a xs = length (filter (\<lambda>b. b = a) xs)"

lemma waiting_simps [simp]:
  "waiting a {#} = 0" "waiting a (add_mset p M) = (if waits_on a p then Suc (waiting a M) else waiting a M)"
  "waiting a (M + N) = waiting a M + waiting a N"
  by (simp_all add: waiting_def)

lemma times_accepted_simps [simp]:
  "times_accepted a [] = 0"
  "times_accepted a (xs @ [b]) = times_accepted a xs + (if b = a then 1 else 0)"
  by (simp_all add: times_accepted_def)

definition inv_single :: "acceptor_kind \<Rightarrow> server \<Rightarrow> bool" where
  "inv_single a s \<longleftrightarrow>
     (sv_running_mode s = SingleRequest \<longrightarrow>
       waiting a (pts s) + times_accepted a (sv_accepted s) \<le> 1)"

text \<open>
  Before the shutdown no flow is on its way through it, and the acceptor of every listener exists.
\<close>

fun point_ok :: "bool \<Rightarrow> bool \<Rightarrow> point \<Rightarrow> bool" where
  "point_ok http https Collect = False"
| "point_ok http https (Stopping _) = False"
| "point_ok http https Close_acceptors = False"
| "point_ok http https (Loop a) = (case a of Http \<Rightarrow> http | Https \<Rightarrow> https)"
| "point_ok http https (Start_accept a) = (case a of Http \<Rightarrow> http | Https \<Rightarrow> https)"
| "point_ok http https (Accepting a) = (case a of Http \<Rightarrow> http | Https \<Rightarrow> https)"
| "point_ok http https (After_accept a) = (case a of Http \<Rightarrow> http | Https \<Rightarrow> https)"
| "point_ok http https _ = True"

definition calm :: "bool \<Rightarrow> bool \<Rightarrow> point multiset \<Rightarrow> bool" where
  "calm http https M \<longleftrightarrow> (\<forall>p \<in># M. point_ok http https p)"

lemma calm_simps [simp]:
  "calm http https {#}"
  "calm http https (add_mset p M) \<longleftrightarrow> point_ok http https p \<and> calm http https M"
  "calm http https (M + N) \<longleftrightarrow> calm http https M \<and> calm http https N"
  by (auto simp: calm_def)

definition inv_acceptors :: "server \<Rightarrow> bool" where
  "inv_acceptors s \<longleftrightarrow>
     (\<not> sv_shutdown_pending s \<longrightarrow>
       \<not> sv_dangling s \<and> sv_stop_calls s = []
       \<and> calm (sv_http_acceptor s \<noteq> None) (sv_https_acceptor s \<noteq> None) (pts s))"

text \<open>
  Every session is created once, and passes registration and start at most once; whatever the
  server holds is a session it created.
\<close>

fun launches :: "session_ref \<Rightarrow> point \<Rightarrow> bool" where
  "launches x (Register y) \<longleftrightarrow> x = y"
| "launches x (Start_session y) \<longleftrightarrow> x = y"
| "launches x _ \<longleftrightarrow> False"

definition launching :: "session_ref \<Rightarrow> point multiset \<Rightarrow> nat" where
  "launching x M = size (filter_mset (launches x) M)"

definition times_started :: "session_ref \<Rightarrow> session_ref list \<Rightarrow> nat" where
  "times_started x xs = length (filter (\<lambda>y. y = x) xs)"

lemma launching_simps [simp]:
  "launching x {#} = 0" "launching x (add_mset p M) = (if launches x p then Suc (launching x M) else launching x M)"
  "launching x (M + N) = launching x M + launching x N"
  by (simp_all add: launching_def)

lemma times_started_simps [simp]:
  "times_started x [] = 0"
  "times_started x (xs @ [y]) = times_started x xs + (if y = x then 1 else 0)"
  by (simp_all add: times_started_def)

lemma times_started_0: "times_started x xs = 0 \<longleftrightarrow> x \<notin> set xs"
  by (auto simp: times_started_def filter_empty_conv)

lemma launching_0: "launching x M = 0 \<longleftrightarrow> Register x \<notin># M \<and> Start_session x \<notin># M"
proof -
  have "launches x p \<longleftrightarrow> p = Register x \<or> p = Start_session x" for p by (cases p) auto
  then show ?thesis by (auto simp: launching_def filter_mset_eq_conv)
qed

definition inv_once :: "session_ref \<Rightarrow> server \<Rightarrow> bool" where
  "inv_once x s \<longleftrightarrow>
     launching x (pts s) + times_started x (sv_started s) \<le> 1
     \<and> (x \<notin> set (sv_created s) \<longrightarrow> launching x (pts s) + times_started x (sv_started s) = 0)"

definition inv_index :: "server \<Rightarrow> bool" where
  "inv_index s \<longleftrightarrow> map sr_index (sv_created s) = [0..<length (sv_created s)]"

definition inv_members :: "server \<Rightarrow> bool" where
  "inv_members s \<longleftrightarrow>
     set (sv_sessions s) \<union> pending_stops (pts s) \<union> set (sv_stop_calls s) \<union> set (sv_started s)
       \<subseteq> set (sv_created s)
     \<and> (\<forall>x. Register x \<in># pts s \<or> Start_session x \<in># pts s \<longrightarrow> x \<in> set (sv_created s))"

definition inv_config :: "Config \<Rightarrow> server \<Rightarrow> bool" where
  "inv_config cfg s \<longleftrightarrow> sv_cfg s = cfg \<and> sv_running_mode s = run_mode (cfg_server cfg)"

section \<open>Every step keeps it\<close>

lemmas server_handler_defs = schedule_shutdown_def stop_sessions_collect_def close_acceptors_def
  on_signal_def listener_loop_def listener_accept_def listener_accepted_def listener_after_def
  uninstall_listeners_def listener_finish_def dispatch_http_request_def dispatch_peeked_def
  ssl_handshake_def launch_http_session_def on_ssl_handshake_done_def register_session_def
  register_point_def start_session_def make_session_def generate_session_id_def destroy_def

text \<open>A finished handshake launches an HTTP session or ends silently.\<close>

lemma notify_server_log:
  "notify_server (fst (log_openssl_errors describe q)) s = ([], s)"
  by (induction q)
    (auto simp: log_openssl_errors.simps [of describe "_ # _"] log_openssl_errors.simps [of _ "[]"]
      split: prod.splits)

lemma handshake_completes_eq:
  "handshake_completes describe q ec socket x s =
     destroy x (add_flow (if ec = Success then [Launch (SslStream socket)] else []) s)"
  by (simp add: handshake_completes_def handshake_done_def check_ec_def HandshakeSession_def
      on_ssl_handshake_done_def notify_server_log)

lemma completion_handler_eq:
  "completion_handler a socket s =
    (case a of Http \<Rightarrow> ([], add_flow [Dispatch socket] s) | Https \<Rightarrow> ([Ssl_handshake socket], s))"
  by (cases a) simp_all

lemma stop_sessions_loop_eq:
  "stop_sessions_loop xs s =
    (case xs of [] \<Rightarrow> ([], s) | x # xs \<Rightarrow> ([Stopping xs], s\<lparr>sv_stop_calls := sv_stop_calls s @ [x]\<rparr>))"
  by (cases xs) simp_all

lemma the_acceptor_eq:
  "the_acceptor a s = (case a of Http \<Rightarrow> sv_http_acceptor s | Https \<Rightarrow> sv_https_acceptor s)"
  by (cases a) simp_all

lemma ex_replicate_snoc [simp]: "\<exists>m. replicate n x @ [x] = replicate m x"
  by (rule exI [of _ "Suc n"]) (simp add: replicate_append_same)

lemmas step_simps = the_acceptor_eq pass_eq server_handler_defs handshake_completes_eq completion_handler_eq
  stop_sessions_loop_eq Let_def pts_drop

lemma step_stop: "server_step s s' \<Longrightarrow> inv_stop s \<Longrightarrow> inv_stop s'"
  by (erule server_step_cases)
    (auto simp: inv_stop_def step_simps split: prod.splits if_splits acceptor_kind.splits list.splits)

lemma step_registered: "server_step s s' \<Longrightarrow> inv_registered s \<Longrightarrow> inv_registered s'"
  by (erule server_step_cases)
    (auto simp: inv_registered_def step_simps split: prod.splits if_splits acceptor_kind.splits list.splits)

lemma step_created: "server_step s s' \<Longrightarrow> inv_created s \<Longrightarrow> inv_created s'"
  by (erule server_step_cases)
    (auto simp: inv_created_def step_simps split: prod.splits if_splits acceptor_kind.splits list.splits)

lemma step_config: "server_step s s' \<Longrightarrow> inv_config cfg s \<Longrightarrow> inv_config cfg s'"
  by (erule server_step_cases)
    (auto simp: inv_config_def step_simps split: prod.splits if_splits acceptor_kind.splits list.splits)

lemma step_ids: "server_step s s' \<Longrightarrow> inv_ids s \<Longrightarrow> inv_ids s'"
  by (erule server_step_cases)
    (auto simp: inv_ids_def step_simps split: prod.splits if_splits acceptor_kind.splits list.splits)

lemma step_single: "server_step s s' \<Longrightarrow> inv_single a s \<Longrightarrow> inv_single a s'"
  by (erule server_step_cases)
    (auto simp: inv_single_def step_simps split: prod.splits if_splits acceptor_kind.splits list.splits)

lemma step_tls: "server_step s s' \<Longrightarrow> inv_created s \<Longrightarrow> inv_tls s \<Longrightarrow> inv_tls s'"
  by (erule server_step_cases)
    (auto simp: inv_tls_def inv_created_def step_simps split: prod.splits if_splits acceptor_kind.splits
      list.splits http_stream.splits)

lemma step_acceptors: "server_step s s' \<Longrightarrow> inv_acceptors s \<Longrightarrow> inv_acceptors s'"
  by (erule server_step_cases)
    (auto simp: inv_acceptors_def step_simps split: prod.splits if_splits acceptor_kind.splits
      list.splits)

lemma index_fresh: "inv_index s \<Longrightarrow> x \<in> set (sv_created s) \<Longrightarrow> sr_index x < length (sv_created s)"
proof -
  assume i: "inv_index s" and "x \<in> set (sv_created s)"
  then have "sr_index x \<in> set (map sr_index (sv_created s))" by simp
  with i show ?thesis by (simp add: inv_index_def)
qed

lemma step_index: "server_step s s' \<Longrightarrow> inv_index s \<Longrightarrow> inv_index s'"
  by (erule server_step_cases)
    (auto simp: inv_index_def step_simps split: prod.splits if_splits acceptor_kind.splits list.splits)

lemma step_members: "server_step s s' \<Longrightarrow> inv_members s \<Longrightarrow> inv_members s'"
  by (erule server_step_cases)
    (auto simp: inv_members_def step_simps split: prod.splits if_splits acceptor_kind.splits list.splits)

lemma step_once: "server_step s s' \<Longrightarrow> inv_index s \<Longrightarrow> inv_once x s \<Longrightarrow> inv_once x s'"
  by (erule server_step_cases)
    (auto simp: inv_once_def step_simps split: prod.splits if_splits acceptor_kind.splits list.splits
      dest: index_fresh)

section \<open>Reachable servers\<close>

definition server_inv :: "Config \<Rightarrow> server \<Rightarrow> bool" where
  "server_inv cfg s \<longleftrightarrow>
     inv_stop s \<and> inv_registered s \<and> inv_created s \<and> inv_config cfg s \<and> inv_ids s
     \<and> (\<forall>a. inv_single a s) \<and> inv_tls s \<and> inv_acceptors s
     \<and> inv_index s \<and> inv_members s \<and> (\<forall>x. inv_once x s)"

lemmas server_inv_defs = server_inv_def inv_stop_def inv_registered_def inv_created_def
  inv_config_def inv_ids_def inv_single_def inv_tls_def inv_acceptors_def
  inv_index_def inv_members_def inv_once_def

lemma run_Some:
  assumes "run bind now hc (Server cfg) = Inr (Some (s, n))"
  shows "\<exists>ps. pts s = pmset ps \<and> s = (Server cfg)\<lparr>sv_flows := sv_flows s,
      sv_http_acceptor := Some Acceptor_open,
      sv_https_acceptor := (if http_port (cfg_server cfg) = https_port (cfg_server cfg) then None else Some Acceptor_open),
      sv_rate_limiter := sv_rate_limiter s\<rparr>
    \<and> ps = Loop Http # (if http_port (cfg_server cfg) = https_port (cfg_server cfg) then [] else [Loop Https])"
  using assms
  by (auto simp: run_def init_acceptors_def install_signals_handler_def init_rate_limiter_def
      install_listeners_def Let_def bindE_eq_Inr Server_def add_flow_def pts_def split: if_splits)

lemma server_inv_reachable: "reachable cfg s \<Longrightarrow> server_inv cfg s"
proof (induction rule: reachable.induct)
  case (start bind now hc s n)
  let ?same = "http_port (cfg_server cfg) = https_port (cfg_server cfg)"
  obtain fl rl where s: "s = (Server cfg)\<lparr>sv_flows := fl, sv_http_acceptor := Some Acceptor_open,
      sv_https_acceptor := (if ?same then None else Some Acceptor_open), sv_rate_limiter := rl\<rparr>"
    and p: "pts s = pmset (Loop Http # (if ?same then [] else [Loop Https]))"
    using run_Some [OF start] by blast
  have "waiting a (pts s) \<le> 1" for a
    unfolding p by (cases a) simp_all
  with s p show ?case
    by (auto simp: server_inv_defs Server_def split: if_splits)
next
  case (step s s')
  then show ?case
    unfolding server_inv_def
    by (blast intro: step_stop step_registered step_created step_config step_ids step_single step_tls
        step_acceptors step_index step_members step_once)
qed

end
