(* ===== verification/Server_Props.thy ===== *)
theory Server_Props
  imports Server_Inv
begin

text \<open>
  What the invariants of \<open>Server_Inv\<close> say about servers, with the example runs that show what
  they leave possible.
\<close>

section \<open>Example runs\<close>

text \<open>One step after the other, from a server whose ports could be opened.\<close>

definition server_up :: "Config \<Rightarrow> server" where
  "server_up cfg =
     (case run (\<lambda>_. Inr ()) 0 1 (Server cfg) of Inr (Some (s, _)) \<Rightarrow> s | _ \<Rightarrow> Server cfg)"

lemma server_up_reachable: "reachable cfg (server_up cfg)"
proof -
  have "\<exists>s n. run (\<lambda>_. Inr ()) 0 1 (Server cfg) = Inr (Some (s, n))"
    by (simp add: run_def init_acceptors_def Let_def num_threads_def clamp_def)
  then show ?thesis by (auto simp: server_up_def intro: reachable.start)
qed

lemma reachable_run: "server_step\<^sup>*\<^sup>* s s' \<Longrightarrow> reachable cfg s \<Longrightarrow> reachable cfg s'"
  by (induction rule: rtranclp_induct) (auto intro: reachable.step)

text \<open>A signal arrives between a listener's test of the loop and its next accept.\<close>

definition dangling_1 :: server where "dangling_1 = pass (Loop Http) [] (listener_loop Http) (server_up default_config)"
definition dangling_2 :: server where "dangling_2 = pass Signal_wait [] (on_signal Success) dangling_1"
definition dangling_3 :: server where "dangling_3 = pass Collect [Close_acceptors] stop_sessions_collect dangling_2"
definition dangling_4 :: server where
  "dangling_4 = pass (Stopping []) [Close_acceptors] (stop_sessions_loop []) dangling_3"
definition dangling_5 :: server where "dangling_5 = pass Close_acceptors [] close_acceptors dangling_4"
definition dangling_6 :: server where "dangling_6 = pass (Start_accept Http) [] (listener_accept Http) dangling_5"

lemma dangling_reachable: "reachable default_config dangling_5" "reachable default_config dangling_6"
proof -
  note step = reachable.step
  have 1: "reachable default_config dangling_1"
    unfolding dangling_1_def by (rule step [OF server_up_reachable server_step.loop]) code_simp
  have 2: "reachable default_config dangling_2"
    unfolding dangling_2_def by (rule step [OF 1 server_step.signal]) code_simp
  have 3: "reachable default_config dangling_3"
    unfolding dangling_3_def by (rule step [OF 2 server_step.collect]) code_simp
  have 4: "reachable default_config dangling_4"
    unfolding dangling_4_def by (rule step [OF 3 server_step.stopping]) code_simp
  show 5: "reachable default_config dangling_5"
    unfolding dangling_5_def by (rule step [OF 4 server_step.close]) code_simp
  show "reachable default_config dangling_6"
    unfolding dangling_6_def by (rule step [OF 5 server_step.start_accept]) code_simp
qed

text \<open>In single-request mode a connection arrives on each port.\<close>

definition single_config :: Config where
  "single_config = upd_server (\<lambda>s. s\<lparr>run_mode := SingleRequest\<rparr>) default_config"

abbreviation a_socket :: tcp_socket where
  "a_socket \<equiv> \<lparr>so_open = True, so_shut = False\<rparr>"

definition single_1 :: server where "single_1 = pass (Loop Http) [] (listener_loop Http) (server_up single_config)"
definition single_2 :: server where "single_2 = pass (Loop Https) [] (listener_loop Https) single_1"
definition single_3 :: server where "single_3 = pass (Start_accept Http) [] (listener_accept Http) single_2"
definition single_4 :: server where "single_4 = pass (Start_accept Https) [] (listener_accept Https) single_3"
definition single_5 :: server where
  "single_5 = pass (Accepting Http) [] (listener_accepted Http Success a_socket) single_4"
definition single_6 :: server where
  "single_6 = pass (Accepting Https) [] (listener_accepted Https Success a_socket) single_5"

lemma single_reachable: "reachable single_config single_6"
proof -
  note step = reachable.step
  have 1: "reachable single_config single_1"
    unfolding single_1_def by (rule step [OF server_up_reachable server_step.loop]) code_simp
  have 2: "reachable single_config single_2"
    unfolding single_2_def by (rule step [OF 1 server_step.loop]) code_simp
  have 3: "reachable single_config single_3"
    unfolding single_3_def by (rule step [OF 2 server_step.start_accept]) code_simp
  have 4: "reachable single_config single_4"
    unfolding single_4_def by (rule step [OF 3 server_step.start_accept]) code_simp
  have 5: "reachable single_config single_5"
    unfolding single_5_def by (rule step [OF 4 server_step.accepted]) code_simp
  show ?thesis
    unfolding single_6_def by (rule step [OF 5 server_step.accepted]) code_simp
qed

text \<open>A plain session is registered and started, then a signal arrives and the session is stopped.\<close>

definition stop_1 :: server where "stop_1 = pass (Loop Http) [] (listener_loop Http) (server_up default_config)"
definition stop_2 :: server where "stop_2 = pass (Start_accept Http) [] (listener_accept Http) stop_1"
definition stop_3 :: server where "stop_3 = pass (Accepting Http) [] (listener_accepted Http Success a_socket) stop_2"
definition stop_4 :: server where "stop_4 = pass (Dispatch a_socket) [] (dispatch_http_request a_socket) stop_3"
definition stop_5 :: server where "stop_5 = pass (Launch (TcpStream a_socket)) [] (launch_http_session (TcpStream a_socket)) stop_4"

definition first_session :: session_ref where
  "first_session = \<lparr>sr_index = 0, sr_id = 1, sr_kind = Http_plain\<rparr>"

definition stop_6 :: server where "stop_6 = pass (Register first_session) [] (register_point first_session) stop_5"
definition stop_7 :: server where "stop_7 = pass (Start_session first_session) [] (start_session first_session) stop_6"
definition stop_8 :: server where "stop_8 = pass Signal_wait [] (on_signal Success) stop_7"
definition stop_9 :: server where "stop_9 = pass Collect [Close_acceptors] stop_sessions_collect stop_8"
definition stop_10 :: server where
  "stop_10 = pass (Stopping [first_session]) [Close_acceptors] (stop_sessions_loop [first_session]) stop_9"
definition stop_11 :: server where
  "stop_11 = pass (Stopping []) [Close_acceptors] (stop_sessions_loop []) stop_10"

lemma stop_run: "server_step\<^sup>*\<^sup>* stop_8 stop_11"
proof -
  have 9: "server_step stop_8 stop_9"
    unfolding stop_9_def by (rule server_step.collect) code_simp
  have 10: "server_step stop_9 stop_10"
    unfolding stop_10_def by (rule server_step.stopping) code_simp
  have 11: "server_step stop_10 stop_11"
    unfolding stop_11_def by (rule server_step.stopping) code_simp
  from 9 10 11 show ?thesis by (meson rtranclp.rtrancl_into_rtrancl rtranclp.rtrancl_refl)
qed

lemma stop_reachable: "reachable default_config stop_8" "reachable default_config stop_11"
proof -
  note step = reachable.step
  have 1: "reachable default_config stop_1"
    unfolding stop_1_def by (rule step [OF server_up_reachable server_step.loop]) code_simp
  have 2: "reachable default_config stop_2"
    unfolding stop_2_def by (rule step [OF 1 server_step.start_accept]) code_simp
  have 3: "reachable default_config stop_3"
    unfolding stop_3_def by (rule step [OF 2 server_step.accepted]) code_simp
  have 4: "reachable default_config stop_4"
    unfolding stop_4_def by (rule step [OF 3 server_step.dispatch]) code_simp
  have 5: "reachable default_config stop_5"
    unfolding stop_5_def by (rule step [OF 4 server_step.launch]) code_simp
  have 6: "reachable default_config stop_6"
    unfolding stop_6_def by (rule step [OF 5 server_step.register]) code_simp
  have 7: "reachable default_config stop_7"
    unfolding stop_7_def by (rule step [OF 6 server_step.start]) code_simp
  show 8: "reachable default_config stop_8"
    unfolding stop_8_def by (rule step [OF 7 server_step.signal]) code_simp
  from stop_run 8 show "reachable default_config stop_11" by (rule reachable_run)
qed

text \<open>
  Two connections arrive on the HTTPS port. For the first the certificate cannot be loaded, for the
  second it can.
\<close>

definition no_certificate :: tls_library where
  "no_certificate =
     \<lparr>tl_set_options = Inr (), tl_use_certificate_chain_file = (\<lambda>_. Inl (Runtime_error [])),
      tl_use_private_key_file = (\<lambda>_. Inr ())\<rparr>"

definition with_certificate :: tls_library where
  "with_certificate = no_certificate\<lparr>tl_use_certificate_chain_file := (\<lambda>_. Inr ())\<rparr>"

definition tls_1 :: server where "tls_1 = pass (Loop Https) [] (listener_loop Https) (server_up default_config)"
definition tls_2 :: server where "tls_2 = pass (Start_accept Https) [] (listener_accept Https) tls_1"
definition tls_3 :: server where "tls_3 = pass (Accepting Https) [] (listener_accepted Https Success a_socket) tls_2"
definition tls_4 :: server where
  "tls_4 = pass (Ssl_handshake a_socket) [After_accept Https] (ssl_handshake no_certificate a_socket) tls_3"
definition tls_5 :: server where "tls_5 = pass (After_accept Https) [] (listener_after Https) tls_4"
definition tls_6 :: server where "tls_6 = pass (Loop Https) [] (listener_loop Https) tls_5"
definition tls_7 :: server where "tls_7 = pass (Start_accept Https) [] (listener_accept Https) tls_6"
definition tls_8 :: server where "tls_8 = pass (Accepting Https) [] (listener_accepted Https Success a_socket) tls_7"
definition tls_9 :: server where
  "tls_9 = pass (Ssl_handshake a_socket) [After_accept Https] (ssl_handshake with_certificate a_socket) tls_8"

lemma tls_reachable: "reachable default_config tls_9"
proof -
  note step = reachable.step
  have 1: "reachable default_config tls_1"
    unfolding tls_1_def by (rule step [OF server_up_reachable server_step.loop]) code_simp
  have 2: "reachable default_config tls_2"
    unfolding tls_2_def by (rule step [OF 1 server_step.start_accept]) code_simp
  have 3: "reachable default_config tls_3"
    unfolding tls_3_def by (rule step [OF 2 server_step.accepted]) code_simp
  have 4: "reachable default_config tls_4"
    unfolding tls_4_def by (rule step [OF 3 server_step.handshake]) code_simp
  have 5: "reachable default_config tls_5"
    unfolding tls_5_def by (rule step [OF 4 server_step.after_accept]) code_simp
  have 6: "reachable default_config tls_6"
    unfolding tls_6_def by (rule step [OF 5 server_step.loop]) code_simp
  have 7: "reachable default_config tls_7"
    unfolding tls_7_def by (rule step [OF 6 server_step.start_accept]) code_simp
  have 8: "reachable default_config tls_8"
    unfolding tls_8_def by (rule step [OF 7 server_step.accepted]) code_simp
  show ?thesis
    unfolding tls_9_def by (rule step [OF 8 server_step.handshake]) code_simp
qed

lemma tls_run: "sv_ssl_inits tls_9 = [False, True]" "sv_ssl_context_init tls_9" "map sr_kind (sv_created tls_9) = [Handshake_session]"
  by code_simp+

section \<open>Consequences of the invariants\<close>

fun stops_sessions :: "point \<Rightarrow> bool" where
  "stops_sessions Collect = True"
| "stops_sessions (Stopping _) = True"
| "stops_sessions _ = False"

text \<open>No flow is in \<open>stop_sessions\<close> any more.\<close>

definition sessions_stopped :: "server \<Rightarrow> bool" where
  "sessions_stopped s \<longleftrightarrow> \<not> list_ex stops_sessions (concat (sv_flows s))"

lemma sessions_stopped_pts:
  "sessions_stopped s \<Longrightarrow> Collect \<notin># pts s \<and> pending_stops (pts s) = {}"
proof -
  assume s: "sessions_stopped s"
  then have *: "\<forall>p \<in> set (concat (sv_flows s)). \<not> stops_sessions p"
    by (simp add: sessions_stopped_def list_ex_iff)
  have "to_stop p = []" if "p \<in># pts s" for p
    using that * by (cases p) (fastforce simp: pts_def pmset_def)+
  moreover have "Collect \<notin># pts s"
    using * by (fastforce simp: pts_def pmset_def)
  ultimately show ?thesis by (auto simp: pending_stops_def)
qed

lemma shutdown_monotone:
  assumes "server_step s s'" "sv_shutdown_pending s"
  shows "sv_shutdown_pending s'" "set (sv_sessions s') \<subseteq> set (sv_sessions s)"
    and "set (sv_started s') \<subseteq> set (sv_started s) \<union> {x. Start_session x \<in># pts s}"
    and "{x. Start_session x \<in># pts s'} \<subseteq> {x. Start_session x \<in># pts s}"
  using assms
  by (cases rule: server_step.cases;
      auto simp: step_simps split: prod.splits if_splits acceptor_kind.splits list.splits)+

lemma shutdown_monotone_run:
  assumes "server_step\<^sup>*\<^sup>* s s'" "sv_shutdown_pending s"
  shows "sv_shutdown_pending s' \<and> set (sv_sessions s') \<subseteq> set (sv_sessions s)
    \<and> set (sv_started s') \<subseteq> set (sv_started s) \<union> {x. Start_session x \<in># pts s}
    \<and> {x. Start_session x \<in># pts s'} \<subseteq> {x. Start_session x \<in># pts s}"
  using assms
proof (induction rule: rtranclp_induct)
  case (step s' s'')
  then have "sv_shutdown_pending s'" by simp
  note shutdown_monotone [OF step.hyps(2) this]
  with step show ?case by blast
qed simp

lemma distinct_of_nat_word:
  "n < 2 ^ 64 \<Longrightarrow> distinct (map (\<lambda>i. of_nat (Suc i) :: u64) [0..<n])"
proof -
  assume n: "n < 2 ^ 64"
  have "inj_on (\<lambda>i. of_nat (Suc i) :: u64) {0..<n}"
  proof (rule inj_onI)
    fix i j assume "i \<in> {0..<n}" "j \<in> {0..<n}" and eq: "of_nat (Suc i) = (of_nat (Suc j) :: u64)"
    then have "i < 2 ^ 64" "j < 2 ^ 64" using n by simp_all
    moreover have "Suc i mod 2 ^ 64 = Suc j mod 2 ^ 64"
      using arg_cong [OF eq, of unat] by (simp add: unat_of_nat del: of_nat_Suc)
    ultimately show "i = j" by (auto simp: mod_Suc split: if_splits)
  qed
  then show ?thesis by (simp add: distinct_map)
qed

section \<open>Properties\<close>

text \<open>
  C2. No session escapes the shutdown: however registrations, starts, handshakes and the shutdown
  interleave on the worker threads, once \<open>stop_sessions\<close> is through, \<open>stop()\<close> has been called on every
  session that was started and still lives, and no started session is missing from the registry.
\<close>

theorem no_session_escapes_shutdown:
  assumes "reachable cfg s" "sv_shutdown_pending s" "sessions_stopped s"
    and "x \<in> set (sv_started s)" "x \<notin> set (sv_dead s)"
  shows "x \<in> set (sv_stop_calls s) \<and> x \<in> set (sv_sessions s)"
  using server_inv_reachable [OF assms(1)] sessions_stopped_pts [OF assms(3)] assms(2,4,5)
  by (auto simp: server_inv_defs)

theorem no_session_escapes_shutdown_witness:
  "first_session \<in> set (sv_stop_calls stop_11) \<and> first_session \<in> set (sv_sessions stop_11)"
  by (rule no_session_escapes_shutdown [OF stop_reachable(2)]; code_simp)

text \<open>
  C24. The shutdown is final: along every run from a moment when it is pending it stays pending, no
  session enters the registry, and no session starts but those that had passed their registration
  before and were about to start; no other is ever about to start again.
\<close>

theorem shutdown_is_final:
  assumes "server_step\<^sup>*\<^sup>* s s'" "sv_shutdown_pending s"
  shows "sv_shutdown_pending s' \<and> set (sv_sessions s') \<subseteq> set (sv_sessions s)
    \<and> set (sv_started s') \<subseteq> set (sv_started s) \<union> {x. Start_session x \<in># pts s}
    \<and> {x. Start_session x \<in># pts s'} \<subseteq> {x. Start_session x \<in># pts s}"
  by (rule shutdown_monotone_run [OF assms])

theorem shutdown_is_final_witness:
  "sv_shutdown_pending stop_11 \<and> set (sv_sessions stop_11) \<subseteq> set (sv_sessions stop_8)
    \<and> set (sv_started stop_11) \<subseteq> set (sv_started stop_8) \<union> {x. Start_session x \<in># pts stop_8}
    \<and> {x. Start_session x \<in># pts stop_11} \<subseteq> {x. Start_session x \<in># pts stop_8}"
proof (rule shutdown_is_final)
  show "server_step\<^sup>*\<^sup>* stop_8 stop_11" by (rule stop_run)
qed code_simp

text \<open>
  C11. The TLS context is initialised exactly when needed: it is never initialised again after a
  success, failures leave it to the next connection to try again, and a handshake session or an
  HTTP session over TLS exists only when the initialisation has succeeded.
\<close>

theorem tls_context_initialised_once:
  assumes "reachable cfg s"
  shows "(\<exists>n. sv_ssl_inits s = replicate n False @ (if sv_ssl_context_init s then [True] else []))
    \<and> (\<forall>x \<in> set (sv_created s). sr_kind x \<noteq> Http_plain \<longrightarrow> True \<in> set (sv_ssl_inits s))"
  using server_inv_reachable [OF assms] by (auto simp: server_inv_defs)

theorem tls_context_initialised_once_witness:
  "\<exists>n. sv_ssl_inits tls_9 = replicate n False @ [True] \<and> n = 1
    \<and> map sr_kind (sv_created tls_9) = [Handshake_session]"
proof -
  from tls_context_initialised_once [OF tls_reachable] obtain n
    where n: "sv_ssl_inits tls_9 = replicate n False @ [True]" by (auto simp: tls_run(2))
  with tls_run(1) have "length (replicate n False @ [True]) = 2" by (metis length_Cons list.size(3) One_nat_def Suc_1)
  with n tls_run(3) show ?thesis by auto
qed

text \<open>
  C34. Session ids are unique: the ids are handed out in order from 1, and while a server has
  created fewer than \<open>2 ^ 64\<close> sessions (handshake and HTTP sessions together) no two have the same.
\<close>

theorem session_ids_unique:
  assumes "reachable cfg s" "length (sv_created s) < 2 ^ 64"
  shows "map sr_id (sv_created s) = map (\<lambda>i. of_nat (Suc i)) [0..<length (sv_created s)]
    \<and> distinct (map sr_id (sv_created s))"
proof -
  have "map sr_id (sv_created s) = map (\<lambda>i. of_nat (Suc i)) [0..<length (sv_created s)]"
    using server_inv_reachable [OF assms(1)] by (simp only: server_inv_defs)
  then show ?thesis using distinct_of_nat_word [OF assms(2)] by metis
qed

theorem session_ids_unique_witness:
  "map sr_id (sv_created stop_11) = map (\<lambda>i. of_nat (Suc i)) [0..<length (sv_created stop_11)]
    \<and> distinct (map sr_id (sv_created stop_11))"
proof (rule session_ids_unique [OF stop_reachable(2)])
  have "length (sv_created stop_11) = 1" by code_simp
  then show "length (sv_created stop_11) < 2 ^ 64" by simp
qed

text \<open>
  C35. In single-request mode each listener accepts at most one connection. But there are two
  listeners, so the mode that is documented to handle exactly one request can accept a connection
  on each port.
\<close>

theorem single_request_accepts_one_each:
  "(\<forall>cfg s a. reachable cfg s \<and> run_mode (cfg_server cfg) = SingleRequest \<longrightarrow>
      times_accepted a (sv_accepted s) \<le> 1)
   \<and> (\<exists>cfg s. reachable cfg s \<and> run_mode (cfg_server cfg) = SingleRequest
        \<and> sv_accepted s = [Http, Https])"
proof (intro conjI allI impI)
  fix cfg s a assume "reachable cfg s \<and> run_mode (cfg_server cfg) = SingleRequest"
  then show "times_accepted a (sv_accepted s) \<le> 1"
    using server_inv_reachable [of cfg s] by (auto simp: server_inv_defs dest: spec [of _ a])
next
  have "run_mode (cfg_server single_config) = SingleRequest" "sv_accepted single_6 = [Http, Https]"
    by code_simp+
  with single_reachable
  show "\<exists>cfg s. reachable cfg s \<and> run_mode (cfg_server cfg) = SingleRequest \<and> sv_accepted s = [Http, Https]"
    by blast
qed

theorem single_request_accepts_one_each_witness:
  "times_accepted Http (sv_accepted single_6) \<le> 1"
proof -
  have "run_mode (cfg_server single_config) = SingleRequest" by code_simp
  with single_request_accepts_one_each single_reachable show ?thesis by blast
qed

text \<open>
  C36. While no shutdown is pending, no listener ever uses an acceptor that was destroyed. In the
  race with a shutdown it can: a listener that has tested the flag calls \<open>async_accept\<close> on an
  acceptor which \<open>close_acceptors\<close> has meanwhile destroyed.
\<close>

theorem dangling_acceptor_only_in_shutdown:
  "(\<forall>cfg s. reachable cfg s \<longrightarrow> \<not> sv_dangling s \<or> sv_shutdown_pending s)
   \<and> (\<exists>s. reachable default_config s \<and> sv_dangling s)"
proof (intro conjI allI impI)
  fix cfg s assume "reachable cfg s"
  then show "\<not> sv_dangling s \<or> sv_shutdown_pending s"
    using server_inv_reachable [of cfg s] by (auto simp: server_inv_defs)
next
  have "sv_dangling dangling_6" by code_simp
  with dangling_reachable(2) show "\<exists>s. reachable default_config s \<and> sv_dangling s" by blast
qed

theorem dangling_acceptor_only_in_shutdown_witness:
  "\<not> sv_dangling (server_up default_config)"
proof -
  have "\<not> sv_shutdown_pending (server_up default_config)" by code_simp
  with dangling_acceptor_only_in_shutdown server_up_reachable show ?thesis by blast
qed

text \<open>
  C37. Starting up: when the ports can be opened, \<open>run\<close> waits for signals, listens on the HTTP port
  and, if it differs, on the HTTPS port, and shares a limiter that is a full bucket of the
  configured rate and burst, or unlimited; when the HTTP port cannot be opened, it throws.
\<close>

theorem run_sets_up:
  "(\<forall>e. bind (http_port (cfg_server cfg)) = Inl e \<longrightarrow> run bind now hc (Server cfg) = Inl e)
   \<and> (bind = (\<lambda>_. Inr ()) \<and> 0 < hc \<longrightarrow>
      (\<exists>s n. run bind now hc (Server cfg) = Inr (Some (s, n))
        \<and> sv_flows s = [Signal_wait] # [Loop Http] #
            (if https_port (cfg_server cfg) \<noteq> http_port (cfg_server cfg) then [[Loop Https]] else [])
        \<and> sv_rate_limiter s = Some
            (if throttling_enabled (cfg_throttling cfg)
             then TokenBucketLimiter (TokenBucket
               (of_nat (unat (requests_per_second (cfg_throttling cfg))))
               (of_nat (unat (burst_size (cfg_throttling cfg)))) now)
             else UnlimitedRateLimiter)))"
  by (auto simp: run_def init_acceptors_def install_signals_handler_def init_rate_limiter_def
      install_listeners_def Let_def Server_def add_flow_def num_threads_def clamp_def)

theorem run_sets_up_witness:
  "(\<exists>s n. run (\<lambda>_. Inr ()) 0 1 (Server default_config) = Inr (Some (s, n))
    \<and> sv_rate_limiter s = Some UnlimitedRateLimiter)
   \<and> run (\<lambda>_. Inl (Runtime_error [])) 0 1 (Server default_config) = Inl (Runtime_error [])"
  using run_sets_up [of "\<lambda>_. Inr ()" default_config 0 1]
    run_sets_up [of "\<lambda>_. Inl (Runtime_error [])" default_config 0 1]
  by (auto simp: default_config_def)

end
