(* ===== verification/Proxy.thy ===== *)
theory Proxy
  imports Server_Props Http_Session_Props
begin

text \<open>
  The whole proxy: one server, the HTTP sessions it has created, and the rate limiter they share.
  The server creates, starts and stops the sessions (\<open>launch_http_session\<close>, \<open>stop_sessions\<close>); each
  session runs on its strand, concurrently with the others and with the server; the limiter is the
  object behind the \<open>shared_ptr\<close> that every session gets. A step is a step of the server or an
  event of one session.
\<close>

section \<open>State\<close>

text \<open>
  One session object for each session the server has created, \<open>None\<close> for a handshake session;
  \<open>px_clock\<close> is the latest reading of the steady clock.
\<close>

record proxy =
  px_server :: server
  px_sessions :: "http_session option list"
  px_limiter :: limiter
  px_clock :: time

fun carries :: "http_stream \<Rightarrow> session_kind \<Rightarrow> bool" where
  "carries (TcpStream _) k \<longleftrightarrow> k = Http_plain"
| "carries (SslStream _) k \<longleftrightarrow> k = Http_tls"

section \<open>Steps\<close>

text \<open>The object that \<open>launch_http_session\<close> makes for a session, on its connection \<open>channel\<close>.\<close>

definition session_object :: "Config \<Rightarrow> http_stream \<Rightarrow> limiter \<Rightarrow> session_ref \<Rightarrow> http_session option" where
  "session_object cfg channel l x =
     (if sr_kind x = Handshake_session then None else Some (HTTPSession cfg channel (sr_id x) l))"

definition on_session :: "(http_session \<Rightarrow> http_session) \<Rightarrow> session_ref \<Rightarrow> http_session option list \<Rightarrow> http_session option list" where
  "on_session f x hs = (if sr_index x < length hs then hs[sr_index x := map_option f (hs ! sr_index x)] else hs)"

text \<open>What a step of the server from \<open>s\<close> to \<open>s'\<close> does to the session objects.\<close>

definition follow :: "http_stream \<Rightarrow> limiter \<Rightarrow> server \<Rightarrow> server \<Rightarrow> http_session option list \<Rightarrow> http_session option list" where
  "follow channel l s s' hs =
     (let hs = hs @ map (session_object (sv_cfg s) channel l) (drop (length (sv_created s)) (sv_created s'));
          hs = fold (on_session hs_start) (drop (length (sv_started s)) (sv_started s')) hs
      in fold (on_session hs_stop) (drop (length (sv_stop_calls s)) (sv_stop_calls s')) hs)"

text \<open>
  An event of the session's own: the calls of \<open>stop\<close> come from the server, the limiter is read from
  the shared object, and the clock does not run backwards.
\<close>

fun own_event :: "time \<Rightarrow> event \<Rightarrow> bool" where
  "own_event c (Ev_read _ _ _ now) \<longleftrightarrow> c \<le> now"
| "own_event c Ev_stop_call \<longleftrightarrow> False"
| "own_event c (Ev_limiter _) \<longleftrightarrow> False"
| "own_event c _ \<longleftrightarrow> True"

fun clock_after :: "time \<Rightarrow> event \<Rightarrow> time" where
  "clock_after c (Ev_read _ _ _ now) = now"
| "clock_after c _ = c"

inductive proxy_step :: "proxy \<Rightarrow> proxy \<Rightarrow> bool" where
  server: "server_step (px_server p) s' \<Longrightarrow>
    list_all (\<lambda>x. sr_kind x = Handshake_session \<or> carries channel (sr_kind x))
      (drop (length (sv_created (px_server p))) (sv_created s')) \<Longrightarrow>
    proxy_step p (p\<lparr>px_server := s',
      px_sessions := follow channel (px_limiter p) (px_server p) s' (px_sessions p)\<rparr>)"
| session: "i < length (px_sessions p) \<Longrightarrow> px_sessions p ! i = Some h \<Longrightarrow> own_event (px_clock p) e \<Longrightarrow>
    hs_event e (h\<lparr>hs_rate_limiter := px_limiter p\<rparr>) = Some h' \<Longrightarrow>
    proxy_step p (p\<lparr>px_sessions := (px_sessions p)[i := Some h'],
      px_limiter := hs_rate_limiter h', px_clock := clock_after (px_clock p) e\<rparr>)"

text \<open>The proxy as \<open>run\<close> leaves it at time \<open>t0\<close>, before its worker threads start.\<close>

definition proxy_up :: "server \<Rightarrow> time \<Rightarrow> proxy" where
  "proxy_up s t0 =
     \<lparr>px_server = s, px_sessions = [], px_limiter = the (sv_rate_limiter s), px_clock = t0\<rparr>"

inductive proxy_reachable :: "Config \<Rightarrow> time \<Rightarrow> proxy \<Rightarrow> bool" for cfg t0 where
  start: "run bind t0 hc (Server cfg) = Inr (Some (s, n)) \<Longrightarrow> proxy_reachable cfg t0 (proxy_up s t0)"
| step: "proxy_reachable cfg t0 p \<Longrightarrow> proxy_step p p' \<Longrightarrow> proxy_reachable cfg t0 p'"

inductive_cases proxy_step_cases: "proxy_step p p'"

text \<open>The server of a proxy behaves like a server.\<close>

lemma proxy_server_reachable: "proxy_reachable cfg t0 p \<Longrightarrow> reachable cfg (px_server p)"
proof (induction rule: proxy_reachable.induct)
  case (start bind hc s n)
  then show ?case by (simp add: proxy_up_def reachable.start)
next
  case (step p p')
  from step.hyps(2) step.IH show ?case
    by (cases rule: proxy_step.cases) (auto intro: reachable.step)
qed

section \<open>What a step of the server does to the sessions\<close>

lemma server_step_sessions:
  assumes "server_step s s'"
  obtains (none) "sv_created s' = sv_created s" "sv_started s' = sv_started s" "sv_stop_calls s' = sv_stop_calls s"
  | (creates) x where "sv_created s' = sv_created s @ [x]" "sr_index x = length (sv_created s)"
      "sv_started s' = sv_started s" "sv_stop_calls s' = sv_stop_calls s"
  | (starts) x where "sv_created s' = sv_created s" "sv_started s' = sv_started s @ [x]"
      "sv_stop_calls s' = sv_stop_calls s" "Start_session x \<in># pts s"
  | (stops) x where "sv_created s' = sv_created s" "sv_started s' = sv_started s"
      "sv_stop_calls s' = sv_stop_calls s @ [x]" "x \<in> pending_stops (pts s)"
proof -
  from assms have "(sv_created s' = sv_created s \<and> sv_started s' = sv_started s \<and> sv_stop_calls s' = sv_stop_calls s)
    \<or> (\<exists>x. sv_created s' = sv_created s @ [x] \<and> sr_index x = length (sv_created s)
          \<and> sv_started s' = sv_started s \<and> sv_stop_calls s' = sv_stop_calls s)
    \<or> (\<exists>x. sv_created s' = sv_created s \<and> sv_started s' = sv_started s @ [x]
          \<and> sv_stop_calls s' = sv_stop_calls s \<and> Start_session x \<in># pts s)
    \<or> (\<exists>x. sv_created s' = sv_created s \<and> sv_started s' = sv_started s
          \<and> sv_stop_calls s' = sv_stop_calls s @ [x] \<and> x \<in> pending_stops (pts s))"
    by (cases rule: server_step.cases)
      (auto simp: step_simps split: prod.splits if_splits acceptor_kind.splits list.splits)
  then show thesis using none creates starts stops by blast
qed

lemma created_nth:
  assumes "inv_index s" "x \<in> set (sv_created s)"
  shows "sr_index x < length (sv_created s)" "sv_created s ! sr_index x = x"
proof -
  from assms(2) obtain i where i: "i < length (sv_created s)" "sv_created s ! i = x"
    by (auto simp: in_set_conv_nth)
  then have "map sr_index (sv_created s) ! i = sr_index x" by simp
  with assms(1) i(1) have "sr_index x = i" by (simp add: inv_index_def)
  with i show "sr_index x < length (sv_created s)" "sv_created s ! sr_index x = x" by simp_all
qed

section \<open>What an event does to a session\<close>

text \<open>A session that was created and not started: nothing but stops can happen to it.\<close>

definition fresh :: "http_session \<Rightarrow> bool" where
  "fresh h \<longleftrightarrow> set (hs_tasks h) \<subseteq> {T_stop} \<and> set (hs_trace h) \<subseteq> {Client_shutdown}"

text \<open>A session on which \<open>stop\<close> was called: it has stopped, or the handler is still to run.\<close>

definition stopping :: "http_session \<Rightarrow> bool" where
  "stopping h \<longleftrightarrow> stopped h \<or> T_stop \<in> set (hs_tasks h)"

lemma set_remove1_stop: "set ts \<subseteq> {T_stop} \<Longrightarrow> set (remove1 t ts) \<subseteq> {T_stop}"
  using set_remove1_subset by fast

lemma fresh_event:
  assumes "fresh h" "hs_event e h = Some h'" "own_event c e"
  shows "fresh h'"
proof -
  have only: "t \<in> set (hs_tasks h) \<Longrightarrow> t = T_stop" for t using assms(1) by (auto simp: fresh_def)
  have "e = Ev_stop"
    using assms only by (cases e) (auto simp: resume_Some is_client_write_def split: if_splits)
  with assms set_remove1_stop [of "hs_tasks h"] show ?thesis
    by (auto simp: resume_Some fresh_def on_stop_def shutdown_def Let_def drop_task_def emit_def split: prod.splits)
qed

lemma fresh_start:
  assumes "fresh h" "hs_inv u h"
  shows "hs_inv u (hs_start h)"
proof -
  have "filter is_request_task ts = [] \<and> filter is_timer_task ts = []" if "set ts \<subseteq> {T_stop}" for ts
    using that by (induction ts) auto
  then have t: "request_tasks h = []" "timer_tasks h = []"
    using assms(1) by (simp_all add: fresh_def request_tasks_def timer_tasks_def)
  have "limiter_answers tr = [] \<and> request_writes tr = [] \<and> timeout_writes tr = [] \<and> \<not> touches_upstream tr
      \<and> upstream_writes tr = []" if "set tr \<subseteq> {Client_shutdown}" for tr
    using that by (induction tr) auto
  moreover have "Cancel_timer \<notin> set (hs_trace h)" "Timer_expired \<notin> set (hs_trace h)"
    using assms(1) by (auto simp: fresh_def)
  ultimately show ?thesis
    using t hs_invD [OF assms(2)] assms(1)
    by (auto simp: hs_inv_def hs_start_def fresh_def untouched_def socket_open_def)
qed

lemma fresh_stop: "fresh h \<Longrightarrow> fresh (hs_stop h)"
  by (simp add: fresh_def hs_stop_def)

lemma stopping_stop: "stopping (hs_stop h)"
  by (simp add: stopping_def hs_stop_def)

lemma stopping_start: "stopping h \<Longrightarrow> stopping (hs_start h)"
  by (auto simp: stopping_def hs_start_def)

lemma remove1_keeps: "x \<in> set xs \<Longrightarrow> y \<noteq> x \<Longrightarrow> x \<in> set (remove1 y xs)"
  by simp

lemma stopping_event:
  assumes "stopping h" "hs_event e h = Some h'"
  shows "stopping h'"
  using assms
  by (cases e)
    (auto simp: resume_Some stopping_def drop_task_def on_stop_def timer_handler_defs Let_def is_client_write_def
      start_impl_def obtain_header_def request_handler_defs header_read_def on_header_obtained_def on_request_def
      cancel_timer_def split: if_splits prod.splits option.splits)





section \<open>The sessions of a reachable proxy\<close>

definition session_ok :: "Config \<Rightarrow> server \<Rightarrow> session_ref \<Rightarrow> http_session option \<Rightarrow> bool" where
  "session_ok cfg s x ho \<longleftrightarrow>
     (case ho of
        None \<Rightarrow> sr_kind x = Handshake_session
      | Some h \<Rightarrow> sr_kind x \<noteq> Handshake_session \<and> hs_inv (upstream_info_of cfg) h
          \<and> (x \<notin> set (sv_started s) \<longrightarrow> fresh h)
          \<and> (x \<in> set (sv_stop_calls s) \<longrightarrow> stopping h))"

definition sessions_ok :: "Config \<Rightarrow> proxy \<Rightarrow> bool" where
  "sessions_ok cfg p \<longleftrightarrow>
     list_all2 (session_ok cfg (px_server p)) (sv_created (px_server p)) (px_sessions p)"

lemma session_ok_new:
  assumes "server_inv cfg s" "x \<notin> set (sv_created s)" "sv_stop_calls s' = sv_stop_calls s"
  shows "session_ok cfg s' x (session_object cfg channel l x)"
proof -
  have "x \<notin> set (sv_stop_calls s)" using assms by (auto simp: server_inv_def inv_members_def)
  with assms(3) show ?thesis
    by (auto simp: session_ok_def session_object_def fresh_def HTTPSession_def hs_inv_def SessionBase_def
        upstream_info_of_def untouched_def request_done_def request_tasks_def timer_tasks_def)
qed

lemma session_ok_started:
  assumes "session_ok cfg s x ho" "x \<notin> set (sv_started s)" "sv_stop_calls s' = sv_stop_calls s" "x \<in> set (sv_started s')"
  shows "session_ok cfg s' x (map_option hs_start ho)"
  using assms by (auto simp: session_ok_def stopping_start fresh_start split: option.splits)

lemma session_ok_stopped:
  assumes "session_ok cfg s x ho" "sv_started s' = sv_started s"
  shows "session_ok cfg s' x (map_option hs_stop ho)"
  using assms by (auto simp: session_ok_def stopping_stop fresh_stop stop_event(2) split: option.splits)

lemma session_ok_same:
  "(x \<in> set (sv_started s') \<longleftrightarrow> x \<in> set (sv_started s)) \<Longrightarrow>
   (x \<in> set (sv_stop_calls s') \<longleftrightarrow> x \<in> set (sv_stop_calls s)) \<Longrightarrow>
     session_ok cfg s' x ho = session_ok cfg s x ho"
  by (cases ho) (simp_all add: session_ok_def)

lemma on_session_ok:
  assumes "list_all2 (session_ok cfg s) xs hs" "sr_index x < length xs" "xs ! sr_index x = x"
    and "\<And>ho. session_ok cfg s x ho \<Longrightarrow> session_ok cfg s' x (map_option f ho)"
    and "\<And>y ho. y \<in> set xs \<Longrightarrow> y \<noteq> x \<Longrightarrow> session_ok cfg s' y ho = session_ok cfg s y ho"
    and "distinct xs"
  shows "list_all2 (session_ok cfg s') xs (on_session f x hs)"
proof -
  have len: "length hs = length xs" and nth: "\<And>i. i < length xs \<Longrightarrow> session_ok cfg s (xs ! i) (hs ! i)"
    using assms(1) by (auto simp: list_all2_conv_all_nth)
  have "session_ok cfg s' (xs ! j) (on_session f x hs ! j)" if j: "j < length xs" for j
  proof (cases "j = sr_index x")
    case True
    with assms(2-4) nth [OF j] len show ?thesis by (simp add: on_session_def)
  next
    case False
    with assms(2,3,6) j have "xs ! j \<noteq> x" by (metis nth_eq_iff_index_eq)
    with assms(5) [of "xs ! j" "hs ! j"] nth [OF j] False j len show ?thesis
      by (simp add: on_session_def)
  qed
  with len show ?thesis by (simp add: list_all2_conv_all_nth on_session_def)
qed

lemma distinct_created: "inv_index s \<Longrightarrow> distinct (sv_created s)"
  by (metis distinct_map distinct_upt inv_index_def)

lemma sessions_ok_server:
  assumes inv: "server_inv cfg (px_server p)" and ok: "sessions_ok cfg p"
    and st: "server_step (px_server p) s'"
  shows "sessions_ok cfg (p\<lparr>px_server := s',
    px_sessions := follow channel l (px_server p) s' (px_sessions p)\<rparr>)"
proof -
  let ?s = "px_server p"
  have idx: "inv_index ?s" and mem: "inv_members ?s" and once: "inv_once x ?s" for x
    using inv by (simp_all add: server_inv_def)
  have cfg: "sv_cfg ?s = cfg" using inv by (simp add: server_inv_def inv_config_def)
  have all: "list_all2 (session_ok cfg ?s) (sv_created ?s) (px_sessions p)"
    using ok by (simp add: sessions_ok_def)
  from st show ?thesis
  proof (cases rule: server_step_sessions)
    case none
    then have "session_ok cfg s' = session_ok cfg ?s" by (intro ext session_ok_same) simp_all
    with none all show ?thesis by (simp add: sessions_ok_def follow_def)
  next
    case (creates x)
    then have same: "session_ok cfg s' = session_ok cfg ?s" by (intro ext session_ok_same) simp_all
    from creates have "x \<notin> set (sv_created ?s)" using created_nth(1) [OF idx] by fastforce
    with creates same all session_ok_new [OF inv, of x s' channel l] cfg show ?thesis
      by (simp add: sessions_ok_def follow_def list_all2_appendI)
  next
    case (starts x)
    then have x: "x \<in> set (sv_created ?s)" using mem by (auto simp: inv_members_def)
    have "launching x (pts ?s) \<noteq> 0" using starts(4) by (auto simp: launching_0)
    then have "x \<notin> set (sv_started ?s)"
      using once [of x] by (simp add: inv_once_def flip: times_started_0)
    then have "list_all2 (session_ok cfg s') (sv_created ?s) (on_session hs_start x (px_sessions p))"
      by (intro on_session_ok [OF all created_nth [OF idx x] _ _ distinct_created [OF idx]] session_ok_started session_ok_same)
        (use starts in auto)
    with starts show ?thesis by (simp add: sessions_ok_def follow_def)
  next
    case (stops x)
    then have x: "x \<in> set (sv_created ?s)" using mem by (auto simp: inv_members_def)
    then have "list_all2 (session_ok cfg s') (sv_created ?s) (on_session hs_stop x (px_sessions p))"
      by (intro on_session_ok [OF all created_nth [OF idx x] _ _ distinct_created [OF idx]] session_ok_stopped session_ok_same)
        (use stops in auto)
    with stops show ?thesis by (simp add: sessions_ok_def follow_def)
  qed
qed

lemma session_ok_event:
  assumes "session_ok cfg s x (Some h)" "hs_event e (h\<lparr>hs_rate_limiter := l\<rparr>) = Some h'" "own_event c e"
  shows "session_ok cfg s x (Some h')"
proof -
  let ?h = "h\<lparr>hs_rate_limiter := l\<rparr>"
  have "hs_inv (upstream_info_of cfg) h'"
    using assms by (auto simp: session_ok_def intro: hs_event_keeps_inv stop_event(3))
  moreover have "fresh h \<Longrightarrow> fresh h'"
    using fresh_event [OF _ assms(2,3)] by (simp add: fresh_def)
  moreover have "stopping h \<Longrightarrow> stopping h'"
    using stopping_event [OF _ assms(2)] by (simp add: stopping_def)
  ultimately show ?thesis using assms(1) by (simp add: session_ok_def)
qed

lemma sessions_ok_reachable: "proxy_reachable cfg t0 p \<Longrightarrow> sessions_ok cfg p"
proof (induction rule: proxy_reachable.induct)
  case (start bind hc s n)
  obtain fl ha hb where s: "s = (Server cfg)\<lparr>sv_flows := fl, sv_http_acceptor := ha,
      sv_https_acceptor := hb, sv_rate_limiter := sv_rate_limiter s\<rparr>"
    using run_Some [OF start] by blast
  have "sv_created s = []" by (subst s) (simp add: Server_def)
  then show ?case by (simp add: sessions_ok_def proxy_up_def)
next
  case (step p p')
  from step.hyps(2) show ?case
  proof (cases rule: proxy_step.cases)
    case (server s' channel)
    with sessions_ok_server [OF server_inv_reachable [OF proxy_server_reachable [OF step.hyps(1)]] step.IH]
    show ?thesis by simp
  next
    case (session i h e h')
    with step.IH have i: "i < length (sv_created (px_server p))"
      and "session_ok cfg (px_server p) (sv_created (px_server p) ! i) (Some h)"
      by (auto simp: sessions_ok_def list_all2_conv_all_nth)
    with session session_ok_event have "session_ok cfg (px_server p) (sv_created (px_server p) ! i) (Some h')"
      by blast
    with session step.IH i show ?thesis
      by (auto simp: sessions_ok_def list_all2_conv_all_nth nth_list_update)
  qed
qed

section \<open>What all sessions together have done\<close>











section \<open>The shared limiter\<close>









section \<open>An example run\<close>

text \<open>Steps of the server and of one session, to write runs down.\<close>

definition served :: "http_stream \<Rightarrow> (server \<Rightarrow> server) \<Rightarrow> proxy \<Rightarrow> proxy" where
  "served channel f p =
     p\<lparr>px_server := f (px_server p),
       px_sessions := follow channel (px_limiter p) (px_server p) (f (px_server p)) (px_sessions p)\<rparr>"


lemma served_reachable:
  assumes "proxy_reachable cfg t0 p" "server_step (px_server p) (f (px_server p))"
    and "list_all (\<lambda>x. sr_kind x = Handshake_session \<or> carries channel (sr_kind x))
      (drop (length (sv_created (px_server p))) (sv_created (f (px_server p))))"
  shows "proxy_reachable cfg t0 (served channel f p)"
  unfolding served_def by (rule proxy_reachable.step [OF assms(1) proxy_step.server [OF assms(2,3)]])


text \<open>
  With throttling, one client is served up to the request to the upstream host; then a signal
  arrives and the session is stopped.
\<close>

definition throttled :: Config where
  "throttled = upd_throttling (\<lambda>t. t\<lparr>throttling_enabled := True\<rparr>) default_config"

abbreviation a_channel :: http_stream where
  "a_channel \<equiv> TcpStream a_socket"

definition px_0 :: proxy where "px_0 = proxy_up (server_up throttled) 0"
definition px_1 :: proxy where "px_1 = served a_channel (pass (Loop Http) [] (listener_loop Http)) px_0"
definition px_2 :: proxy where "px_2 = served a_channel (pass (Start_accept Http) [] (listener_accept Http)) px_1"
definition px_3 :: proxy where
  "px_3 = served a_channel (pass (Accepting Http) [] (listener_accepted Http Success a_socket)) px_2"
definition px_4 :: proxy where
  "px_4 = served a_channel (pass (Dispatch a_socket) [] (dispatch_http_request a_socket)) px_3"
definition px_5 :: proxy where
  "px_5 = served a_channel (pass (Launch a_channel) [] (launch_http_session a_channel)) px_4"
definition px_6 :: proxy where
  "px_6 = served a_channel (pass (Register first_session) [] (register_point first_session)) px_5"
definition px_7 :: proxy where
  "px_7 = served a_channel (pass (Start_session first_session) [] (start_session first_session)) px_6"


text \<open>Or a signal arrives before the session has done anything.\<close>

definition px_9 :: proxy where "px_9 = served a_channel (pass Signal_wait [] (on_signal Success)) px_7"
definition px_10 :: proxy where "px_10 = served a_channel (pass Collect [Close_acceptors] stop_sessions_collect) px_9"
definition px_11 :: proxy where
  "px_11 = served a_channel (pass (Stopping [first_session]) [Close_acceptors] (stop_sessions_loop [first_session])) px_10"
definition px_12 :: proxy where
  "px_12 = served a_channel (pass (Stopping []) [Close_acceptors] (stop_sessions_loop [])) px_11"

lemma px_0_reachable: "proxy_reachable throttled 0 px_0"
proof -
  have "\<exists>s n. run (\<lambda>_. Inr ()) 0 1 (Server throttled) = Inr (Some (s, n))"
    by (simp add: run_def init_acceptors_def Let_def num_threads_def clamp_def)
  then obtain s n where r: "run (\<lambda>_. Inr ()) 0 1 (Server throttled) = Inr (Some (s, n))" by blast
  then have "server_up throttled = s" by (simp add: server_up_def)
  with proxy_reachable.start [OF r] show ?thesis by (simp add: px_0_def)
qed

lemma px_7_reachable: "proxy_reachable throttled 0 px_7"
proof -
  have 1: "proxy_reachable throttled 0 px_1"
    unfolding px_1_def by (rule served_reachable [OF px_0_reachable], rule server_step.loop) code_simp+
  have 2: "proxy_reachable throttled 0 px_2"
    unfolding px_2_def by (rule served_reachable [OF 1], rule server_step.start_accept) code_simp+
  have 3: "proxy_reachable throttled 0 px_3"
    unfolding px_3_def by (rule served_reachable [OF 2], rule server_step.accepted) code_simp+
  have 4: "proxy_reachable throttled 0 px_4"
    unfolding px_4_def by (rule served_reachable [OF 3], rule server_step.dispatch) code_simp+
  have 5: "proxy_reachable throttled 0 px_5"
    unfolding px_5_def by (rule served_reachable [OF 4], rule server_step.launch) code_simp+
  have 6: "proxy_reachable throttled 0 px_6"
    unfolding px_6_def by (rule served_reachable [OF 5], rule server_step.register) code_simp+
  show ?thesis
    unfolding px_7_def by (rule served_reachable [OF 6], rule server_step.start) code_simp+
qed

lemma px_12_reachable: "proxy_reachable throttled 0 px_12"
proof -
  have 9: "proxy_reachable throttled 0 px_9"
    unfolding px_9_def by (rule served_reachable [OF px_7_reachable], rule server_step.signal) code_simp+
  have 10: "proxy_reachable throttled 0 px_10"
    unfolding px_10_def by (rule served_reachable [OF 9], rule server_step.collect) code_simp+
  have 11: "proxy_reachable throttled 0 px_11"
    unfolding px_11_def by (rule served_reachable [OF 10], rule server_step.stopping) code_simp+
  show ?thesis
    unfolding px_12_def by (rule served_reachable [OF 11], rule server_step.stopping) code_simp+
qed



lemma px_7:
  "px_sessions px_7 = [Some (hs_start (HTTPSession throttled a_channel 1 (px_limiter px_7)))]"
  "px_limiter px_7 = TokenBucketLimiter (TokenBucket 20 40 0)" "px_clock px_7 = 0"
  by code_simp+


section \<open>Properties\<close>



text \<open>
  C38. The shutdown reaches every client: once the server's \<open>stop_sessions\<close> is through, every HTTP
  session that was started and still lives is about to run the handler of its \<open>stop\<close>, or it has
  stopped, and then its connection is closed unless the 408 is being written, after which it is.
\<close>

theorem shutdown_reaches_every_client:
  assumes "proxy_reachable cfg t0 p" "sv_shutdown_pending (px_server p)" "sessions_stopped (px_server p)"
    and "x \<in> set (sv_started (px_server p))" "x \<notin> set (sv_dead (px_server p))" "sr_kind x \<noteq> Handshake_session"
  shows "\<exists>h. px_sessions p ! sr_index x = Some h
    \<and> (T_stop \<in> set (hs_tasks h)
       \<or> is_stopped (hs_base h) \<and> (\<not> so_open (lowest_socket (hs_stream h)) \<or> T_timeout_write \<in> set (hs_tasks h)))"
proof -
  have inv: "server_inv cfg (px_server p)" by (rule server_inv_reachable [OF proxy_server_reachable [OF assms(1)]])
  have called: "x \<in> set (sv_stop_calls (px_server p))"
    using inv sessions_stopped_pts [OF assms(3)] assms(2,4,5) by (auto simp: server_inv_defs)
  have "x \<in> set (sv_created (px_server p))" "inv_index (px_server p)"
    using inv assms(4) by (auto simp: server_inv_def inv_members_def)
  note i = created_nth [OF this(2,1)]
  with sessions_ok_reachable [OF assms(1)] have "session_ok cfg (px_server p) x (px_sessions p ! sr_index x)"
    by (metis list_all2_nthD sessions_ok_def)
  with assms(6) called obtain h where h: "px_sessions p ! sr_index x = Some h"
      "hs_inv (upstream_info_of cfg) h" "stopping h"
    by (auto simp: session_ok_def split: option.splits)
  have "T_timeout_write \<in> set (hs_tasks h)" if "timer_tasks h = [T_timeout_write]"
  proof -
    have "T_timeout_write \<in> set (timer_tasks h)" by (simp add: that)
    then show ?thesis by (simp add: timer_tasks_def)
  qed
  with h hs_invD(6) [OF h(2)] show ?thesis
    by (auto simp: stopping_def is_stopped_def socket_open_def)
qed

theorem shutdown_reaches_every_client_witness:
  "\<exists>h. px_sessions px_12 ! 0 = Some h
    \<and> (T_stop \<in> set (hs_tasks h)
       \<or> is_stopped (hs_base h) \<and> (\<not> so_open (lowest_socket (hs_stream h)) \<or> T_timeout_write \<in> set (hs_tasks h)))"
proof -
  have "sr_index first_session = 0" by (simp add: first_session_def)
  moreover have "sv_shutdown_pending (px_server px_12)" "sessions_stopped (px_server px_12)"
    "first_session \<in> set (sv_started (px_server px_12))" "first_session \<notin> set (sv_dead (px_server px_12))"
    "sr_kind first_session \<noteq> Handshake_session" by code_simp+
  ultimately show ?thesis using shutdown_reaches_every_client [OF px_12_reachable] by metis
qed

end
