(* ===== verification/Main_Program.thy ===== *)
theory Main_Program
  imports App_Args Server Startup_Table
begin

text \<open>
  \<open>main.cpp\<close>: the program as a whole. What it does to the outside is a list of actions; the
  libraries, the environment and the file system are parameters.
\<close>

section \<open>The logger\<close>

datatype log_sink = Stdout_color string | Daily_file string

record logger =
  lg_sink :: log_sink
  lg_pattern :: string
  lg_level :: level_enum
  lg_flush_on :: level_enum

text \<open>
  \<open>sy_home\<close>: the variable \<open>HOME\<close>; \<open>sy_exists\<close>, \<open>sy_create_directory\<close>, \<open>sy_daily_logger\<close> and
  \<open>sy_stdout_logger\<close>: the calls for the log; \<open>sy_server_members\<close>: the constructors of the signal
  set and the TLS context in the server; \<open>sy_bind\<close>: opening a listening socket; \<open>sy_create_thread\<close>:
  creating the threads, by number; \<open>sy_clock\<close>: the clock; \<open>sy_hardware_concurrency\<close>. All calls may
  throw.
\<close>

record system =
  sy_home :: "string option"
  sy_exists :: "string \<Rightarrow> bool result"
  sy_create_directory :: "string \<Rightarrow> unit result"
  sy_daily_logger :: "string \<Rightarrow> unit result"
  sy_stdout_logger :: "string \<Rightarrow> unit result"
  sy_server_members :: "unit result"
  sy_bind :: "u16 \<Rightarrow> unit result"
  sy_create_thread :: "nat \<Rightarrow> unit result"
  sy_clock :: time
  sy_hardware_concurrency :: nat

text \<open>\<open>path / path\<close> and \<open>append\<close> for a relative second path.\<close>

definition path_append :: "string \<Rightarrow> string \<Rightarrow> string" where
  "path_append p q = (if p = [] \<or> last p = CHR ''/'' then p @ q else p @ ''/'' @ q)"

definition log_file_directory :: "string \<Rightarrow> string" where
  "log_file_directory home = path_append (path_append home ''.local/share'') APP_NAME"

definition logger_of :: "log_sink \<Rightarrow> level_enum \<Rightarrow> logger" where
  "logger_of sink lvl =
     \<lparr>lg_sink = sink, lg_pattern = ''[%H:%M:%S] %v'', lg_level = lvl, lg_flush_on = lvl\<rparr>"

definition init_logger :: "system \<Rightarrow> LoggerType \<Rightarrow> level_enum \<Rightarrow> logger result" where
  "init_logger sys logger_type logging_level =
     (if logger_type = File then
        case sy_home sys of
          None \<Rightarrow> Inl (Runtime_error ''HOME environment variable is not defined!'')
        | Some home \<Rightarrow>
            let dir = log_file_directory home;
                file = path_append dir ''mb-log.log''
            in bindE (sy_exists sys dir) (\<lambda>found.
               bindE (if \<not> found then sy_create_directory sys dir else Inr ()) (\<lambda>_.
               bindE (sy_daily_logger sys file) (\<lambda>_.
               Inr (logger_of (Daily_file file) logging_level))))
      else bindE (sy_stdout_logger sys APP_NAME) (\<lambda>_.
           Inr (logger_of (Stdout_color APP_NAME) logging_level)))"

section \<open>The usage text\<close>

definition samples_of_using :: string where
  "samples_of_using =
     ''Command line samples:'' @ [LF]
     @ ''    '' @ APP_NAME @ [LF]
     @ ''    '' @ APP_NAME @ '' -h'' @ [LF]
     @ ''    '' @ APP_NAME @ '' --config config/market-bridge.json'' @ [LF]
     @ ''    '' @ APP_NAME @ '' --config config/market-bridge.json --http-port 9000'' @ [LF]
     @ ''    '' @ APP_NAME @ '' -p 8080'' @ [LF]
     @ ''    '' @ APP_NAME @ '' -l info'' @ [LF]
     @ ''    '' @ APP_NAME @ '' -o file''"

definition show_usage :: "string \<Rightarrow> string" where
  "show_usage help = [LF] @ help @ [LF] @ samples_of_using @ [LF] @ [LF]"

section \<open>The program\<close>

datatype action =
    Print string \<comment> \<open>on standard output\<close>
  | Print_error string
  | Use_logger logger
  | Serve Config \<comment> \<open>all threads run the server's flows until none is left\<close>
  | Serve_partly Config nat \<comment> \<open>so do the threads that were created before one could not be\<close>
  | Undefined_behaviour

text \<open>
  \<open>Server server(cfg); server.run()\<close>: it throws, or serves (its result is not used). When a thread
  cannot be created, the ones before it serve until no flow is left, then the exception goes on.
\<close>

definition run_server :: "system \<Rightarrow> Config \<Rightarrow> unit result \<times> action list" where
  "run_server sys cfg =
     (case sy_server_members sys of
        Inl e \<Rightarrow> (Inl e, [])
      | Inr _ \<Rightarrow>
          (case run (sy_bind sys) (sy_clock sys) (sy_hardware_concurrency sys) (Server cfg) of
             Inl e \<Rightarrow> (Inl e, [])
           | Inr None \<Rightarrow> (Inr (), [Undefined_behaviour])
           | Inr (Some (_, n)) \<Rightarrow>
               (case create_threads (sy_create_thread sys) 0 n of
                  (i, Inl e) \<Rightarrow> (Inl e, if i = 0 then [] else [Serve_partly cfg i])
                | (_, Inr _) \<Rightarrow> (Inr (), [Serve cfg]))))"

text \<open>After the arguments: the logger, then the server.\<close>

definition start_program :: "system \<Rightarrow> Config \<Rightarrow> unit result \<times> action list" where
  "start_program sys cfg =
     (case init_logger sys (log_output (cfg_logging cfg)) (log_level (cfg_logging cfg)) of
        Inl e \<Rightarrow> (Inl e, [])
      | Inr lg \<Rightarrow> (let (r, acts) = run_server sys cfg in (r, Use_logger lg # acts)))"

fun main_result :: "unit result \<times> action list \<Rightarrow> int \<times> action list" where
  "main_result (Inr _, acts) = (0, acts)"
| "main_result (Inl e, acts) = (1, acts @ [Print_error (''Error: '' @ what e @ [LF])])"

definition main :: "libraries \<Rightarrow> system \<Rightarrow> string list \<Rightarrow> int \<times> action list" where
  "main lib sys argv =
     (if length argv > 1 then
        let p = process_arguments_from_file (lib\<lparr>lib_usage := show_usage\<rparr>) argv default_config; out = map Print (pr_stdout p)
        in case pr_result p of
             Inl e \<Rightarrow> main_result (Inl e, out)
           | Inr (exit_code, usage_requested) \<Rightarrow>
               (if exit_code \<noteq> 0 then (exit_code, out)
                else if usage_requested then (0, out)
                else let (r, acts) = start_program sys (pr_config p) in main_result (r, out @ acts))
      else main_result (start_program sys default_config))"

section \<open>What the program does\<close>

text \<open>The configuration the program goes on with, when it goes on.\<close>

definition effective_config :: "libraries \<Rightarrow> string list \<Rightarrow> Config option" where
  "effective_config lib argv =
     (if length argv > 1 then
        let p = process_arguments_from_file (lib\<lparr>lib_usage := show_usage\<rparr>) argv default_config
        in if pr_result p = Inr (0, False) then Some (pr_config p) else None
      else Some default_config)"

text \<open>The command line was refused: an error of the option parser, or two equal ports.\<close>

definition arguments_refused :: "libraries \<Rightarrow> string list \<Rightarrow> bool" where
  "arguments_refused lib argv \<longleftrightarrow> length argv > 1
     \<and> pr_result (process_arguments_from_file (lib\<lparr>lib_usage := show_usage\<rparr>) argv default_config) = Inr (1, False)"

definition help_wanted :: "libraries \<Rightarrow> string list \<Rightarrow> bool" where
  "help_wanted lib argv \<longleftrightarrow> length argv > 1 \<and> help_requested lib argv"

text \<open>How the program gets to its end: one of four ways, told apart by the command line.\<close>

lemma main_cases:
  obtains (usage) "help_wanted lib argv" "\<not> arguments_refused lib argv" "effective_config lib argv = None"
      "\<And>sys. main lib sys argv = (0, [Print (show_usage (op_help (lib_parser lib)))])"
  | (refused) w where "\<not> help_wanted lib argv" "arguments_refused lib argv" "effective_config lib argv = None"
      "\<And>sys. main lib sys argv = (1, [Print w])"
  | (escapes) e where "\<not> help_wanted lib argv" "\<not> arguments_refused lib argv" "effective_config lib argv = None"
      "\<And>sys. main lib sys argv = main_result (Inl e, [])"
  | (goes_on) cfg where "\<not> help_wanted lib argv" "\<not> arguments_refused lib argv" "effective_config lib argv = Some cfg"
      "http_port (cfg_server cfg) \<noteq> https_port (cfg_server cfg)"
      "\<And>sys. main lib sys argv = main_result (start_program sys cfg)"
proof (cases "length argv > 1")
  case False
  show thesis
    by (rule goes_on [of default_config])
      (use False in \<open>simp_all add: help_wanted_def arguments_refused_def effective_config_def main_def default_config_def\<close>)
next
  case True
  let ?l = "lib\<lparr>lib_usage := show_usage\<rparr>"
  let ?p = "process_arguments_from_file ?l argv default_config"
  note defs = help_wanted_def arguments_refused_def effective_config_def main_def Let_def
  show thesis
  proof (cases "help_requested lib argv")
    case h: True
    then have "help_requested ?l argv" by (simp add: help_requested_def)
    from process_arguments_help [OF this, of "LoadFromFile []" default_config]
    have "pr_result ?p = Inr (0, True)" "pr_stdout ?p = [show_usage (op_help (lib_parser lib))]"
      by (simp_all add: process_arguments_from_file_def)
    then show thesis by (intro usage) (use True h in \<open>simp_all add: defs\<close>)
  next
    case h: False
    then have "\<not> help_requested ?l argv" by (simp add: help_requested_def)
    from process_arguments_no_help [OF this, of "LoadFromFile []" default_config]
    consider (a) "pr_result ?p = Inr (0, False)" "pr_stdout ?p = []"
          "http_port (cfg_server (pr_config ?p)) \<noteq> https_port (cfg_server (pr_config ?p))"
      | (b) w where "pr_result ?p = Inr (1, False)" "pr_stdout ?p = [w]"
      | (c) w where "pr_result ?p = Inl (Runtime_error w)" "pr_stdout ?p = []"
      by (auto simp: process_arguments_from_file_def reported_def)
    then show thesis
    proof cases
      case a
      then show thesis
        by (intro goes_on [of "pr_config ?p"]) (use True h in \<open>simp_all add: defs split: prod.splits\<close>)
    next
      case b
      then show thesis by (intro refused [of w]) (use True h in \<open>simp_all add: defs\<close>)
    next
      case c
      then show thesis by (intro escapes [of "Runtime_error w"]) (use True h in \<open>simp_all add: defs\<close>)
    qed
  qed
qed

lemma run_server_acts:
  obtains (throws) e where "run_server sys cfg = (Inl e, [])"
  | (partly) e i where "run_server sys cfg = (Inl e, [Serve_partly cfg i])"
  | (serves) "run_server sys cfg = (Inr (), [Serve cfg])"
  | (undefined) "run_server sys cfg = (Inr (), [Undefined_behaviour])"
  by (cases "snd (run_server sys cfg)")
    (auto simp: run_server_def split: sum.splits option.splits prod.splits if_splits)

lemma main_result_acts:
  "Serve c \<in> set (snd (main_result (r, acts))) \<longleftrightarrow> Serve c \<in> set acts"
  "Serve_partly c n \<in> set (snd (main_result (r, acts))) \<longleftrightarrow> Serve_partly c n \<in> set acts"
  "Undefined_behaviour \<in> set (snd (main_result (r, acts))) \<longleftrightarrow> Undefined_behaviour \<in> set acts"
  by (cases r; simp)+

text \<open>A system in which everything works.\<close>

definition example_system :: system where
  "example_system =
     \<lparr>sy_home = Some ''/root'', sy_exists = (\<lambda>_. Inr True), sy_create_directory = (\<lambda>_. Inr ()),
      sy_daily_logger = (\<lambda>_. Inr ()), sy_stdout_logger = (\<lambda>_. Inr ()), sy_server_members = Inr (),
      sy_bind = (\<lambda>_. Inr ()), sy_create_thread = (\<lambda>_. Inr ()), sy_clock = 0, sy_hardware_concurrency = 4\<rparr>"

lemma create_threads_all: "create_threads (\<lambda>_. Inr ()) i n = (i + n, Inr ())"
  by (induction n arbitrary: i) simp_all

lemma start_program_example:
  "start_program example_system default_config =
     (Inr (), [Use_logger (logger_of (Stdout_color APP_NAME) info), Serve default_config])"
  by (simp add: start_program_def init_logger_def run_server_def example_system_def default_config_def
      run_def init_acceptors_def Let_def num_threads_def clamp_def create_threads_all)

section \<open>Properties\<close>

text \<open>
  C22. The server is only ever started with two different ports, and when all of it could be
  started the program ends with 0: whatever the arguments, the configuration file and the libraries do.
\<close>

theorem serves_on_distinct_ports:
  assumes "Serve cfg \<in> set (snd (main lib sys argv)) \<or> Serve_partly cfg n \<in> set (snd (main lib sys argv))"
  shows "http_port (cfg_server cfg) \<noteq> https_port (cfg_server cfg)
    \<and> (Serve cfg \<in> set (snd (main lib sys argv)) \<longrightarrow> fst (main lib sys argv) = 0)"
proof (cases rule: main_cases [of lib argv])
  case (goes_on c)
  show ?thesis
  proof (cases "init_logger sys (log_output (cfg_logging c)) (log_level (cfg_logging c))")
    case (Inr lg)
    then show ?thesis
      by (cases rule: run_server_acts [of sys c])
        (use goes_on(4,5) assms in \<open>simp_all add: start_program_def\<close>)
  qed (use goes_on(5) assms in \<open>simp add: start_program_def\<close>)
qed (use assms in simp_all)

theorem serves_on_distinct_ports_witness:
  "http_port (cfg_server default_config) \<noteq> https_port (cfg_server default_config)
   \<and> fst (main example_libraries example_system [''market-bridge'']) = 0"
proof -
  have "Serve default_config \<in> set (snd (main example_libraries example_system [''market-bridge'']))"
    by (simp add: main_def start_program_example main_result_acts)
  with serves_on_distinct_ports [of default_config example_libraries example_system "[''market-bridge'']" 0]
  show ?thesis by blast
qed

text \<open>
  C23. No exception leaves \<open>main\<close>: it always returns 0 or 1. It returns 1 exactly when it has
  reported why: the last thing it did was to write an exception to the error stream, or the command
  line was refused, and then one text on standard output was all it did. It returns 0 exactly when
  help was asked for, or the server ran with all its threads to the end (or the number of threads
  was undefined).
\<close>

theorem main_total:
  "fst (main lib sys argv) \<in> {0, 1}
   \<and> (fst (main lib sys argv) = 1 \<longleftrightarrow>
       (\<exists>acts w. snd (main lib sys argv) = acts @ [Print_error w]) \<or> arguments_refused lib argv)
   \<and> (arguments_refused lib argv \<longrightarrow> (\<exists>w. snd (main lib sys argv) = [Print w]))
   \<and> (fst (main lib sys argv) = 0 \<longleftrightarrow>
       help_wanted lib argv \<or> (\<exists>cfg. Serve cfg \<in> set (snd (main lib sys argv)))
       \<or> Undefined_behaviour \<in> set (snd (main lib sys argv)))"
proof (cases rule: main_cases [of lib argv])
  case (goes_on c)
  show ?thesis
  proof (cases "init_logger sys (log_output (cfg_logging c)) (log_level (cfg_logging c))")
    case (Inr lg)
    then show ?thesis
      by (cases rule: run_server_acts [of sys c]) (use goes_on in \<open>simp_all add: start_program_def\<close>)
  qed (use goes_on in \<open>simp add: start_program_def\<close>)
qed simp_all

theorem main_total_witness:
  "\<exists>acts w. snd (main example_libraries (example_system\<lparr>sy_bind := (\<lambda>_. Inl (Runtime_error ''in use''))\<rparr>)
      [''market-bridge'']) = acts @ [Print_error w]"
proof -
  let ?sys = "example_system\<lparr>sy_bind := (\<lambda>_. Inl (Runtime_error ''in use''))\<rparr>"
  have "fst (main example_libraries ?sys [''market-bridge'']) = 1"
    by (simp add: main_def start_program_def init_logger_def run_server_def example_system_def default_config_def
      run_def init_acceptors_def Let_def install_signals_handler_def add_flow_def Server_def)
  moreover have "\<not> arguments_refused example_libraries [''market-bridge'']"
    by (simp add: arguments_refused_def)
  ultimately show ?thesis using main_total [of example_libraries ?sys "[''market-bridge'']"] by blast
qed

text \<open>
  C40. The logger comes first: with the configuration the command line settles, the program either
  has its logger before anything else, on the sink and with the level that was configured, or it
  reports the exception, returns 1 and has opened no port. So logging to a file without \<open>HOME\<close>, or
  without its directory when that cannot be created, ends the program, with the reason.
\<close>

theorem logger_initialised_first:
  assumes "effective_config lib argv = Some cfg"
  shows
    "(case init_logger sys (log_output (cfg_logging cfg)) (log_level (cfg_logging cfg)) of
        Inl e \<Rightarrow> main lib sys argv = (1, [Print_error (''Error: '' @ what e @ [LF])])
      | Inr lg \<Rightarrow> (\<exists>acts. snd (main lib sys argv) = Use_logger lg # acts)
          \<and> lg_level lg = log_level (cfg_logging cfg)
          \<and> lg_sink lg = (case log_output (cfg_logging cfg) of
              Console \<Rightarrow> Stdout_color APP_NAME
            | File \<Rightarrow> Daily_file (path_append (log_file_directory (the (sy_home sys))) ''mb-log.log'')))
     \<and> (log_output (cfg_logging cfg) = File \<and> sy_home sys = None \<longrightarrow>
          main lib sys argv = (1, [Print_error (''Error: HOME environment variable is not defined!'' @ [LF])]))
     \<and> (\<forall>home e. log_output (cfg_logging cfg) = File \<and> sy_home sys = Some home
            \<and> sy_exists sys (log_file_directory home) = Inr False
            \<and> sy_create_directory sys (log_file_directory home) = Inl e \<longrightarrow>
          main lib sys argv = (1, [Print_error (''Error: '' @ what e @ [LF])]))"
proof (cases rule: main_cases [of lib argv])
  case (goes_on c)
  with assms have c: "c = cfg" by simp
  show ?thesis
  proof (cases "init_logger sys (log_output (cfg_logging cfg)) (log_level (cfg_logging cfg))")
    case (Inl e)
    with goes_on(5) c have "main lib sys argv = (1, [Print_error (''Error: '' @ what e @ [LF])])"
      by (simp add: start_program_def)
    with Inl show ?thesis by (auto simp: init_logger_def Let_def)
  next
    case (Inr lg)
    then have "lg_level lg = log_level (cfg_logging cfg)"
      "lg_sink lg = (case log_output (cfg_logging cfg) of Console \<Rightarrow> Stdout_color APP_NAME
         | File \<Rightarrow> Daily_file (path_append (log_file_directory (the (sy_home sys))) ''mb-log.log''))"
      by (auto simp: init_logger_def logger_of_def Let_def bindE_eq_Inr split: option.splits if_splits LoggerType.splits)
    moreover have "\<exists>acts. snd (main lib sys argv) = Use_logger lg # acts"
      by (cases rule: run_server_acts [of sys c]) (use goes_on(5) c Inr in \<open>simp_all add: start_program_def\<close>)
    moreover from Inr have "\<not> (log_output (cfg_logging cfg) = File \<and> sy_home sys = None)"
      "\<not> (log_output (cfg_logging cfg) = File \<and> sy_home sys = Some home
            \<and> sy_exists sys (log_file_directory home) = Inr False
            \<and> sy_create_directory sys (log_file_directory home) = Inl e)" for home e
      by (auto simp: init_logger_def Let_def split: option.splits)
    ultimately show ?thesis using Inr by auto
  qed
qed (use assms in simp_all)

definition log_to_file :: libraries where
  "log_to_file = example_libraries\<lparr>lib_parser :=
     \<lparr>op_parse = (\<lambda>_. Inr (example_args\<lparr>pa_count := (\<lambda>k. if k = ''log-output'' then 1 else 0),
        pa_string := (\<lambda>_. Inr ''file'')\<rparr>)), op_bound_config = (\<lambda>_. None), op_help = []\<rparr>\<rparr>"

lemma log_to_file_config:
  "effective_config log_to_file [''market-bridge'', ''--log-output=file''] =
     Some (upd_logging (\<lambda>l. l\<lparr>log_output := File\<rparr>) default_config)"
  by code_simp

theorem logger_initialised_first_witness:
  "main log_to_file (example_system\<lparr>sy_home := None\<rparr>) [''market-bridge'', ''--log-output=file''] =
     (1, [Print_error (''Error: HOME environment variable is not defined!'' @ [LF])])"
  using logger_initialised_first [OF log_to_file_config, of "example_system\<lparr>sy_home := None\<rparr>"]
  by simp

end
