(* ===== verification/Spec2Isabelle.thy ===== *)
theory Spec2Isabelle
  imports MB_Prelude Cpp_Std Config_Data Config_Json App_Args Startup_Table Http_Helper Double
    Rate_Limiter Session_Helper Http_Session Http_Session_Inv Http_Session_Runs Http_Session_Props
    Handshake_Session Server Server_Inv Server_Props Proxy Main_Program
begin

text \<open>
  market-bridge is a small HTTP/HTTPS proxy in front of one upstream host. It reads its settings from
  a JSON file and the command line, listens on two ports, limits the rate of requests with a token
  bucket, and forwards each admitted GET request over TLS. This library models the whole program
  (all of \<open>src/src\<close>) and proves what makes its parts correct.

  How the parts interact. \<open>main\<close> combines defaults, JSON document and command line into a \<open>Config\<close>,
  sets up the logger and runs a \<open>Server\<close>. The server opens the acceptors, creates the rate limiter
  all sessions share, and lets several threads run the listeners. An accepted connection becomes an
  \<open>HTTPSession\<close>, through a \<open>HandshakeSession\<close> first if it is TLS. An HTTP session reads one request
  under a five-second timer, asks the limiter, and answers: with 408, 429 or the health document of
  its own, or with the bytes its \<open>OutgoingSession\<close> received from upstream. A signal stops all
  registered sessions and closes the acceptors.

  Theories, the code they model, and what they show.

  \<^item> \<open>MB_Prelude\<close>, \<open>Cpp_Std\<close>: word sizes, exceptions as values, decimal numbers; the pieces of the
    C++ library the code rests on (\<open>std::map\<close>, \<open>getline\<close>, \<open>operator>>\<close>, \<open>find\<close>, \<open>setw\<close> with its
    \<open>int\<close>, \<open>clamp\<close>). The locale \<open>ordered_dict\<close> is the contract of \<open>std::map\<close>.
  \<^item> \<open>Config_Data\<close> (\<open>common/config.h\<close>), \<open>Config_Json\<close> (\<open>config/config_json.*\<close>): one function per reader
    and per section, each a step that stores into the configuration it is given and may throw halfway
    (\<open>config_step\<close>); the readers are exact, merging a document refines a declarative \<open>overlay\<close> and
    accepts exactly the well-formed documents, writing and merging is a round trip; the merge alone
    is not all or nothing, loading, which works on a copy, is. The JSON parser and the file system are parameters.
  \<^item> \<open>App_Args\<close> (\<open>common/app.h\<close>), \<open>Main_Program\<close> (\<open>main.cpp\<close>), \<open>Startup_Table\<close>: precedence of command
    line over document over defaults, the outcomes of argument processing and that help is shown
    exactly when it was asked for, that the server is only started on two different ports, that no
    exception leaves \<open>main\<close> and when it returns 0 and 1, that the logger comes before the server, and
    that the table is a rectangle when no cell has a line feed or \<open>2 ^ 31\<close> characters. Every call to
    the system may fail, the creation of each thread too. The option parser, the logging library and the operating system are parameters.
  \<^item> \<open>Http_Helper\<close> (\<open>utils/http-helper.h\<close>): the request parser inverts the printer and normalises
    every input; generated responses are framed correctly.
  \<^item> \<open>Double\<close>, \<open>Rate_Limiter\<close> (\<open>tocken-bucket.*\<close>, \<open>common/rate-limiter.h\<close>, the limiters of
    \<open>server.cpp\<close>): the token bucket in IEEE double arithmetic, with rounding to 53 bits as a function on
    rationals (overflow and subnormal numbers do not occur for 32-bit rates and capacities and are not
    modelled). Admissions are bounded by burst plus rate times time, bursts are served and cut
    exactly, a second's wait suffices. Time is an integer of nanoseconds that an argument supplies.
  \<^item> \<open>Session_Helper\<close> (\<open>common/ec-handler.h\<close>, \<open>common/session.h\<close>, \<open>utils/session-helper.h\<close>), \<open>Http_Session\<close>
    (\<open>http-session.*\<close>): each stretch of a coroutine between two suspension points is one function;
    what is pending is a list of tasks, and an event lets one of them go on with any result. The
    trace records what the session does. \<open>Http_Session_Inv\<close> states how far the request chain and the
    timer chain have come (\<open>hs_inv\<close>) and that every event keeps it; \<open>Http_Session_Runs\<close> computes
    complete runs; \<open>Http_Session_Props\<close> has the properties: one response per connection but for a race
    that is exhibited, obedience to the limiter, what goes upstream and what comes back unchanged,
    who answers, and how sessions end.
  \<^item> \<open>Handshake_Session\<close> (\<open>handshake_session.*\<close>), \<open>Server\<close> (\<open>server.*\<close>): flows of the worker threads pass
    points, one critical section or atomic access at a time, in any interleaving (\<open>server_step\<close>).
    \<open>Server_Inv\<close> has the invariants of all reachable servers, \<open>Server_Props\<close> the properties: no session
    escapes the shutdown, which is final along every run, the TLS context is initialised once, ids are unique, what
    single-request mode accepts, and which races the code leaves.
  \<^item> \<open>Proxy\<close>: the server, the HTTP sessions it creates, starts and stops, and the one limiter they
    share, composed into one step relation (\<open>proxy_step\<close>). End to end: the requests that all sessions
    together send upstream stay within burst plus rate times time, and a finished shutdown has
    reached every live client.

  Bounds. No fuel is used: every loop is structural, decreases a measure (\<open>parse_headers\<close>,
  \<open>log_openssl_errors\<close>) or, where it waits for the outside (\<open>read_response\<close>, \<open>listener\<close>), is one turn
  per event. Lengths and sizes (\<open>size_t\<close>) are natural numbers, since they measure memory; the one
  subtraction of sizes is written with its wrap-around. Ports, limits and session ids are words.

  Interfaces. Locales state the contracts between parts, each interpreted on the model: \<open>ordered_dict\<close>
  (\<open>dict\<close>), \<open>rounding\<close> (\<open>ieee\<close>), \<open>limiter_contract\<close> and \<open>budgeted_limiter\<close> (\<open>dispatch\<close>, \<open>bucket\<close>),
  \<open>stop_flag\<close> (\<open>base\<close>) and \<open>invariant\<close> (\<open>hs\<close>, \<open>silent\<close>).

  Not modelled: the texts of log lines (but for the startup table, OpenSSL errors and the TLS
  callback), Windows-only branches, exceptions that escape a worker thread (\<open>io_.run()\<close> has no
  handler around it, so they end the process), the memory of coroutines and objects except where the
  code refers to an object that may be gone (the acceptors), TLS itself, and liveness of the scheduler.
\<close>

end
